(* ===== verification/Go_Prelude.thy ===== *)
theory Go_Prelude
  imports Main "HOL-Library.Word" "HOL-Library.List_Lexorder" "HOL-Library.Char_ord"
    "HOL-Library.Sublist" "HOL-Library.Multiset"
begin

text \<open>
  The Go language and standard library notions the components share: \<open>error\<close> values,
  byte strings with \<open>strings.TrimSpace\<close> and \<open>strings.ToUpper\<close>, \<open>time.Time\<close> and
  \<open>time.Duration\<close>, fixed-width integers, and the generic lemmas on lists, options and
  command runs that the component theories use.

  Conventions. A Go \<open>error\<close> result is an \<open>'e option\<close> (\<open>None\<close> is \<open>nil\<close>); a pair
  \<open>(T, error)\<close> is a sum \<open>'e + 'a\<close>; a method with a pointer receiver that mutates it
  takes the state and returns the state it leaves behind together with the error, so
  that a method which fails after a partial update is visible as such.
\<close>

named_theorems go_time "unfolding of the time comparisons"
named_theorems go_defs "definitions of the operations of a component"

type_synonym u64 = "64 word"
type_synonym u32 = "32 word"
type_synonym byte = "8 word"

abbreviation Err :: "'e \<Rightarrow> 'e + 'a" where "Err \<equiv> Inl"
abbreviation Ok :: "'a \<Rightarrow> 'e + 'a" where "Ok \<equiv> Inr"

section \<open>Strings\<close>

text \<open>The character class \<open>[lo-hi]\<close> of a regular expression.\<close>

abbreviation char_range :: "char \<Rightarrow> char \<Rightarrow> char \<Rightarrow> bool" where
  "char_range lo hi c \<equiv> lo \<le> c \<and> c \<le> hi"

text \<open>
  A Go string is a byte sequence: a \<open>string\<close> whose characters are bytes. The white space
  of \<open>unicode.IsSpace\<close> is listed by its UTF-8 encodings; every lead byte decides the
  length of its encoding, so removing encodings from either end is what
  \<open>strings.TrimSpace\<close> does rune by rune.
\<close>

definition white_spaces :: "string list" where
  "white_spaces = map (map char_of)
     ([[32], [9], [10], [11], [12], [13], [0xC2, 0x85], [0xC2, 0xA0], [0xE1, 0x9A, 0x80]] @
      map (\<lambda>b. [0xE2, 0x80, b])
        [0x80, 0x81, 0x82, 0x83, 0x84, 0x85, 0x86, 0x87, 0x88, 0x89, 0x8A, 0xA8, 0xA9, 0xAF] @
      [[0xE2, 0x81, 0x9F], [0xE3, 0x80, 0x80 :: nat]])"

definition leading :: "string list \<Rightarrow> string \<Rightarrow> string option" where
  "leading ws s = find (\<lambda>w. w \<noteq> [] \<and> prefix w s) ws"

function strip :: "string list \<Rightarrow> string \<Rightarrow> string" where
  "strip ws s = (case leading ws s of None \<Rightarrow> s | Some w \<Rightarrow> strip ws (drop (length w) s))"
  by pat_completeness auto
termination
  by (relation "measure (\<lambda>(ws, s). length s)")
    (auto simp: leading_def find_Some_iff prefix_def)

declare strip.simps [simp del]

definition TrimSpace :: "string \<Rightarrow> string" where
  "TrimSpace s = rev (strip (map rev white_spaces) (rev (strip white_spaces s)))"

lemma leading_None [simp]: "leading ws s = None \<longleftrightarrow> (\<forall>w\<in>set ws. w \<noteq> [] \<longrightarrow> \<not> prefix w s)"
  by (auto simp: leading_def find_None_iff)

lemma strip_fixed: "leading ws s = None \<Longrightarrow> strip ws s = s"
  by (subst strip.simps) (simp del: leading_None)

lemma leading_strip: "leading ws (strip ws s) = None"
proof (induction ws s rule: strip.induct)
  case (1 ws s)
  then show ?case
    by (subst strip.simps) (auto split: option.split simp del: leading_None)
qed

lemma strip_suffix: "suffix (strip ws s) s"
proof (induction ws s rule: strip.induct)
  case (1 ws s)
  show ?case
  proof (cases "leading ws s")
    case None
    then show ?thesis by (simp add: strip_fixed del: leading_None)
  next
    case (Some w)
    then have "suffix (strip ws (drop (length w) s)) (drop (length w) s)" by (rule 1)
    then show ?thesis
      using Some by (subst strip.simps) (auto intro: suffix_order.trans suffix_drop)
  qed
qed

lemma strip_Nil [simp]: "strip ws [] = []"
  by (rule strip_fixed) auto

lemma TrimSpace_Nil [simp]: "TrimSpace [] = []"
  by (simp add: TrimSpace_def)

lemma TrimSpace_prefix: "prefix (TrimSpace s) (strip white_spaces s)"
  using strip_suffix [of "map rev white_spaces" "rev (strip white_spaces s)"]
  by (simp add: TrimSpace_def suffix_to_prefix)

lemma TrimSpace_leading: "leading white_spaces (TrimSpace s) = None"
  using leading_strip [of white_spaces s] TrimSpace_prefix [of s]
  by (auto intro: prefix_order.trans)

lemma TrimSpace_trailing: "leading (map rev white_spaces) (rev (TrimSpace s)) = None"
  by (simp add: TrimSpace_def leading_strip del: leading_None)

lemma TrimSpace_fixed:
  "leading white_spaces s = None \<Longrightarrow> leading (map rev white_spaces) (rev s) = None \<Longrightarrow>
   TrimSpace s = s"
  by (simp add: TrimSpace_def strip_fixed del: leading_None)

lemma TrimSpace_idem [simp]: "TrimSpace (TrimSpace s) = TrimSpace s"
  by (rule TrimSpace_fixed [OF TrimSpace_leading TrimSpace_trailing])

text \<open>
  \<open>strings.ToUpper\<close>, as far as its callers observe it: every caller compares the result
  with ASCII text. The two runes outside ASCII whose upper case is ASCII are the dotless i
  (C4 B1) and the long s (C5 BF); the other ones keep a byte outside ASCII.
\<close>

definition upper_byte :: "char \<Rightarrow> char" where
  "upper_byte c = (if char_range (CHR ''a'') (CHR ''z'') c then char_of (of_char c - (32::nat)) else c)"

fun ToUpper :: "string \<Rightarrow> string" where
  "ToUpper [] = []"
| "ToUpper [c] = [upper_byte c]"
| "ToUpper (c # d # s) =
     (if c = CHR 0xC4 \<and> d = CHR 0xB1 then CHR ''I'' # ToUpper s
      else if c = CHR 0xC5 \<and> d = CHR 0xBF then CHR ''S'' # ToUpper s
      else upper_byte c # ToUpper (d # s))"

definition code_char :: "char \<Rightarrow> bool" where
  "code_char c \<longleftrightarrow> char_range (CHR ''A'') (CHR ''Z'') c \<or> char_range (CHR ''0'') (CHR ''9'') c \<or> c = CHR ''_''"

text \<open>
  The identifier patterns \<open>^[A-Z][A-Z0-9_]{lo,hi}$\<close>: \<open>lo\<close> and \<open>hi\<close> bound the tail.
\<close>

definition code_pattern :: "nat \<Rightarrow> nat \<Rightarrow> string \<Rightarrow> bool" where
  "code_pattern lo hi s = (case s of [] \<Rightarrow> False | c # t \<Rightarrow>
     char_range (CHR ''A'') (CHR ''Z'') c \<and> lo \<le> length t \<and> length t \<le> hi \<and> list_all code_char t)"

lemma code_pattern_chars: "code_pattern lo hi s \<Longrightarrow> list_all code_char s"
  by (auto simp: code_pattern_def code_char_def split: list.splits)

definition graphic :: "char \<Rightarrow> bool" where
  "graphic c \<longleftrightarrow> char_range (CHR 0x21) (CHR 0x7E) c"

lemma graphic_not_space: "graphic c \<Longrightarrow> w \<in> set white_spaces \<Longrightarrow> hd w \<noteq> c \<and> last w \<noteq> c"
  by (auto simp: white_spaces_def graphic_def less_eq_char_def)

lemma white_spaces_nonempty: "w \<in> set white_spaces \<Longrightarrow> w \<noteq> []"
  by (auto simp: white_spaces_def)

text \<open>A string whose first and last bytes are graphic ASCII characters is left alone.\<close>

lemma TrimSpace_graphic [simp]:
  assumes "s \<noteq> []" "graphic (hd s)" "graphic (last s)"
  shows "TrimSpace s = s"
proof -
  have "\<not> prefix w s" "\<not> prefix (rev w) (rev s)" if w: "w \<in> set white_spaces" for w
    using graphic_not_space [OF assms(2) w] graphic_not_space [OF assms(3) w]
      white_spaces_nonempty [OF w] assms(1)
    by (auto simp: prefix_def rev_eq_append_conv)
  then show ?thesis
    by (intro TrimSpace_fixed) auto
qed

lemma code_char_graphic: "code_char c \<Longrightarrow> graphic c"
  by (auto simp: code_char_def graphic_def less_eq_char_def)

lemma TrimSpace_code: "list_all code_char s \<Longrightarrow> TrimSpace s = s"
  by (cases "s = []") (auto simp: list_all_iff code_char_graphic)

lemma upper_byte_code: "code_char c \<Longrightarrow> upper_byte c = c"
  by (auto simp: code_char_def upper_byte_def less_eq_char_def)

lemma ToUpper_code: "list_all code_char s \<Longrightarrow> ToUpper s = s"
  by (induction s rule: ToUpper.induct) (auto simp: upper_byte_code code_char_def)

text \<open>\<open>strings.HasPrefix(id, "sha256:")\<close> followed by 64 lower-case hexadecimal digits.\<close>

definition lower_hex :: "char \<Rightarrow> bool" where
  "lower_hex c \<longleftrightarrow> char_range (CHR ''0'') (CHR ''9'') c \<or> char_range (CHR ''a'') (CHR ''f'') c"

definition hash_pattern :: "string \<Rightarrow> bool" where
  "hash_pattern s \<longleftrightarrow> prefix ''sha256:'' s \<and> length s = 71 \<and> list_all lower_hex (drop 7 s)"

text \<open>Decimal notation of a natural number, as \<open>fmt.Sprint\<close> prints it.\<close>

function decimal :: "nat \<Rightarrow> string" where
  "decimal n = (if n < 10 then [char_of (48 + n)] else decimal (n div 10) @ [char_of (48 + n mod 10)])"
  by auto
termination by (relation "measure id") auto

declare decimal.simps [simp del]

section \<open>Time\<close>

text \<open>
  A \<open>time.Time\<close> is an instant, counted in nanoseconds from Go's zero time, and a location
  (0 is UTC). Comparisons look at the instant only; the Go operator \<open>==\<close> compares both
  fields. The monotonic reading is not part of the model: the code strips it with \<open>UTC()\<close>
  or \<open>Truncate\<close> before it stores a value.
\<close>

datatype time = Time (instant: int) (location: nat)

definition IsZero :: "time \<Rightarrow> bool" where "IsZero t \<longleftrightarrow> instant t = 0"
definition Before :: "time \<Rightarrow> time \<Rightarrow> bool" where "Before t u \<longleftrightarrow> instant t < instant u"
definition After :: "time \<Rightarrow> time \<Rightarrow> bool" where "After t u \<longleftrightarrow> instant u < instant t"
definition time_Equal :: "time \<Rightarrow> time \<Rightarrow> bool" where "time_Equal t u \<longleftrightarrow> instant t = instant u"
definition UTC :: "time \<Rightarrow> time" where "UTC t = Time (instant t) 0"
definition time_Add :: "time \<Rightarrow> int \<Rightarrow> time" where "time_Add t d = Time (instant t + d) (location t)"

definition zero_time :: time where "zero_time = Time 0 0"

text \<open>\<open>t.Truncate(time.Microsecond)\<close>: rounding down to a multiple since the zero time.\<close>

definition truncate_micro :: "time \<Rightarrow> time" where
  "truncate_micro t = Time (instant t - instant t mod 1000) (location t)"

definition max_int64 :: int where "max_int64 = 2 ^ 63 - 1"
definition min_int64 :: int where "min_int64 = - (2 ^ 63)"

text \<open>\<open>t.Sub(u)\<close> saturates at the bounds of \<open>time.Duration\<close>.\<close>

definition time_Sub :: "time \<Rightarrow> time \<Rightarrow> int" where
  "time_Sub t u = max min_int64 (min max_int64 (instant t - instant u))"

text \<open>Signed 64-bit wrap-around.\<close>

definition wrap64 :: "int \<Rightarrow> int" where
  "wrap64 x = (x + 2 ^ 63) mod 2 ^ 64 - 2 ^ 63"

lemmas [go_time] = IsZero_def Before_def After_def time_Equal_def

lemma UTC_simps [simp]:
  "instant (UTC t) = instant t" "location (UTC t) = 0" "UTC (UTC t) = UTC t"
  by (simp_all add: UTC_def)

lemma UTC_fixed: "location t = 0 \<Longrightarrow> UTC t = t"
  by (cases t) (simp add: UTC_def)

lemma zero_time_simps [simp]: "IsZero zero_time" "UTC zero_time = zero_time"
  by (simp_all add: zero_time_def go_time UTC_def)

lemma time_UTC [simp]:
  "IsZero (UTC t) \<longleftrightarrow> IsZero t" "Before (UTC t) u \<longleftrightarrow> Before t u" "Before t (UTC u) \<longleftrightarrow> Before t u"
  "After (UTC t) u \<longleftrightarrow> After t u" "After t (UTC u) \<longleftrightarrow> After t u"
  "time_Equal (UTC t) u \<longleftrightarrow> time_Equal t u" "time_Equal t (UTC u) \<longleftrightarrow> time_Equal t u"
  by (simp_all add: go_time)

lemma UTC_time_Add [simp]: "UTC (time_Add (UTC t) d) = time_Add (UTC t) d"
  by (simp add: time_Add_def UTC_def)

lemma truncate_micro_idem [simp]: "truncate_micro (truncate_micro t) = truncate_micro t"
  by (simp add: truncate_micro_def)

lemma truncate_micro_mono: "instant t \<le> instant u \<Longrightarrow> instant (truncate_micro t) \<le> instant (truncate_micro u)"
proof -
  assume "instant t \<le> instant u"
  then have "instant t div 1000 * 1000 \<le> instant u div 1000 * 1000"
    by (simp add: zdiv_mono1)
  then show ?thesis by (simp add: truncate_micro_def minus_mod_eq_div_mult)
qed

lemma wrap64_id: "min_int64 \<le> x \<Longrightarrow> x \<le> max_int64 \<Longrightarrow> wrap64 x = x"
  by (simp add: wrap64_def min_int64_def max_int64_def)

lemma wrap64_range: "min_int64 \<le> wrap64 x \<and> wrap64 x \<le> max_int64"
proof -
  have "0 \<le> (x + 2 ^ 63) mod 2 ^ 64 \<and> (x + 2 ^ 63) mod 2 ^ 64 < 2 ^ 64" by simp
  then show ?thesis by (simp add: wrap64_def min_int64_def max_int64_def)
qed

section \<open>Lists\<close>

text \<open>Strictly increasing keys: what sorting a list of distinct keys establishes.\<close>

lemma sorted_distinct_map_unique:
  assumes "sorted (map f xs)" "distinct (map f xs)" "sorted (map f ys)" "distinct (map f ys)"
    and "set xs = set ys"
  shows "xs = ys"
proof -
  have "inj_on f (set xs)" using assms(2) by (simp add: distinct_map)
  moreover have "map f xs = map f ys"
    using assms by (intro sorted_distinct_set_unique) auto
  ultimately show ?thesis
    using assms(5) by (metis inj_on_map_eq_map Un_absorb)
qed

lemma distinct_map_filter_key: "distinct (map f xs) \<Longrightarrow> distinct (map f (filter P xs))"
  by (induction xs) auto

lemma find_map_key:
  "distinct (map f xs) \<Longrightarrow> x \<in> set xs \<Longrightarrow> find (\<lambda>y. f y = f x) xs = Some x"
  by (induction xs) (auto simp: rev_image_eqI)

lemma distinct_map_sort_key [simp]: "distinct (map f (sort_key k xs)) \<longleftrightarrow> distinct (map f xs)"
  by (simp add: distinct_map)

lemma sort_key_sorted_distinct [simp]:
  "sorted (map f xs) \<Longrightarrow> sort_key f xs = xs"
  by (simp add: sort_key_id_if_sorted)

lemma find_append: "find P (xs @ ys) = (case find P xs of None \<Rightarrow> find P ys | Some x \<Rightarrow> Some x)"
  by (induction xs) simp_all

section \<open>Runs of commands\<close>

text \<open>
  A component whose methods mutate a receiver is a machine: each command returns the state
  it leaves and its error. The contract of such a machine is an invariant that every command
  keeps, and a relation between states that every command respects.
\<close>

fun run :: "('c \<Rightarrow> 's \<Rightarrow> 's \<times> 'e option) \<Rightarrow> 'c list \<Rightarrow> 's \<Rightarrow> 's" where
  "run exec [] s = s"
| "run exec (c # cs) s = run exec cs (fst (exec c s))"

lemma run_append [simp]: "run exec (cs @ ds) s = run exec ds (run exec cs s)"
  by (induction cs arbitrary: s) auto

locale machine =
  fixes exec :: "'c \<Rightarrow> 's \<Rightarrow> 's \<times> 'e option"
    and inv :: "'s \<Rightarrow> bool"
  assumes exec_inv: "inv s \<Longrightarrow> inv (fst (exec c s))"
begin

lemma run_inv: "inv s \<Longrightarrow> inv (run exec cs s)"
  by (induction cs arbitrary: s) (auto simp: exec_inv)

end

text \<open>A machine whose commands only move a state upwards in a preorder.\<close>

locale ordered_machine = machine exec inv
  for exec :: "'c \<Rightarrow> 's \<Rightarrow> 's \<times> 'e option" and inv :: "'s \<Rightarrow> bool" +
  fixes le :: "'s \<Rightarrow> 's \<Rightarrow> bool"
  assumes le_refl: "le s s"
    and le_trans: "le s t \<Longrightarrow> le t u \<Longrightarrow> le s u"
    and exec_le: "inv s \<Longrightarrow> le s (fst (exec c s))"
begin

lemma run_le: "inv s \<Longrightarrow> le s (run exec cs s)"
proof (induction cs arbitrary: s)
  case (Cons c cs)
  then have "le (fst (exec c s)) (run exec cs (fst (exec c s)))" by (simp add: exec_inv)
  with Cons.prems show ?case by (auto intro: le_trans exec_le)
qed (simp add: le_refl)

end

end
