(* ===== verification/Uuid.thy ===== *)
theory Uuid
  imports Go_Prelude
begin

text \<open>
  The vendored UUID package (\<open>src/third_party/google_uuid/uuid.go\<close>). A \<open>[16]byte\<close> array is
  the 128-bit word that reads it big-endian, so array comparison is word comparison. The
  text form is proved to be a round trip, and the order of the text forms, by which the
  services sort, to be the order of the words.
\<close>

unbundle bit_operations_syntax

type_synonym uuid = "128 word"

abbreviation Nil_uuid :: uuid where "Nil_uuid \<equiv> 0"

datatype uuid_error = ErrInvalidUUID

text \<open>\<open>New\<close> sets the version nibble and the variant bits of sixteen random bytes: byte 6
  holds bits 72 to 79 and byte 8 bits 56 to 63.\<close>

definition New :: "uuid \<Rightarrow> uuid" where
  "New random =
     (let u = (random AND NOT (push_bit 72 0xF0)) OR push_bit 72 0x40
      in (u AND NOT (push_bit 56 0xC0)) OR push_bit 56 0x80)"

definition hex_chars :: string where "hex_chars = ''0123456789abcdef''"

fun hex_Encode :: "nat \<Rightarrow> nat \<Rightarrow> string" where
  "hex_Encode 0 n = []"
| "hex_Encode (Suc k) n = hex_Encode k (n div 16) @ [hex_chars ! (n mod 16)]"

text \<open>\<open>hex_Encode k n\<close> writes the last \<open>k\<close> hexadecimal digits of \<open>n\<close>; the byte slices
  \<open>u[0:4]\<close>, \<open>u[4:6]\<close>, \<open>u[6:8]\<close>, \<open>u[8:10]\<close> and \<open>u[10:16]\<close> end at bits 96, 80, 64, 48 and 0.\<close>

definition uuid_String :: "uuid \<Rightarrow> string" where
  "uuid_String u =
     (let n = unat u in
      hex_Encode 8 (n div 16 ^ 24) @ ''-'' @ hex_Encode 4 (n div 16 ^ 20) @ ''-'' @
      hex_Encode 4 (n div 16 ^ 16) @ ''-'' @ hex_Encode 4 (n div 16 ^ 12) @ ''-'' @
      hex_Encode 12 n)"

definition fromHexChar :: "char \<Rightarrow> nat option" where
  "fromHexChar c =
     (if char_range (CHR ''0'') (CHR ''9'') c then Some (of_char c - 48)
      else if char_range (CHR ''a'') (CHR ''f'') c then Some (of_char c - 97 + 10)
      else if char_range (CHR ''A'') (CHR ''F'') c then Some (of_char c - 65 + 10)
      else None)"

fun hex_Decode :: "string \<Rightarrow> nat \<Rightarrow> nat option" where
  "hex_Decode [] acc = Some acc"
| "hex_Decode (c # cs) acc =
     (case fromHexChar c of None \<Rightarrow> None | Some d \<Rightarrow> hex_Decode cs (16 * acc + d))"

definition uuid_Parse :: "string \<Rightarrow> uuid_error + uuid" where
  "uuid_Parse value =
     (let compact = filter (\<lambda>c. c \<noteq> CHR ''-'') (TrimSpace value)
      in if length compact \<noteq> 32 then Err ErrInvalidUUID
         else case hex_Decode compact 0 of
                None \<Rightarrow> Err ErrInvalidUUID
              | Some n \<Rightarrow> Ok (of_nat n))"

definition MarshalText :: "uuid \<Rightarrow> string" where
  "MarshalText u = uuid_String u"

definition UnmarshalText :: "string \<Rightarrow> uuid \<Rightarrow> uuid \<times> uuid_error option" where
  "UnmarshalText value u = (case uuid_Parse value of Inl e \<Rightarrow> (u, Some e) | Inr v \<Rightarrow> (v, None))"

section \<open>Digits\<close>

lemma less_16_cases: "(d::nat) < 16 \<Longrightarrow> d \<in> {0,1,2,3,4,5,6,7,8,9,10,11,12,13,14,15}"
  by simp presburger

lemma fromHexChar_table: "map fromHexChar hex_chars = map Some [0..<16]"
  by code_simp

lemma length_hex_chars [simp]: "length hex_chars = 16"
  by (simp add: hex_chars_def)

lemma fromHexChar_digit [simp]: "d < 16 \<Longrightarrow> fromHexChar (hex_chars ! d) = Some d"
  using arg_cong [OF fromHexChar_table, of "\<lambda>xs. xs ! d"] by simp

lemma hex_char_not_hyphen: "d < 16 \<Longrightarrow> hex_chars ! d \<noteq> CHR ''-''"
  by (drule less_16_cases) (auto simp: hex_chars_def)

lemma hex_chars_sorted: "sorted_wrt (<) hex_chars"
  by (simp add: hex_chars_def)

lemma hex_chars_mono: "d < 16 \<Longrightarrow> e < 16 \<Longrightarrow> hex_chars ! d < hex_chars ! e \<longleftrightarrow> d < e"
proof -
  assume "d < 16" "e < 16"
  then have "d < length hex_chars" "e < length hex_chars" by simp_all
  then show ?thesis
    using sorted_wrt_nth_less [OF hex_chars_sorted]
    by (metis linorder_less_linear order_less_asym)
qed

lemma hex_chars_inject: "d < 16 \<Longrightarrow> e < 16 \<Longrightarrow> hex_chars ! d = hex_chars ! e \<longleftrightarrow> d = e"
  using hex_chars_mono [of d e] hex_chars_mono [of e d] by (auto simp: neq_iff)

lemma unat_uuid: "unat (u :: uuid) < 2 ^ 128"
  using unsigned_less [where w = u and 'a = nat] by simp

lemma length_hex_Encode [simp]: "length (hex_Encode k n) = k"
  by (induction k arbitrary: n) auto

lemma hex_Encode_chars: "c \<in> set (hex_Encode k n) \<Longrightarrow> \<exists>d<16. c = hex_chars ! d"
  by (induction k arbitrary: n) (auto intro: exI [of _ "n mod 16" for n])

lemma hex_Decode_append:
  "hex_Decode (xs @ ys) acc = (case hex_Decode xs acc of None \<Rightarrow> None | Some a \<Rightarrow> hex_Decode ys a)"
  by (induction xs arbitrary: acc) (auto split: option.splits)

lemma hex_Decode_Encode: "hex_Decode (hex_Encode k n) acc = Some (acc * 16 ^ k + n mod 16 ^ k)"
proof (induction k arbitrary: n)
  case (Suc k)
  have "16 * (n div 16 mod 16 ^ k) + n mod 16 = n mod (16 * 16 ^ k)"
    by (simp add: mod_mult2_eq)
  then show ?case by (simp add: hex_Decode_append Suc.IH algebra_simps)
qed simp

lemma hex_Encode_add: "hex_Encode (j + k) n = hex_Encode j (n div 16 ^ k) @ hex_Encode k n"
proof (induction k arbitrary: n)
  case (Suc k)
  show ?case by (simp add: Suc.IH div_mult2_eq)
qed simp

lemma hex_Encode_hyphens [simp]: "filter (\<lambda>c. c \<noteq> CHR ''-'') (hex_Encode k n) = hex_Encode k n"
  by (auto simp: filter_id_conv hex_char_not_hyphen dest!: hex_Encode_chars)

lemma hex_Encode_32:
  "hex_Encode 32 n = hex_Encode 8 (n div 16 ^ 24) @ hex_Encode 4 (n div 16 ^ 20) @
     hex_Encode 4 (n div 16 ^ 16) @ hex_Encode 4 (n div 16 ^ 12) @ hex_Encode 12 n"
  using hex_Encode_add [of 8 24 n] hex_Encode_add [of 4 20 n] hex_Encode_add [of 4 16 n]
    hex_Encode_add [of 4 12 n]
  by (simp del: hex_Encode.simps)

lemma compact_String: "filter (\<lambda>c. c \<noteq> CHR ''-'') (uuid_String u) = hex_Encode 32 (unat u)"
  by (simp add: uuid_String_def Let_def hex_Encode_32)

lemma graphic_hex: "d < 16 \<Longrightarrow> graphic (hex_chars ! d)"
  by (drule less_16_cases) (auto simp: graphic_def hex_chars_def)

lemma hex_Encode_ends:
  "0 < k \<Longrightarrow> graphic (hd (hex_Encode k n)) \<and> graphic (last (hex_Encode k n))"
proof -
  assume "0 < k"
  then have "hex_Encode k n \<noteq> []" by (metis length_hex_Encode length_greater_0_conv)
  then show ?thesis using hex_Encode_chars graphic_hex by (metis hd_in_set last_in_set)
qed

lemma hex_Encode_Nil [simp]: "hex_Encode k n = [] \<longleftrightarrow> k = 0"
  by (metis length_hex_Encode length_0_conv)

lemma TrimSpace_uuid_String [simp]: "TrimSpace (uuid_String u) = uuid_String u"
  using hex_Encode_ends [of 8 "unat u div 16 ^ 24"] hex_Encode_ends [of 12 "unat u"]
  by (intro TrimSpace_graphic) (simp_all add: uuid_String_def Let_def del: hex_Encode.simps)

lemma uuid_Parse_String [simp]: "uuid_Parse (uuid_String u) = Ok u"
proof -
  have "unat u mod 16 ^ 32 = unat u" using unat_uuid [of u] by simp
  then show ?thesis
    by (simp add: uuid_Parse_def compact_String hex_Decode_Encode del: hex_Encode.simps)
qed

lemma uuid_String_inject [simp]: "uuid_String u = uuid_String v \<longleftrightarrow> u = v"
  by (metis sum.inject(2) uuid_Parse_String)

section \<open>The order of the text forms\<close>

lemma append_less_same_length:
  fixes xs ys :: "'a::linorder list"
  assumes "length xs = length ys"
  shows "xs @ us < ys @ vs \<longleftrightarrow> xs < ys \<or> xs = ys \<and> us < vs"
  using assms by (induction xs ys rule: list_induct2) auto

lemma hex_Encode_less:
  "(hex_Encode k m < hex_Encode k n \<longleftrightarrow> m mod 16 ^ k < n mod 16 ^ k) \<and>
   (hex_Encode k m = hex_Encode k n \<longleftrightarrow> m mod 16 ^ k = n mod 16 ^ k)"
proof (induction k arbitrary: m n)
  case (Suc k)
  have split: "x mod (16 * 16 ^ k) = 16 * (x div 16 mod 16 ^ k) + x mod 16" for x :: nat
    by (simp add: mod_mult2_eq)
  have dm: "(16 * a + b < 16 * c + d \<longleftrightarrow> a < c \<or> a = c \<and> b < d) \<and>
            (16 * a + b = 16 * c + d \<longleftrightarrow> a = c \<and> b = d)"
    if "b < 16" "d < 16" for a b c d :: nat
    using that by (cases a c rule: linorder_cases) auto
  show ?case
    by (simp add: append_less_same_length Suc.IH hex_chars_mono hex_chars_inject split dm)
qed simp

lemma uuid_String_less: "uuid_String u < uuid_String v \<longleftrightarrow> u < v"
proof -
  have mod: "unat u mod 16 ^ 32 = unat u" "unat v mod 16 ^ 32 = unat v"
    using unat_uuid [of u] unat_uuid [of v] by simp_all
  have "uuid_String u < uuid_String v \<longleftrightarrow> hex_Encode 32 (unat u) < hex_Encode 32 (unat v)"
    unfolding uuid_String_def Let_def hex_Encode_32
    by (simp add: append_less_same_length del: hex_Encode.simps)
  then show ?thesis
    by (simp only: hex_Encode_less mod word_less_nat_alt)
qed

lemma New_not_Nil: "New r \<noteq> Nil_uuid"
proof
  assume "New r = Nil_uuid"
  then have "bit (New r) 63 = bit (0 :: uuid) 63" by simp
  then show False
    by (simp add: New_def Let_def bit_simps)
qed

end
