(* ===== verification/Evaluation_Types.thy ===== *)
theory Evaluation_Types
  imports Uuid
begin

text \<open>
  The data of the evaluation package: its errors, state and result enumerations
  (\<open>src/evaluation/types.go\<close>), rule outcomes, bindings, checkpoints and history entries, the
  domain events with their metadata (\<open>event_metadata.go\<close>), and the aggregate record
  (\<open>aggregate.go\<close>). A Go string type with declared constants is a datatype whose last
  constructor stands for every other string, so that validity checks and default branches
  keep their meaning.
\<close>

section \<open>Errors\<close>

text \<open>\<open>Errorf e s\<close> is \<open>fmt.Errorf("%w: %s", e, s)\<close>; \<open>ErrorfVersion\<close> is its \<open>%d\<close> form.\<close>

datatype evaluation_error =
    ErrInvalidStateTransition
  | ErrReasonCodeRequired
  | ErrCancellationReasonRequired
  | ErrInvalidExpirationTime
  | ErrEvaluationIDRequired
  | ErrSessionIDRequired
  | ErrInvalidEvaluationSnapshot
  | ErrInvalidStartTime
  | ErrInvalidCompletionTime
  | ErrInvalidCompletionResult
  | ErrRuleIDRequired
  | ErrRuleOutcomeAlreadyRecorded
  | ErrInvalidRuleOutcome
  | ErrRequiredRulesIncomplete
  | ErrInvalidReasonCode
  | ErrRuleOutcomeConflict
  | ErrInvalidRuleOutcomeTimestamp
  | ErrRuleOutcomeTimestampRequired
  | ErrUnknownRule
  | ErrRuleOutcomeNotFound
  | ErrStaleRuleOutcomeReplacement
  | ErrRuleOutcomeRemovalTimeRequired
  | ErrRuleOutcomeResetTimeRequired
  | ErrEvaluationVersionConflict
  | ErrEvidenceBindingRequired
  | ErrEvidenceSessionMismatch
  | ErrEvidenceAlreadyBound
  | ErrEvidenceBoundAfterRules
  | ErrPolicyBindingRequired
  | ErrPolicyAlreadyBound
  | ErrPolicyBoundAfterRules
  | ErrCheckpointNotFound
  | ErrCheckpointAlreadyExists
  | ErrEvaluationHistoryEntryNotFound
  | ErrEvaluationHistoryVersionExists
  | ErrInvalidEvaluationHistoryEntry
  | ErrHistoryCaptureTimeRequired
  | ErrMutationFunctionRequired
  | ErrSnapshotVersionRequired
  | Errorf evaluation_error string
  | ErrorfVersion evaluation_error u64

text \<open>\<open>errors.Is\<close> follows the wrapping.\<close>

fun errors_Is :: "evaluation_error \<Rightarrow> evaluation_error \<Rightarrow> bool" where
  "errors_Is (Errorf e s) t = (Errorf e s = t \<or> errors_Is e t)"
| "errors_Is (ErrorfVersion e v) t = (ErrorfVersion e v = t \<or> errors_Is e t)"
| "errors_Is e t = (e = t)"

section \<open>Enumerations\<close>

datatype EvaluationState =
  StateCreated | StateRunning | StateCompleted | StateCancelled | StateExpired | StateOther string

definition CanTransitionTo :: "EvaluationState \<Rightarrow> EvaluationState \<Rightarrow> bool" where
  "CanTransitionTo s target = (case s of
      StateCreated \<Rightarrow> target = StateRunning \<or> target = StateCancelled \<or> target = StateExpired
    | StateRunning \<Rightarrow> target = StateCompleted \<or> target = StateCancelled \<or> target = StateExpired
    | _ \<Rightarrow> False)"

definition state_IsTerminal :: "EvaluationState \<Rightarrow> bool" where
  "state_IsTerminal s \<longleftrightarrow> s = StateCompleted \<or> s = StateCancelled \<or> s = StateExpired"

datatype VerificationResult =
  ResultUnknown | ResultVerified | ResultVerifiedWithException | ResultRejected
  | ResultManualReview | ResultSystemException | ResultOther string

definition result_IsValid :: "VerificationResult \<Rightarrow> bool" where
  "result_IsValid r = (case r of ResultOther _ \<Rightarrow> False | _ \<Rightarrow> True)"

datatype RuleOutcomeStatus =
  RuleOutcomePass | RuleOutcomeWarning | RuleOutcomeFail | RuleOutcomeInconclusive
  | RuleOutcomeOther string

definition outcome_IsValid :: "RuleOutcomeStatus \<Rightarrow> bool" where
  "outcome_IsValid s \<longleftrightarrow> s = RuleOutcomePass \<or> s = RuleOutcomeWarning \<or> s = RuleOutcomeFail \<or>
     s = RuleOutcomeInconclusive"

type_synonym ReasonCode = string

definition ReasonCodeEvaluationTimeout :: ReasonCode where
  "ReasonCodeEvaluationTimeout = ''EVALUATION_TIMEOUT''"

definition reasonCodePattern :: "string \<Rightarrow> bool" where
  "reasonCodePattern = code_pattern 1 63"

definition NewReasonCode :: "string \<Rightarrow> evaluation_error + ReasonCode" where
  "NewReasonCode value =
     (let v = ToUpper (TrimSpace value)
      in if \<not> reasonCodePattern v then Err ErrInvalidReasonCode else Ok v)"

datatype EvidenceQualificationStatus =
  EvidenceQualified | EvidenceRejected | EvidenceUnavailable | EvidenceOther string

definition evidence_IsValid :: "EvidenceQualificationStatus \<Rightarrow> bool" where
  "evidence_IsValid s \<longleftrightarrow> s = EvidenceQualified \<or> s = EvidenceRejected \<or> s = EvidenceUnavailable"

section \<open>Records\<close>

record RuleOutcome =
  RuleID :: string
  Status :: RuleOutcomeStatus
  ReasonCodes :: "ReasonCode list"
  EvaluatedAt :: time

record EvidenceReference =
  ref_EvidenceID :: uuid
  ref_Status :: EvidenceQualificationStatus
  ref_Reasons :: "string list"

record EvidenceSetBinding =
  eb_SessionID :: uuid
  eb_Status :: EvidenceQualificationStatus
  eb_PolicyVersion :: string
  eb_QualifiedAt :: time
  eb_Reasons :: "string list"
  eb_Evidence :: "EvidenceReference list"

record PolicyBinding =
  pb_PolicyID :: string
  pb_Version :: string
  pb_Hash :: string
  pb_BoundAt :: time

record EvaluationCheckpoint =
  cp_Name :: string
  cp_RuleOutcomes :: "RuleOutcome list"
  cp_Version :: u64
  cp_CreatedAt :: time

record EvaluationHistoryEntry =
  h_EvaluationID :: uuid
  h_SessionID :: uuid
  h_Version :: u64
  h_State :: EvaluationState
  h_Result :: VerificationResult
  h_ReasonCodes :: "ReasonCode list"
  h_RequiredRuleIDs :: "string list"
  h_RuleOutcomes :: "RuleOutcome list"
  h_RecordedAt :: time

section \<open>Domain events\<close>

text \<open>One constructor per event struct, its arguments in the order of the struct's fields.\<close>

datatype DomainEvent =
    EvaluationCreatedEvent uuid uuid time u64
  | EvaluationStartedEvent uuid uuid time u64
  | EvaluationCompletedEvent uuid uuid VerificationResult time u64
  | EvaluationRejectedEvent uuid uuid "ReasonCode list" time u64
  | EvaluationManualReviewRequiredEvent uuid uuid "ReasonCode list" time u64
  | EvaluationSystemExceptionEvent uuid uuid "ReasonCode list" time u64
  | EvaluationCancelledEvent uuid uuid string time u64
  | EvaluationExpiredEvent uuid uuid "ReasonCode list" time u64
  | RuleOutcomeRecordedEvent uuid uuid string RuleOutcomeStatus "ReasonCode list" time u64
  | RequiredRuleRegisteredEvent uuid uuid string time u64
  | EvidenceSetBoundEvent uuid uuid EvidenceSetBinding u64
  | VerificationPolicyBoundEvent uuid uuid PolicyBinding u64
  | RuleOutcomeBatchRecordedEvent uuid uuid "RuleOutcome list" time u64
  | RuleOutcomeReplacedEvent uuid uuid RuleOutcome RuleOutcome time u64
  | RuleOutcomeBatchReplacedEvent uuid uuid "RuleOutcome list" "RuleOutcome list" time u64
  | RuleOutcomeRemovedEvent uuid uuid RuleOutcome time u64
  | RuleOutcomeBatchRemovedEvent uuid uuid "RuleOutcome list" time u64
  | RuleOutcomesResetEvent uuid uuid "RuleOutcome list" time u64
  | EvaluationCheckpointCreatedEvent uuid uuid string time u64
  | EvaluationRolledBackEvent uuid uuid string time u64
  | EvaluationHistoryRecordedEvent uuid uuid u64 time

record EventMetadata =
  md_EventType :: string
  md_EvaluationID :: uuid
  md_SessionID :: uuid
  md_Version :: u64
  md_OccurredAt :: time

definition metadata :: "string \<Rightarrow> uuid \<Rightarrow> uuid \<Rightarrow> u64 \<Rightarrow> time \<Rightarrow> EventMetadata" where
  "metadata ty ev ses v at = \<lparr>md_EventType = ty, md_EvaluationID = ev, md_SessionID = ses,
     md_Version = v, md_OccurredAt = at\<rparr>"

primrec Metadata :: "DomainEvent \<Rightarrow> EventMetadata" where
  "Metadata (EvaluationCreatedEvent i s at v) = metadata ''EvaluationCreatedEvent'' i s v at"
| "Metadata (EvaluationStartedEvent i s at v) = metadata ''EvaluationStartedEvent'' i s v at"
| "Metadata (EvaluationCompletedEvent i s r at v) = metadata ''EvaluationCompletedEvent'' i s v at"
| "Metadata (EvaluationRejectedEvent i s rs at v) = metadata ''EvaluationRejectedEvent'' i s v at"
| "Metadata (EvaluationManualReviewRequiredEvent i s rs at v) =
     metadata ''EvaluationManualReviewRequiredEvent'' i s v at"
| "Metadata (EvaluationSystemExceptionEvent i s rs at v) =
     metadata ''EvaluationSystemExceptionEvent'' i s v at"
| "Metadata (EvaluationCancelledEvent i s r at v) = metadata ''EvaluationCancelledEvent'' i s v at"
| "Metadata (EvaluationExpiredEvent i s rs at v) = metadata ''EvaluationExpiredEvent'' i s v at"
| "Metadata (RuleOutcomeRecordedEvent i s r st rs at v) =
     metadata ''RuleOutcomeRecordedEvent'' i s v at"
| "Metadata (RequiredRuleRegisteredEvent i s r at v) =
     metadata ''RequiredRuleRegisteredEvent'' i s v at"
| "Metadata (EvidenceSetBoundEvent i s b v) =
     metadata ''EvidenceSetBoundEvent'' i s v (eb_QualifiedAt b)"
| "Metadata (VerificationPolicyBoundEvent i s b v) =
     metadata ''VerificationPolicyBoundEvent'' i s v (pb_BoundAt b)"
| "Metadata (RuleOutcomeBatchRecordedEvent i s os at v) =
     metadata ''RuleOutcomeBatchRecordedEvent'' i s v at"
| "Metadata (RuleOutcomeReplacedEvent i s p r at v) =
     metadata ''RuleOutcomeReplacedEvent'' i s v at"
| "Metadata (RuleOutcomeBatchReplacedEvent i s ps rs at v) =
     metadata ''RuleOutcomeBatchReplacedEvent'' i s v at"
| "Metadata (RuleOutcomeRemovedEvent i s r at v) = metadata ''RuleOutcomeRemovedEvent'' i s v at"
| "Metadata (RuleOutcomeBatchRemovedEvent i s os at v) =
     metadata ''RuleOutcomeBatchRemovedEvent'' i s v at"
| "Metadata (RuleOutcomesResetEvent i s os at v) = metadata ''RuleOutcomesResetEvent'' i s v at"
| "Metadata (EvaluationCheckpointCreatedEvent i s n at v) =
     metadata ''EvaluationCheckpointCreatedEvent'' i s v at"
| "Metadata (EvaluationRolledBackEvent i s n at v) =
     metadata ''EvaluationRolledBackEvent'' i s v at"
| "Metadata (EvaluationHistoryRecordedEvent i s v at) =
     metadata ''EvaluationHistoryRecordedEvent'' i s v at"

section \<open>The aggregate\<close>

text \<open>
  Pointers to times and bindings are options. The checkpoint map is an association list with
  distinct keys; the code reads it by key or in the order of the sorted names.
\<close>

record EvaluationAggregate =
  agg_id :: uuid
  agg_sessionID :: uuid
  state :: EvaluationState
  result :: VerificationResult
  reasonCodes :: "ReasonCode list"
  createdAt :: time
  startedAt :: "time option"
  completedAt :: "time option"
  cancelledAt :: "time option"
  expiredAt :: "time option"
  cancellationReason :: string
  version :: u64
  domainEvents :: "DomainEvent list"
  ruleOutcomes :: "RuleOutcome list"
  requiredRuleIDs :: "string list"
  checkpoints :: "(string \<times> EvaluationCheckpoint) list"
  history :: "EvaluationHistoryEntry list"
  evidenceBinding :: "EvidenceSetBinding option"
  policyBinding :: "PolicyBinding option"

definition addDomainEvent :: "DomainEvent \<Rightarrow> EvaluationAggregate \<Rightarrow> EvaluationAggregate" where
  "addDomainEvent v e = e\<lparr>domainEvents := domainEvents e @ [v]\<rparr>"

definition ClearDomainEvents :: "EvaluationAggregate \<Rightarrow> EvaluationAggregate" where
  "ClearDomainEvents e = e\<lparr>domainEvents := []\<rparr>"

section \<open>Facts\<close>

lemma metadata_simps [simp]:
  "md_EventType (metadata ty i s v at) = ty" "md_EvaluationID (metadata ty i s v at) = i"
  "md_SessionID (metadata ty i s v at) = s" "md_Version (metadata ty i s v at) = v"
  "md_OccurredAt (metadata ty i s v at) = at"
  by (simp_all add: metadata_def)

lemma CanTransitionTo_not_terminal: "CanTransitionTo s t \<Longrightarrow> \<not> state_IsTerminal s"
  by (auto simp: CanTransitionTo_def state_IsTerminal_def split: EvaluationState.splits)

lemma CanTransitionTo_Running [simp]: "CanTransitionTo s StateRunning \<longleftrightarrow> s = StateCreated"
  by (auto simp: CanTransitionTo_def split: EvaluationState.splits)

lemma CanTransitionTo_Completed [simp]: "CanTransitionTo s StateCompleted \<longleftrightarrow> s = StateRunning"
  by (auto simp: CanTransitionTo_def split: EvaluationState.splits)

lemma state_IsTerminal_simps [simp]:
  "\<not> state_IsTerminal StateCreated" "\<not> state_IsTerminal StateRunning"
  "state_IsTerminal StateCompleted" "state_IsTerminal StateCancelled"
  "state_IsTerminal StateExpired"
  by (simp_all add: state_IsTerminal_def)

lemma result_IsValid_simps [simp]:
  "result_IsValid ResultUnknown" "result_IsValid ResultVerified"
  "result_IsValid ResultVerifiedWithException" "result_IsValid ResultRejected"
  "result_IsValid ResultManualReview" "result_IsValid ResultSystemException"
  "\<not> result_IsValid (ResultOther s)"
  by (simp_all add: result_IsValid_def)

text \<open>A reason code is a fixed point of \<open>NewReasonCode\<close>.\<close>

lemma reasonCodePattern_fixed: "reasonCodePattern v \<Longrightarrow> NewReasonCode v = Ok v"
  using code_pattern_chars [of 1 63 v]
  by (simp add: reasonCodePattern_def NewReasonCode_def TrimSpace_code ToUpper_code Let_def)

lemma NewReasonCode_pattern: "NewReasonCode v = Ok c \<Longrightarrow> reasonCodePattern c"
  by (auto simp: NewReasonCode_def Let_def split: if_splits)

lemma NewReasonCode_idem: "NewReasonCode v = Ok c \<Longrightarrow> NewReasonCode c = Ok c"
  by (rule reasonCodePattern_fixed [OF NewReasonCode_pattern])

end
