(* ===== verification/Evaluation_Rules.thy ===== *)
theory Evaluation_Rules
  imports Evaluation_Types
begin

text \<open>
  The reading side of rule outcomes: normalisation of reason codes and outcomes, lookup by
  rule ID, required rules and the derivation of a result (\<open>src/evaluation/aggregate.go\<close>,
  \<open>rules.go\<close>, \<open>rules_advanced.go\<close>). The lemmas show that normalisation is idempotent, that a
  normalised outcome is determined by the comparison the code uses, and that the derived
  result depends on the statuses only, by fixed precedence.

  Go copies slices and outcomes before it hands them out; values of the model are immutable,
  so the \<open>copy...\<close> helpers are the identity here and are not written.
\<close>

section \<open>Definitions\<close>

fun normalizeReasonCodes_loop ::
  "ReasonCode list \<Rightarrow> ReasonCode list \<Rightarrow> evaluation_error + ReasonCode list" where
  "normalizeReasonCodes_loop [] out = Ok out"
| "normalizeReasonCodes_loop (r # v) out =
     (case NewReasonCode r of
        Inl err \<Rightarrow> Err err
      | Inr c \<Rightarrow> if c \<in> set out then normalizeReasonCodes_loop v out
                 else normalizeReasonCodes_loop v (out @ [c]))"

definition normalizeReasonCodes :: "ReasonCode list \<Rightarrow> evaluation_error + ReasonCode list" where
  "normalizeReasonCodes v = normalizeReasonCodes_loop v []"

definition normalizeRuleOutcome :: "RuleOutcome \<Rightarrow> evaluation_error + RuleOutcome" where
  "normalizeRuleOutcome o1 =
     (let o1 = o1\<lparr>RuleID := TrimSpace (RuleID o1)\<rparr> in
      if RuleID o1 = [] then Err ErrRuleIDRequired
      else if \<not> outcome_IsValid (Status o1) \<or> IsZero (EvaluatedAt o1) then Err ErrInvalidRuleOutcome
      else case normalizeReasonCodes (ReasonCodes o1) of
             Inl err \<Rightarrow> Err err
           | Inr reasons \<Rightarrow>
               if Status o1 = RuleOutcomePass \<and> reasons \<noteq> [] then Err ErrInvalidRuleOutcome
               else if Status o1 \<noteq> RuleOutcomePass \<and> reasons = [] then Err ErrInvalidRuleOutcome
               else Ok (o1\<lparr>ReasonCodes := reasons, EvaluatedAt := UTC (EvaluatedAt o1)\<rparr>))"

definition ruleOutcomesEqual :: "RuleOutcome \<Rightarrow> RuleOutcome \<Rightarrow> bool" where
  "ruleOutcomesEqual left right \<longleftrightarrow>
     RuleID left = RuleID right \<and> Status left = Status right \<and>
     time_Equal (EvaluatedAt left) (EvaluatedAt right) \<and> ReasonCodes left = ReasonCodes right"

definition IsRuleRequired :: "EvaluationAggregate \<Rightarrow> string \<Rightarrow> bool" where
  "IsRuleRequired e ruleID \<longleftrightarrow> TrimSpace ruleID \<in> set (requiredRuleIDs e)"

text \<open>The index \<open>-1\<close> of an absent outcome is \<open>None\<close>.\<close>

fun ruleOutcomeIndex :: "RuleOutcome list \<Rightarrow> string \<Rightarrow> nat option" where
  "ruleOutcomeIndex [] ruleID = None"
| "ruleOutcomeIndex (o1 # os) ruleID =
     (if RuleID o1 = ruleID then Some 0 else map_option Suc (ruleOutcomeIndex os ruleID))"

definition RuleOutcomeByID :: "EvaluationAggregate \<Rightarrow> string \<Rightarrow> RuleOutcome option" where
  "RuleOutcomeByID e ruleID =
     (case ruleOutcomeIndex (ruleOutcomes e) (TrimSpace ruleID) of
        None \<Rightarrow> None | Some idx \<Rightarrow> Some (ruleOutcomes e ! idx))"

definition HasRecordedRule :: "EvaluationAggregate \<Rightarrow> string \<Rightarrow> bool" where
  "HasRecordedRule e ruleID \<longleftrightarrow> ruleOutcomeIndex (ruleOutcomes e) (TrimSpace ruleID) \<noteq> None"

definition MissingRequiredRuleIDs :: "EvaluationAggregate \<Rightarrow> string list" where
  "MissingRequiredRuleIDs e =
     (let seen = set (map RuleID (ruleOutcomes e))
      in filter (\<lambda>rid. rid \<notin> seen) (requiredRuleIDs e))"

definition RequiredRulesComplete :: "EvaluationAggregate \<Rightarrow> bool" where
  "RequiredRulesComplete e \<longleftrightarrow> MissingRequiredRuleIDs e = []"

fun DeriveResult_loop ::
  "RuleOutcome list \<Rightarrow> VerificationResult \<Rightarrow> ReasonCode list \<Rightarrow> VerificationResult \<times> ReasonCode list"
where
  "DeriveResult_loop [] res reasons = (res, reasons)"
| "DeriveResult_loop (o1 # os) res reasons =
     (case Status o1 of
        RuleOutcomeFail \<Rightarrow> DeriveResult_loop os ResultRejected (reasons @ ReasonCodes o1)
      | RuleOutcomeInconclusive \<Rightarrow>
          DeriveResult_loop os (if res \<noteq> ResultRejected then ResultManualReview else res)
            (reasons @ ReasonCodes o1)
      | RuleOutcomeWarning \<Rightarrow>
          DeriveResult_loop os (if res = ResultVerified then ResultVerifiedWithException else res)
            (reasons @ ReasonCodes o1)
      | _ \<Rightarrow> DeriveResult_loop os res reasons)"

definition DeriveResult ::
  "EvaluationAggregate \<Rightarrow> VerificationResult \<times> ReasonCode list \<times> evaluation_error option" where
  "DeriveResult e =
     (if \<not> RequiredRulesComplete e then (ResultUnknown, [], Some ErrRequiredRulesIncomplete)
      else if ruleOutcomes e = [] then (ResultUnknown, [], Some ErrInvalidRuleOutcome)
      else let (res, reasons) = DeriveResult_loop (ruleOutcomes e) ResultVerified []
           in case normalizeReasonCodes reasons of
                Inl err \<Rightarrow> (res, [], Some err)
              | Inr nr \<Rightarrow> (res, nr, None))"

section \<open>Reason codes\<close>

text \<open>Normalised reason codes: in the pattern and without repetition.\<close>

definition normal_codes :: "ReasonCode list \<Rightarrow> bool" where
  "normal_codes rs \<longleftrightarrow> list_all reasonCodePattern rs \<and> distinct rs"

lemma normal_codes_Nil [simp]: "normal_codes []"
  by (simp add: normal_codes_def)

lemma normalizeReasonCodes_loop_normal:
  "normalizeReasonCodes_loop v out = Ok rs \<Longrightarrow> normal_codes out \<Longrightarrow> normal_codes rs"
  by (induction v out rule: normalizeReasonCodes_loop.induct)
    (auto simp: normal_codes_def dest: NewReasonCode_pattern split: sum.splits if_splits)

lemma normalizeReasonCodes_normal: "normalizeReasonCodes v = Ok rs \<Longrightarrow> normal_codes rs"
  unfolding normalizeReasonCodes_def by (erule normalizeReasonCodes_loop_normal) simp

lemma normalizeReasonCodes_loop_fixed:
  "list_all reasonCodePattern v \<Longrightarrow> distinct (out @ v) \<Longrightarrow>
   normalizeReasonCodes_loop v out = Ok (out @ v)"
  by (induction v arbitrary: out) (auto simp: reasonCodePattern_fixed)

lemma normalizeReasonCodes_fixed: "normal_codes v \<Longrightarrow> normalizeReasonCodes v = Ok v"
  by (simp add: normalizeReasonCodes_def normal_codes_def normalizeReasonCodes_loop_fixed)

lemma normalizeReasonCodes_loop_patterns:
  "list_all reasonCodePattern v \<Longrightarrow>
   \<exists>rs. normalizeReasonCodes_loop v out = Ok rs \<and> set rs = set out \<union> set v"
  by (induction v arbitrary: out) (fastforce simp: reasonCodePattern_fixed)+

lemma normalizeReasonCodes_patterns:
  assumes "list_all reasonCodePattern v"
  obtains rs where "normalizeReasonCodes v = Ok rs" "set rs = set v"
  using normalizeReasonCodes_loop_patterns [OF assms, of "[]"]
  by (auto simp: normalizeReasonCodes_def)

section \<open>Outcomes\<close>

text \<open>A normalised outcome is a fixed point of normalisation.\<close>

definition normal_outcome :: "RuleOutcome \<Rightarrow> bool" where
  "normal_outcome o1 \<longleftrightarrow> RuleID o1 \<noteq> [] \<and> TrimSpace (RuleID o1) = RuleID o1 \<and>
     outcome_IsValid (Status o1) \<and> \<not> IsZero (EvaluatedAt o1) \<and> location (EvaluatedAt o1) = 0 \<and>
     normal_codes (ReasonCodes o1) \<and> (Status o1 = RuleOutcomePass \<longleftrightarrow> ReasonCodes o1 = [])"

lemma normalizeRuleOutcome_normal: "normalizeRuleOutcome o1 = Ok n \<Longrightarrow> normal_outcome n"
  by (auto simp: normalizeRuleOutcome_def normal_outcome_def Let_def
      dest: normalizeReasonCodes_normal split: if_splits sum.splits)

lemma normalizeRuleOutcome_fixed: "normal_outcome o1 \<Longrightarrow> normalizeRuleOutcome o1 = Ok o1"
  by (auto simp: normalizeRuleOutcome_def normal_outcome_def Let_def normalizeReasonCodes_fixed
      UTC_fixed)

lemma ruleOutcomesEqual_normal:
  "normal_outcome a \<Longrightarrow> normal_outcome b \<Longrightarrow> ruleOutcomesEqual a b \<longleftrightarrow> a = b"
  by (auto simp: ruleOutcomesEqual_def normal_outcome_def go_time time.expand
      intro!: RuleOutcome.equality)

lemma ruleOutcomesEqual_refl [simp]: "ruleOutcomesEqual o1 o1"
  by (simp add: ruleOutcomesEqual_def go_time)

section \<open>Lookup\<close>

lemma ruleOutcomeIndex_None:
  "ruleOutcomeIndex os rid = None \<longleftrightarrow> rid \<notin> RuleID ` set os"
  by (induction os) auto

lemma ruleOutcomeIndex_Some:
  "ruleOutcomeIndex os rid = Some i \<Longrightarrow> i < length os \<and> RuleID (os ! i) = rid"
  by (induction os arbitrary: i) (auto split: if_splits)

lemma ruleOutcomeIndex_nth:
  "distinct (map RuleID os) \<Longrightarrow> i < length os \<Longrightarrow> ruleOutcomeIndex os (RuleID (os ! i)) = Some i"
proof (induction os arbitrary: i)
  case (Cons a os)
  then show ?case by (cases i) (auto simp: image_iff)
qed simp

text \<open>The outcome stored for an ID, as a function of the list.\<close>

definition outcome_for :: "RuleOutcome list \<Rightarrow> string \<Rightarrow> RuleOutcome option" where
  "outcome_for os rid = find (\<lambda>o1. RuleID o1 = rid) os"

lemma outcome_for_index:
  "outcome_for os rid = (case ruleOutcomeIndex os rid of None \<Rightarrow> None | Some i \<Rightarrow> Some (os ! i))"
  by (induction os) (auto simp: outcome_for_def split: option.splits)

lemma RuleOutcomeByID_trimmed:
  "TrimSpace rid = rid \<Longrightarrow> RuleOutcomeByID e rid = outcome_for (ruleOutcomes e) rid"
  by (simp add: RuleOutcomeByID_def outcome_for_index)

lemma outcome_for_Nil [simp]: "outcome_for [] rid = None"
  by (simp add: outcome_for_def)

lemma outcome_for_Cons:
  "outcome_for (o1 # os) rid = (if RuleID o1 = rid then Some o1 else outcome_for os rid)"
  by (simp add: outcome_for_def)

lemma outcome_for_None: "outcome_for os rid = None \<longleftrightarrow> rid \<notin> RuleID ` set os"
  by (auto simp: outcome_for_def find_None_iff)

lemma outcome_for_SomeD: "outcome_for os rid = Some o1 \<Longrightarrow> o1 \<in> set os \<and> RuleID o1 = rid"
  by (auto simp: outcome_for_def find_Some_iff)

lemma outcome_for_Some_image: "outcome_for os rid = Some o1 \<Longrightarrow> rid \<in> RuleID ` set os"
  using outcome_for_None [of os rid] by simp

lemma outcome_for_append:
  "outcome_for (os @ ps) rid =
     (case outcome_for os rid of None \<Rightarrow> outcome_for ps rid | Some o1 \<Rightarrow> Some o1)"
  by (induction os) (auto simp: outcome_for_Cons split: option.splits)

lemma outcome_for_in_set:
  "distinct (map RuleID os) \<Longrightarrow> o1 \<in> set os \<Longrightarrow> outcome_for os (RuleID o1) = Some o1"
  by (simp add: outcome_for_def find_map_key)

lemma HasRecordedRule_iff:
  "TrimSpace rid = rid \<Longrightarrow> HasRecordedRule e rid \<longleftrightarrow> rid \<in> RuleID ` set (ruleOutcomes e)"
  by (simp add: HasRecordedRule_def ruleOutcomeIndex_None)

lemma RequiredRulesComplete_iff:
  "RequiredRulesComplete e \<longleftrightarrow> set (requiredRuleIDs e) \<subseteq> RuleID ` set (ruleOutcomes e)"
  by (auto simp: RequiredRulesComplete_def MissingRequiredRuleIDs_def filter_empty_conv)

section \<open>Derivation of the result\<close>

definition has_status :: "RuleOutcomeStatus \<Rightarrow> RuleOutcome list \<Rightarrow> bool" where
  "has_status s os \<longleftrightarrow> s \<in> Status ` set os"

text \<open>The abstract decision: a failure decides, then an inconclusive rule, then a warning.\<close>

definition decision :: "RuleOutcome list \<Rightarrow> VerificationResult" where
  "decision os =
     (if has_status RuleOutcomeFail os then ResultRejected
      else if has_status RuleOutcomeInconclusive os then ResultManualReview
      else if has_status RuleOutcomeWarning os then ResultVerifiedWithException
      else ResultVerified)"

definition decisive :: "RuleOutcome \<Rightarrow> bool" where
  "decisive o1 \<longleftrightarrow> Status o1 \<in> {RuleOutcomeFail, RuleOutcomeInconclusive, RuleOutcomeWarning}"

definition decision_reasons :: "RuleOutcome list \<Rightarrow> ReasonCode list" where
  "decision_reasons os = concat (map ReasonCodes (filter decisive os))"

lemma has_status_simps [simp]:
  "\<not> has_status s []" "has_status s (o1 # os) \<longleftrightarrow> Status o1 = s \<or> has_status s os"
  by (auto simp: has_status_def)

lemma DeriveResult_loop_reasons:
  "snd (DeriveResult_loop os res reasons) = reasons @ decision_reasons os"
  by (induction os res reasons rule: DeriveResult_loop.induct)
    (auto simp: decision_reasons_def decisive_def split: RuleOutcomeStatus.splits)

lemma DeriveResult_loop_result:
  "res \<in> {ResultVerified, ResultVerifiedWithException, ResultManualReview, ResultRejected} \<Longrightarrow>
   fst (DeriveResult_loop os res reasons) =
     (if res = ResultRejected \<or> has_status RuleOutcomeFail os then ResultRejected
      else if res = ResultManualReview \<or> has_status RuleOutcomeInconclusive os then ResultManualReview
      else if res = ResultVerifiedWithException \<or> has_status RuleOutcomeWarning os
      then ResultVerifiedWithException else ResultVerified)"
  by (induction os res reasons rule: DeriveResult_loop.induct)
    (auto split: RuleOutcomeStatus.splits)

lemma DeriveResult_loop_decision:
  "DeriveResult_loop os ResultVerified [] = (decision os, decision_reasons os)"
  by (rule prod_eqI) (simp_all add: DeriveResult_loop_result DeriveResult_loop_reasons decision_def)

lemma normal_decision_reasons:
  "list_all normal_outcome os \<Longrightarrow> list_all reasonCodePattern (decision_reasons os)"
  by (auto simp: decision_reasons_def list_all_iff normal_outcome_def normal_codes_def)

lemma decision_Verified_iff: "decision os = ResultVerified \<longleftrightarrow> (\<forall>o1\<in>set os. \<not> decisive o1)"
  by (force simp: decision_def decisive_def has_status_def)

lemma decision_Verified_no_reasons:
  "decision os = ResultVerified \<Longrightarrow> decision_reasons os = []"
  by (simp add: decision_Verified_iff decision_reasons_def filter_empty_conv)

lemma normal_decisive_reasons: "normal_outcome o1 \<Longrightarrow> decisive o1 \<Longrightarrow> ReasonCodes o1 \<noteq> []"
  by (auto simp: normal_outcome_def decisive_def)

lemma decision_reasons_nonempty:
  "list_all normal_outcome os \<Longrightarrow> decision os \<noteq> ResultVerified \<Longrightarrow> decision_reasons os \<noteq> []"
  using normal_decisive_reasons
  by (fastforce simp: decision_Verified_iff decision_reasons_def list_all_iff)

end
