(* ===== verification/Evaluation_Aggregate.thy ===== *)
theory Evaluation_Aggregate
  imports Evaluation_Rules
begin

text \<open>
  The lifecycle commands of the aggregate (\<open>src/evaluation/aggregate.go\<close>): creation, start,
  completion, cancellation and expiry, and the registration of required rules
  (\<open>rules.go\<close>). Each command returns the aggregate it leaves and its error. Where the code
  reads the clock or draws a random UUID, the reading is an argument.
\<close>

type_synonym mutation = "EvaluationAggregate \<Rightarrow> EvaluationAggregate \<times> evaluation_error option"

definition NewEvaluation :: "uuid \<Rightarrow> uuid \<Rightarrow> time \<Rightarrow> evaluation_error + EvaluationAggregate" where
  "NewEvaluation id1 sessionID createdAt1 =
     (if id1 = Nil_uuid then Err ErrEvaluationIDRequired
      else if sessionID = Nil_uuid then Err ErrSessionIDRequired
      else if IsZero createdAt1 then Err ErrInvalidEvaluationSnapshot
      else let createdAt1 = UTC createdAt1;
               e = \<lparr>agg_id = id1, agg_sessionID = sessionID, state = StateCreated,
                    result = ResultUnknown, reasonCodes = [], createdAt = createdAt1,
                    startedAt = None, completedAt = None, cancelledAt = None, expiredAt = None,
                    cancellationReason = [], version = 1, domainEvents = [], ruleOutcomes = [],
                    requiredRuleIDs = [], checkpoints = [], history = [],
                    evidenceBinding = None, policyBinding = None\<rparr>
           in Ok (addDomainEvent (EvaluationCreatedEvent id1 sessionID createdAt1 1) e))"

definition NewEvaluationNow ::
  "uuid \<Rightarrow> time \<Rightarrow> uuid \<Rightarrow> evaluation_error + EvaluationAggregate" where
  "NewEvaluationNow random now sessionID = NewEvaluation (New random) sessionID (UTC now)"

definition Start :: "time \<Rightarrow> mutation" where
  "Start at e =
     (if \<not> CanTransitionTo (state e) StateRunning then (e, Some ErrInvalidStateTransition)
      else if IsZero at \<or> Before at (createdAt e) then (e, Some ErrInvalidStartTime)
      else let at = UTC at;
               e = e\<lparr>state := StateRunning, startedAt := Some at, version := version e + 1\<rparr>
           in (addDomainEvent (EvaluationStartedEvent (agg_id e) (agg_sessionID e) at (version e)) e,
               None))"

definition StartNow :: "time \<Rightarrow> mutation" where
  "StartNow now = Start (UTC now)"

definition completion_event ::
  "VerificationResult \<Rightarrow> ReasonCode list \<Rightarrow> time \<Rightarrow> EvaluationAggregate \<Rightarrow> DomainEvent" where
  "completion_event r nr at e = (case r of
      ResultRejected \<Rightarrow> EvaluationRejectedEvent (agg_id e) (agg_sessionID e) nr at (version e)
    | ResultManualReview \<Rightarrow>
        EvaluationManualReviewRequiredEvent (agg_id e) (agg_sessionID e) nr at (version e)
    | ResultSystemException \<Rightarrow>
        EvaluationSystemExceptionEvent (agg_id e) (agg_sessionID e) nr at (version e)
    | _ \<Rightarrow> EvaluationCompletedEvent (agg_id e) (agg_sessionID e) r at (version e))"

definition CompleteAt :: "VerificationResult \<Rightarrow> ReasonCode list \<Rightarrow> time \<Rightarrow> mutation" where
  "CompleteAt r reasons at e =
     (if \<not> CanTransitionTo (state e) StateCompleted then (e, Some ErrInvalidStateTransition)
      else if IsZero at \<or> startedAt e = None \<or> Before at (the (startedAt e))
      then (e, Some ErrInvalidCompletionTime)
      else if \<not> result_IsValid r \<or> r = ResultUnknown then (e, Some ErrInvalidCompletionResult)
      else if \<not> RequiredRulesComplete e then (e, Some ErrRequiredRulesIncomplete)
      else case normalizeReasonCodes reasons of
        Inl err \<Rightarrow> (e, Some err)
      | Inr nr \<Rightarrow>
          if (r = ResultRejected \<or> r = ResultManualReview \<or> r = ResultSystemException \<or>
              r = ResultVerifiedWithException) \<and> nr = [] then (e, Some ErrInvalidCompletionResult)
          else if (r = ResultVerified \<or> r = ResultVerifiedWithException) \<and> r = ResultVerified \<and> nr \<noteq> []
          then (e, Some ErrInvalidCompletionResult)
          else let at = UTC at;
                   e = e\<lparr>state := StateCompleted, result := r, reasonCodes := nr,
                         completedAt := Some at, version := version e + 1\<rparr>
               in (addDomainEvent (completion_event r nr at e) e, None))"

definition CompleteNow :: "VerificationResult \<Rightarrow> ReasonCode list \<Rightarrow> time \<Rightarrow> mutation" where
  "CompleteNow r reasons now = CompleteAt r reasons (UTC now)"

definition RequireManualReview :: "ReasonCode list \<Rightarrow> time \<Rightarrow> mutation" where
  "RequireManualReview reasons now = CompleteNow ResultManualReview reasons now"

definition MarkSystemException :: "ReasonCode list \<Rightarrow> time \<Rightarrow> mutation" where
  "MarkSystemException reasons now = CompleteNow ResultSystemException reasons now"

definition Cancel :: "string \<Rightarrow> time \<Rightarrow> mutation" where
  "Cancel reason now e =
     (if state_IsTerminal (state e) then (e, Some ErrInvalidStateTransition)
      else let reason = TrimSpace reason in
        if reason = [] then (e, Some ErrCancellationReasonRequired)
        else let now = UTC now;
                 e = e\<lparr>state := StateCancelled, cancelledAt := Some now,
                       cancellationReason := reason, version := version e + 1\<rparr>
             in (addDomainEvent
                   (EvaluationCancelledEvent (agg_id e) (agg_sessionID e) reason now (version e)) e,
                 None))"

definition Expire :: "time \<Rightarrow> mutation" where
  "Expire at e =
     (if state_IsTerminal (state e) then (e, Some ErrInvalidStateTransition)
      else if IsZero at then (e, Some ErrInvalidExpirationTime)
      else let at = UTC at in
        if Before at (createdAt e) then (e, Some ErrInvalidExpirationTime)
        else let e = e\<lparr>state := StateExpired, result := ResultSystemException,
                       reasonCodes := [ReasonCodeEvaluationTimeout], expiredAt := Some at,
                       version := version e + 1\<rparr>
             in (addDomainEvent
                   (EvaluationExpiredEvent (agg_id e) (agg_sessionID e) (reasonCodes e) at
                     (version e)) e,
                 None))"

definition RegisterRequiredRuleAt :: "string \<Rightarrow> time \<Rightarrow> mutation" where
  "RegisterRequiredRuleAt rid registeredAt e =
     (if state_IsTerminal (state e) then (e, Some ErrInvalidStateTransition)
      else if IsZero registeredAt \<or> Before registeredAt (createdAt e)
      then (e, Some ErrInvalidRuleOutcomeTimestamp)
      else let registeredAt = UTC registeredAt; rid = TrimSpace rid in
        if rid = [] then (e, Some ErrRuleIDRequired)
        else if rid \<in> set (requiredRuleIDs e) then (e, None)
        else let e = e\<lparr>requiredRuleIDs := requiredRuleIDs e @ [rid], version := version e + 1\<rparr>
             in (addDomainEvent
                   (RequiredRuleRegisteredEvent (agg_id e) (agg_sessionID e) rid registeredAt
                     (version e)) e,
                 None))"

definition RegisterRequiredRule :: "string \<Rightarrow> time \<Rightarrow> mutation" where
  "RegisterRequiredRule rid now = RegisterRequiredRuleAt rid (UTC now)"

end
