(* ===== verification/Evaluation_Outcomes.thy ===== *)
theory Evaluation_Outcomes
  imports Evaluation_Aggregate
begin

text \<open>
  The commands that record, replace, remove and reset rule outcomes
  (\<open>src/evaluation/rules.go\<close>, \<open>rules_advanced.go\<close>), with the batch validation they share.
\<close>

section \<open>Recording\<close>

definition recorded_event :: "RuleOutcome \<Rightarrow> EvaluationAggregate \<Rightarrow> DomainEvent" where
  "recorded_event o1 e = RuleOutcomeRecordedEvent (agg_id e) (agg_sessionID e) (RuleID o1)
     (Status o1) (ReasonCodes o1) (EvaluatedAt o1) (version e)"

definition append_outcome :: "RuleOutcome \<Rightarrow> EvaluationAggregate \<Rightarrow> EvaluationAggregate" where
  "append_outcome o1 e =
     (let e = e\<lparr>ruleOutcomes := ruleOutcomes e @ [o1], version := version e + 1\<rparr>
      in addDomainEvent (recorded_event o1 e) e)"

definition RecordRuleOutcome :: "RuleOutcome \<Rightarrow> mutation" where
  "RecordRuleOutcome o1 e =
     (if state e \<noteq> StateRunning then (e, Some ErrInvalidStateTransition)
      else case normalizeRuleOutcome o1 of
        Inl err \<Rightarrow> (e, Some err)
      | Inr normalized \<Rightarrow>
          if startedAt e = None \<or> Before (EvaluatedAt normalized) (the (startedAt e))
          then (e, Some ErrInvalidRuleOutcomeTimestamp)
          else if requiredRuleIDs e \<noteq> [] \<and> \<not> IsRuleRequired e (RuleID normalized)
          then (e, Some (Errorf ErrUnknownRule (RuleID normalized)))
          else case RuleOutcomeByID e (RuleID normalized) of
            Some existing \<Rightarrow>
              if ruleOutcomesEqual existing normalized then (e, None)
              else (e, Some (Errorf ErrRuleOutcomeConflict (RuleID normalized)))
          | None \<Rightarrow> (append_outcome normalized e, None))"

fun RecordRuleOutcomes :: "RuleOutcome list \<Rightarrow> mutation" where
  "RecordRuleOutcomes [] e = (e, None)"
| "RecordRuleOutcomes (o1 # os) e =
     (case RecordRuleOutcome o1 e of
        (e', Some err) \<Rightarrow> (e', Some err)
      | (e', None) \<Rightarrow> RecordRuleOutcomes os e')"

text \<open>
  The loop of \<open>validateRuleOutcomeBatch\<close>. The map \<open>batchByRuleID\<close> always holds the outcomes
  of \<open>normalized\<close> by their IDs, so the lookup is made in \<open>normalized\<close>.
\<close>

fun validateRuleOutcomeBatch_loop ::
  "EvaluationAggregate \<Rightarrow> RuleOutcome list \<Rightarrow> RuleOutcome list \<Rightarrow>
   evaluation_error + RuleOutcome list" where
  "validateRuleOutcomeBatch_loop e [] normalized = Ok normalized"
| "validateRuleOutcomeBatch_loop e (o1 # os) normalized =
     (case normalizeRuleOutcome o1 of
        Inl err \<Rightarrow> Err err
      | Inr v \<Rightarrow>
          if startedAt e = None \<or> Before (EvaluatedAt v) (the (startedAt e))
          then Err (Errorf ErrInvalidRuleOutcomeTimestamp (RuleID v))
          else if requiredRuleIDs e \<noteq> [] \<and> \<not> IsRuleRequired e (RuleID v)
          then Err (Errorf ErrUnknownRule (RuleID v))
          else case outcome_for normalized (RuleID v) of
            Some previous \<Rightarrow>
              if ruleOutcomesEqual previous v then validateRuleOutcomeBatch_loop e os normalized
              else Err (Errorf ErrRuleOutcomeConflict (RuleID v))
          | None \<Rightarrow>
              (case RuleOutcomeByID e (RuleID v) of
                 Some existing \<Rightarrow>
                   if \<not> ruleOutcomesEqual existing v
                   then Err (Errorf ErrRuleOutcomeConflict (RuleID v))
                   else validateRuleOutcomeBatch_loop e os (normalized @ [v])
               | None \<Rightarrow> validateRuleOutcomeBatch_loop e os (normalized @ [v])))"

definition validateRuleOutcomeBatch ::
  "EvaluationAggregate \<Rightarrow> RuleOutcome list \<Rightarrow> evaluation_error + RuleOutcome list" where
  "validateRuleOutcomeBatch e outcomes =
     (case validateRuleOutcomeBatch_loop e outcomes [] of
        Inl err \<Rightarrow> Err err
      | Inr normalized \<Rightarrow> Ok (sort_key RuleID normalized))"

definition already_recorded :: "EvaluationAggregate \<Rightarrow> RuleOutcome \<Rightarrow> bool" where
  "already_recorded e o1 = (case RuleOutcomeByID e (RuleID o1) of
      Some existing \<Rightarrow> ruleOutcomesEqual existing o1 | None \<Rightarrow> False)"

fun RecordRuleOutcomesAtomic_loop ::
  "RuleOutcome list \<Rightarrow> EvaluationAggregate \<Rightarrow> EvaluationAggregate" where
  "RecordRuleOutcomesAtomic_loop [] e = e"
| "RecordRuleOutcomesAtomic_loop (o1 # os) e =
     (if already_recorded e o1 then RecordRuleOutcomesAtomic_loop os e
      else RecordRuleOutcomesAtomic_loop os (append_outcome o1 e))"

definition RecordRuleOutcomesAtomic :: "RuleOutcome list \<Rightarrow> mutation" where
  "RecordRuleOutcomesAtomic outcomes e =
     (if state e \<noteq> StateRunning then (e, Some ErrInvalidStateTransition)
      else case validateRuleOutcomeBatch e outcomes of
        Inl err \<Rightarrow> (e, Some err)
      | Inr normalized \<Rightarrow> (RecordRuleOutcomesAtomic_loop normalized e, None))"

definition RecordRuleOutcomeBatch :: "RuleOutcome list \<Rightarrow> time \<Rightarrow> mutation" where
  "RecordRuleOutcomeBatch outcomes recordedAt e =
     (if state e \<noteq> StateRunning then (e, Some ErrInvalidStateTransition)
      else if outcomes = [] then (e, None)
      else if IsZero recordedAt then (e, Some ErrRuleOutcomeTimestampRequired)
      else let recordedAt = UTC recordedAt in
        if startedAt e = None \<or> Before recordedAt (the (startedAt e))
        then (e, Some ErrInvalidRuleOutcomeTimestamp)
        else case validateRuleOutcomeBatch e outcomes of
          Inl err \<Rightarrow> (e, Some err)
        | Inr normalized \<Rightarrow>
            let pending = filter (\<lambda>o1. \<not> already_recorded e o1) normalized in
            if pending = [] then (e, None)
            else let e = e\<lparr>ruleOutcomes := ruleOutcomes e @ pending, version := version e + 1\<rparr>
                 in (addDomainEvent
                       (RuleOutcomeBatchRecordedEvent (agg_id e) (agg_sessionID e) pending
                         recordedAt (version e)) e,
                     None))"

definition RecordRuleOutcomeBatchNow :: "RuleOutcome list \<Rightarrow> time \<Rightarrow> mutation" where
  "RecordRuleOutcomeBatchNow outcomes now = RecordRuleOutcomeBatch outcomes (UTC now)"

section \<open>Replacing\<close>

definition ReplaceRuleOutcome :: "RuleOutcome \<Rightarrow> time \<Rightarrow> mutation" where
  "ReplaceRuleOutcome replacement replacedAt e =
     (if state e \<noteq> StateRunning then (e, Some ErrInvalidStateTransition)
      else if IsZero replacedAt then (e, Some ErrRuleOutcomeTimestampRequired)
      else let replacedAt = UTC replacedAt in
        case normalizeRuleOutcome replacement of
          Inl err \<Rightarrow> (e, Some err)
        | Inr normalized \<Rightarrow>
            if startedAt e = None \<or> Before replacedAt (the (startedAt e)) \<or>
               Before (EvaluatedAt normalized) (the (startedAt e)) \<or>
               After (EvaluatedAt normalized) replacedAt
            then (e, Some ErrInvalidRuleOutcomeTimestamp)
            else if requiredRuleIDs e \<noteq> [] \<and> \<not> IsRuleRequired e (RuleID normalized)
            then (e, Some (Errorf ErrUnknownRule (RuleID normalized)))
            else case ruleOutcomeIndex (ruleOutcomes e) (RuleID normalized) of
              None \<Rightarrow> (e, Some (Errorf ErrRuleOutcomeNotFound (RuleID normalized)))
            | Some index \<Rightarrow>
                let previous = ruleOutcomes e ! index in
                if ruleOutcomesEqual previous normalized then (e, None)
                else if Before (EvaluatedAt normalized) (EvaluatedAt previous)
                then (e, Some (Errorf ErrStaleRuleOutcomeReplacement (RuleID normalized)))
                else let e = e\<lparr>ruleOutcomes := (ruleOutcomes e)[index := normalized],
                               version := version e + 1\<rparr>
                     in (addDomainEvent
                           (RuleOutcomeReplacedEvent (agg_id e) (agg_sessionID e) previous
                             normalized replacedAt (version e)) e,
                         None))"

definition ReplaceRuleOutcomeNow :: "RuleOutcome \<Rightarrow> time \<Rightarrow> mutation" where
  "ReplaceRuleOutcomeNow replacement now = ReplaceRuleOutcome replacement (UTC now)"

record RuleOutcomeReplacement =
  Replacement :: RuleOutcome
  ReplacedAt :: time

text \<open>The validation loop of \<open>ReplaceRuleOutcomesAtomic\<close>: the map \<open>byID\<close> and the list \<open>ids\<close>.\<close>

fun ReplaceRuleOutcomesAtomic_loop ::
  "EvaluationAggregate \<Rightarrow> time \<Rightarrow> RuleOutcomeReplacement list \<Rightarrow> (string \<rightharpoonup> RuleOutcome) \<Rightarrow>
   string list \<Rightarrow> evaluation_error + (string \<rightharpoonup> RuleOutcome) \<times> string list" where
  "ReplaceRuleOutcomesAtomic_loop e replacedAt [] byID ids = Ok (byID, ids)"
| "ReplaceRuleOutcomesAtomic_loop e replacedAt (item # items) byID ids =
     (let at = (if IsZero (ReplacedAt item) then replacedAt else ReplacedAt item) in
      if After (UTC at) replacedAt then Err ErrInvalidRuleOutcomeTimestamp
      else case normalizeRuleOutcome (Replacement item) of
        Inl err \<Rightarrow> Err err
      | Inr v \<Rightarrow>
          if After (EvaluatedAt v) replacedAt \<or> Before (EvaluatedAt v) (the (startedAt e))
          then Err ErrInvalidRuleOutcomeTimestamp
          else if requiredRuleIDs e \<noteq> [] \<and> \<not> IsRuleRequired e (RuleID v)
          then Err (Errorf ErrUnknownRule (RuleID v))
          else case ruleOutcomeIndex (ruleOutcomes e) (RuleID v) of
            None \<Rightarrow> Err (Errorf ErrRuleOutcomeNotFound (RuleID v))
          | Some idx \<Rightarrow>
              if Before (EvaluatedAt v) (EvaluatedAt (ruleOutcomes e ! idx))
              then Err (Errorf ErrStaleRuleOutcomeReplacement (RuleID v))
              else case byID (RuleID v) of
                Some old \<Rightarrow>
                  if \<not> ruleOutcomesEqual old v then Err (Errorf ErrRuleOutcomeConflict (RuleID v))
                  else ReplaceRuleOutcomesAtomic_loop e replacedAt items
                         (byID(RuleID v \<mapsto> v)) ids
              | None \<Rightarrow>
                  ReplaceRuleOutcomesAtomic_loop e replacedAt items
                    (byID(RuleID v \<mapsto> v)) (ids @ [RuleID v]))"

definition set_outcome :: "RuleOutcome list \<Rightarrow> RuleOutcome \<Rightarrow> RuleOutcome list" where
  "set_outcome os r = (case ruleOutcomeIndex os (RuleID r) of Some i \<Rightarrow> os[i := r] | None \<Rightarrow> os)"

text \<open>Every ID of \<open>ids\<close> was found in the outcomes and stored in \<open>byID\<close> by the loop above,
  so \<open>the\<close> reads what the code reads.\<close>

definition ReplaceRuleOutcomesAtomic :: "RuleOutcomeReplacement list \<Rightarrow> time \<Rightarrow> mutation" where
  "ReplaceRuleOutcomesAtomic replacements replacedAt e =
     (if state e \<noteq> StateRunning then (e, Some ErrInvalidStateTransition)
      else if replacements = [] then (e, None)
      else if IsZero replacedAt then (e, Some ErrRuleOutcomeTimestampRequired)
      else let replacedAt = UTC replacedAt in
        if startedAt e = None \<or> Before replacedAt (the (startedAt e))
        then (e, Some ErrInvalidRuleOutcomeTimestamp)
        else case ReplaceRuleOutcomesAtomic_loop e replacedAt replacements Map.empty [] of
          Inl err \<Rightarrow> (e, Some err)
        | Inr (byID, ids) \<Rightarrow>
            let pairs = filter (\<lambda>(current, replacement). \<not> ruleOutcomesEqual current replacement)
                          (map (\<lambda>rid. (ruleOutcomes e ! the (ruleOutcomeIndex (ruleOutcomes e) rid),
                                       the (byID rid))) (sort ids));
                previous = map fst pairs;
                pending = map snd pairs
            in if pending = [] then (e, None)
               else let e = e\<lparr>ruleOutcomes := foldl set_outcome (ruleOutcomes e) pending,
                              version := version e + 1\<rparr>
                    in (addDomainEvent
                          (RuleOutcomeBatchReplacedEvent (agg_id e) (agg_sessionID e) previous
                            pending replacedAt (version e)) e,
                        None))"

section \<open>Removing and resetting\<close>

definition RemoveRuleOutcome :: "string \<Rightarrow> time \<Rightarrow> mutation" where
  "RemoveRuleOutcome ruleID removedAt e =
     (if state e \<noteq> StateRunning then (e, Some ErrInvalidStateTransition)
      else let ruleID = TrimSpace ruleID in
        if ruleID = [] then (e, Some ErrRuleIDRequired)
        else if IsZero removedAt then (e, Some ErrRuleOutcomeRemovalTimeRequired)
        else let removedAt = UTC removedAt in
          if startedAt e = None \<or> Before removedAt (the (startedAt e))
          then (e, Some ErrInvalidRuleOutcomeTimestamp)
          else case ruleOutcomeIndex (ruleOutcomes e) ruleID of
            None \<Rightarrow> (e, Some (Errorf ErrRuleOutcomeNotFound ruleID))
          | Some index \<Rightarrow>
              let outcome = ruleOutcomes e ! index;
                  e = e\<lparr>ruleOutcomes := take index (ruleOutcomes e) @
                          drop (index + 1) (ruleOutcomes e),
                        version := version e + 1\<rparr>
              in (addDomainEvent
                    (RuleOutcomeRemovedEvent (agg_id e) (agg_sessionID e) outcome removedAt
                      (version e)) e,
                  None))"

definition RemoveRuleOutcomeNow :: "string \<Rightarrow> time \<Rightarrow> mutation" where
  "RemoveRuleOutcomeNow ruleID now = RemoveRuleOutcome ruleID (UTC now)"

definition RemoveRuleOutcomeIfPresent :: "string \<Rightarrow> time \<Rightarrow> mutation" where
  "RemoveRuleOutcomeIfPresent ruleID removedAt e =
     (let ruleID = TrimSpace ruleID in
      if ruleID = [] then (e, Some ErrRuleIDRequired)
      else if \<not> HasRecordedRule e ruleID then (e, None)
      else RemoveRuleOutcome ruleID removedAt e)"

fun normalizeRuleIDsForRemoval_loop ::
  "string list \<Rightarrow> string list \<Rightarrow> evaluation_error + string list" where
  "normalizeRuleIDsForRemoval_loop [] out = Ok out"
| "normalizeRuleIDsForRemoval_loop (rid # rids) out =
     (let rid = TrimSpace rid in
      if rid = [] then Err ErrRuleIDRequired
      else if rid \<in> set out then normalizeRuleIDsForRemoval_loop rids out
      else normalizeRuleIDsForRemoval_loop rids (out @ [rid]))"

definition normalizeRuleIDsForRemoval :: "string list \<Rightarrow> evaluation_error + string list" where
  "normalizeRuleIDsForRemoval ruleIDs =
     (case normalizeRuleIDsForRemoval_loop ruleIDs [] of
        Inl err \<Rightarrow> Err err | Inr out \<Rightarrow> Ok (sort out))"

text \<open>The first ID without an outcome, or the outcomes in the order of the IDs.\<close>

fun collect_outcomes ::
  "RuleOutcome list \<Rightarrow> string list \<Rightarrow> evaluation_error + RuleOutcome list" where
  "collect_outcomes os [] = Ok []"
| "collect_outcomes os (rid # rids) =
     (case ruleOutcomeIndex os rid of
        None \<Rightarrow> Err (Errorf ErrRuleOutcomeNotFound rid)
      | Some idx \<Rightarrow> (case collect_outcomes os rids of
            Inl err \<Rightarrow> Err err
          | Inr removed \<Rightarrow> Ok (os ! idx # removed)))"

definition RemoveRuleOutcomesAtomic :: "string list \<Rightarrow> time \<Rightarrow> mutation" where
  "RemoveRuleOutcomesAtomic ruleIDs removedAt e =
     (if state e \<noteq> StateRunning then (e, Some ErrInvalidStateTransition)
      else if ruleIDs = [] then (e, None)
      else if IsZero removedAt then (e, Some ErrRuleOutcomeRemovalTimeRequired)
      else let removedAt = UTC removedAt in
        if startedAt e = None \<or> Before removedAt (the (startedAt e))
        then (e, Some ErrInvalidRuleOutcomeTimestamp)
        else case normalizeRuleIDsForRemoval ruleIDs of
          Inl err \<Rightarrow> (e, Some err)
        | Inr ids \<Rightarrow> (case collect_outcomes (ruleOutcomes e) ids of
            Inl err \<Rightarrow> (e, Some err)
          | Inr removed \<Rightarrow>
              let e = e\<lparr>ruleOutcomes := filter (\<lambda>o1. RuleID o1 \<notin> set ids) (ruleOutcomes e),
                        version := version e + 1\<rparr>
              in (addDomainEvent
                    (RuleOutcomeBatchRemovedEvent (agg_id e) (agg_sessionID e) removed removedAt
                      (version e)) e,
                  None)))"

definition RemoveRuleOutcomesIfPresent :: "string list \<Rightarrow> time \<Rightarrow> mutation" where
  "RemoveRuleOutcomesIfPresent ruleIDs removedAt e =
     (if state e \<noteq> StateRunning then (e, Some ErrInvalidStateTransition)
      else case normalizeRuleIDsForRemoval ruleIDs of
        Inl err \<Rightarrow> (e, Some err)
      | Inr ids \<Rightarrow>
          let existing = filter (HasRecordedRule e) ids in
          if existing = [] then (e, None) else RemoveRuleOutcomesAtomic existing removedAt e)"

definition ResetRuleOutcomes :: "time \<Rightarrow> mutation" where
  "ResetRuleOutcomes resetAt e =
     (if state e \<noteq> StateRunning then (e, Some ErrInvalidStateTransition)
      else if IsZero resetAt then (e, Some ErrRuleOutcomeResetTimeRequired)
      else let resetAt = UTC resetAt in
        if startedAt e = None \<or> Before resetAt (the (startedAt e))
        then (e, Some ErrInvalidRuleOutcomeTimestamp)
        else if ruleOutcomes e = [] then (e, None)
        else let removed = ruleOutcomes e;
                 e = e\<lparr>ruleOutcomes := [], version := version e + 1\<rparr>
             in (addDomainEvent
                   (RuleOutcomesResetEvent (agg_id e) (agg_sessionID e) removed resetAt (version e)) e,
                 None))"

definition ResetRuleOutcomesNow :: "time \<Rightarrow> mutation" where
  "ResetRuleOutcomesNow now = ResetRuleOutcomes (UTC now)"

definition ResetRuleOutcomesAtVersion :: "u64 \<Rightarrow> time \<Rightarrow> mutation" where
  "ResetRuleOutcomesAtVersion expectedVersion resetAt e =
     (if version e \<noteq> expectedVersion then (e, Some ErrEvaluationVersionConflict)
      else ResetRuleOutcomes resetAt e)"

definition HasRuleOutcomes :: "EvaluationAggregate \<Rightarrow> bool" where
  "HasRuleOutcomes e \<longleftrightarrow> ruleOutcomes e \<noteq> []"

section \<open>Well-formed outcome lists\<close>

text \<open>
  An outcome is timely when it was not evaluated before the start; the outcomes of an
  aggregate are normalised, timely and have distinct rule IDs.
\<close>

definition timely :: "time option \<Rightarrow> RuleOutcome \<Rightarrow> bool" where
  "timely st o1 = (case st of None \<Rightarrow> False | Some s \<Rightarrow> \<not> Before (EvaluatedAt o1) s)"

definition wf_outcomes :: "time option \<Rightarrow> RuleOutcome list \<Rightarrow> bool" where
  "wf_outcomes st os \<longleftrightarrow> (\<forall>o1\<in>set os. normal_outcome o1 \<and> timely st o1) \<and> distinct (map RuleID os)"

lemma wf_outcomes_Nil [simp]: "wf_outcomes st []"
  by (simp add: wf_outcomes_def)

lemma wf_outcomes_append:
  "wf_outcomes st os \<Longrightarrow> wf_outcomes st ps \<Longrightarrow> RuleID ` set os \<inter> RuleID ` set ps = {} \<Longrightarrow>
   wf_outcomes st (os @ ps)"
  by (auto simp: wf_outcomes_def)

lemma wf_outcomes_subset:
  "wf_outcomes st os \<Longrightarrow> set ps \<subseteq> set os \<Longrightarrow> distinct (map RuleID ps) \<Longrightarrow> wf_outcomes st ps"
  by (auto simp: wf_outcomes_def)

lemma wf_outcomes_filter: "wf_outcomes st os \<Longrightarrow> wf_outcomes st (filter P os)"
  by (auto simp: wf_outcomes_def distinct_map_filter_key)

lemma wf_outcomes_remove: "wf_outcomes st os \<Longrightarrow> wf_outcomes st (take i os @ drop (i + 1) os)"
proof -
  assume wf: "wf_outcomes st os"
  have os: "os = take i os @ drop i os" "drop (i + 1) os = tl (drop i os)"
    by (simp_all add: tl_drop drop_Suc)
  show ?thesis
    using wf unfolding os(2) by (subst (asm) os(1), cases "drop i os") (auto simp: wf_outcomes_def)
qed

lemma wf_outcomes_update:
  assumes "wf_outcomes st os" "normal_outcome r" "timely st r" "ruleOutcomeIndex os (RuleID r) = Some i"
  shows "wf_outcomes st (os[i := r])"
proof -
  have "map RuleID (os[i := r]) = map RuleID os"
    using ruleOutcomeIndex_Some [OF assms(4)] by (simp add: map_update list_update_same_conv)
  then show ?thesis
    using assms set_update_subset_insert [of os i r] by (auto simp: wf_outcomes_def)
qed

lemma wf_outcomes_set_outcome:
  "wf_outcomes st os \<Longrightarrow> normal_outcome r \<Longrightarrow> timely st r \<Longrightarrow> wf_outcomes st (set_outcome os r)"
  by (auto simp: set_outcome_def intro: wf_outcomes_update split: option.splits)

lemma wf_outcomes_set_outcomes:
  "wf_outcomes st os \<Longrightarrow> (\<forall>r\<in>set rs. normal_outcome r \<and> timely st r) \<Longrightarrow>
   wf_outcomes st (foldl set_outcome os rs)"
  by (induction rs arbitrary: os) (auto simp: wf_outcomes_set_outcome)

lemma wf_outcomes_normal: "wf_outcomes st os \<Longrightarrow> list_all normal_outcome os"
  by (simp add: wf_outcomes_def list_all_iff)

section \<open>Batch validation\<close>

lemma RuleOutcomeByID_normal:
  "normal_outcome v \<Longrightarrow> RuleOutcomeByID e (RuleID v) = outcome_for (ruleOutcomes e) (RuleID v)"
  by (rule RuleOutcomeByID_trimmed) (simp add: normal_outcome_def)

text \<open>What the validation guarantees of an outcome it accepts.\<close>

definition acceptable :: "EvaluationAggregate \<Rightarrow> RuleOutcome \<Rightarrow> bool" where
  "acceptable e v \<longleftrightarrow> normal_outcome v \<and> timely (startedAt e) v \<and>
     (requiredRuleIDs e = [] \<or> RuleID v \<in> set (requiredRuleIDs e)) \<and>
     (\<forall>x. outcome_for (ruleOutcomes e) (RuleID v) = Some x \<longrightarrow> ruleOutcomesEqual x v)"

lemma validateRuleOutcomeBatch_loop_Ok:
  assumes "validateRuleOutcomeBatch_loop e os norm = Ok ns"
    and "\<forall>v\<in>set norm. acceptable e v" "distinct (map RuleID norm)"
  shows "(\<forall>v\<in>set ns. acceptable e v) \<and> distinct (map RuleID ns) \<and>
    set ns = set norm \<union> {v. \<exists>o1\<in>set os. normalizeRuleOutcome o1 = Ok v}"
  using assms
proof (induction os arbitrary: norm)
  case (Cons o1 os)
  from Cons.prems(1) obtain v where v: "normalizeRuleOutcome o1 = Ok v"
    by (auto split: sum.splits)
  note n = normalizeRuleOutcome_normal [OF v]
  then have trim: "TrimSpace (RuleID v) = RuleID v" by (simp add: normal_outcome_def)
  show ?case
  proof (cases "outcome_for norm (RuleID v)")
    case None
    then have "validateRuleOutcomeBatch_loop e os (norm @ [v]) = Ok ns \<and> acceptable e v"
      using Cons.prems(1) v n trim
      by (auto simp: acceptable_def RuleOutcomeByID_normal timely_def IsRuleRequired_def
          split: if_splits option.splits)
    then show ?thesis
      using Cons.IH [of "norm @ [v]"] Cons.prems None v by (auto simp: outcome_for_None)
  next
    case (Some p)
    then have p: "p \<in> set norm" "RuleID p = RuleID v" by (auto dest: outcome_for_SomeD)
    then have "validateRuleOutcomeBatch_loop e os norm = Ok ns" "p = v"
      using Cons.prems v n Some
      by (auto simp: acceptable_def ruleOutcomesEqual_normal split: if_splits)
    then show ?thesis
      using Cons.IH [of norm] Cons.prems v p by auto
  qed
qed auto

lemma validateRuleOutcomeBatch_Ok:
  assumes "validateRuleOutcomeBatch e os = Ok ns"
  shows "\<forall>v\<in>set ns. acceptable e v" "distinct (map RuleID ns)" "sorted (map RuleID ns)"
    "set ns = {v. \<exists>o1\<in>set os. normalizeRuleOutcome o1 = Ok v}"
proof -
  obtain ms where ms: "validateRuleOutcomeBatch_loop e os [] = Ok ms" "ns = sort_key RuleID ms"
    using assms by (auto simp: validateRuleOutcomeBatch_def split: sum.splits)
  note * = validateRuleOutcomeBatch_loop_Ok [OF ms(1)]
  show "\<forall>v\<in>set ns. acceptable e v" "distinct (map RuleID ns)" "sorted (map RuleID ns)"
    "set ns = {v. \<exists>o1\<in>set os. normalizeRuleOutcome o1 = Ok v}"
    using * ms(2) by simp_all
qed

text \<open>The outcomes of an accepted batch that are new.\<close>

lemma already_recorded_iff:
  assumes "wf_outcomes st (ruleOutcomes e)" "acceptable e v"
  shows "already_recorded e v \<longleftrightarrow> v \<in> set (ruleOutcomes e)"
    and "already_recorded e v \<longleftrightarrow> RuleID v \<in> RuleID ` set (ruleOutcomes e)"
proof -
  have n: "normal_outcome v" using assms by (simp add: acceptable_def)
  show "already_recorded e v \<longleftrightarrow> RuleID v \<in> RuleID ` set (ruleOutcomes e)"
  proof (cases "outcome_for (ruleOutcomes e) (RuleID v)")
    case None
    then show ?thesis
      using n outcome_for_None [of "ruleOutcomes e" "RuleID v"]
      by (simp add: already_recorded_def RuleOutcomeByID_normal)
  next
    case (Some x)
    then show ?thesis
      using n assms(2) outcome_for_Some_image [OF Some]
      by (simp add: already_recorded_def RuleOutcomeByID_normal acceptable_def)
  qed
  show "already_recorded e v \<longleftrightarrow> v \<in> set (ruleOutcomes e)"
  proof (cases "outcome_for (ruleOutcomes e) (RuleID v)")
    case (Some x)
    then have "x \<in> set (ruleOutcomes e)" "x = v"
      using assms n by (auto simp: wf_outcomes_def acceptable_def ruleOutcomesEqual_normal
          dest!: outcome_for_SomeD)
    then show ?thesis using Some n by (simp add: already_recorded_def RuleOutcomeByID_normal)
  next
    case None
    then have "RuleID v \<notin> RuleID ` set (ruleOutcomes e)" by (simp add: outcome_for_None)
    then show ?thesis using None n by (auto simp: already_recorded_def RuleOutcomeByID_normal)
  qed
qed

lemma wf_outcomes_pending:
  assumes "wf_outcomes (startedAt e) (ruleOutcomes e)" "\<forall>v\<in>set ns. acceptable e v"
    "distinct (map RuleID ns)"
  shows "wf_outcomes (startedAt e) (ruleOutcomes e @ filter (\<lambda>v. \<not> already_recorded e v) ns)"
proof (rule wf_outcomes_append [OF assms(1)])
  show "wf_outcomes (startedAt e) (filter (\<lambda>v. \<not> already_recorded e v) ns)"
    using assms(2,3) by (auto simp: wf_outcomes_def acceptable_def distinct_map_filter_key)
  have new: "RuleID v \<notin> RuleID ` set (ruleOutcomes e)"
    if "v \<in> set (filter (\<lambda>v. \<not> already_recorded e v) ns)" for v
    using already_recorded_iff(2) [OF assms(1), of v] assms(2) that by simp
  show "RuleID ` set (ruleOutcomes e) \<inter> RuleID ` set (filter (\<lambda>v. \<not> already_recorded e v) ns) = {}"
  proof (rule equals0I, elim IntE)
    fix r assume "r \<in> RuleID ` set (ruleOutcomes e)"
      and "r \<in> RuleID ` set (filter (\<lambda>v. \<not> already_recorded e v) ns)"
    then show False using new by (elim imageE [where A = "set (filter _ _)"]) simp
  qed
qed

section \<open>The atomic recording loop\<close>

fun recorded_events :: "uuid \<Rightarrow> uuid \<Rightarrow> u64 \<Rightarrow> RuleOutcome list \<Rightarrow> DomainEvent list" where
  "recorded_events i s v [] = []"
| "recorded_events i s v (o1 # os) =
     RuleOutcomeRecordedEvent i s (RuleID o1) (Status o1) (ReasonCodes o1) (EvaluatedAt o1) (v + 1)
     # recorded_events i s (v + 1) os"

lemma already_recorded_append:
  "normal_outcome v \<Longrightarrow> RuleID o1 \<noteq> RuleID v \<Longrightarrow>
   already_recorded (append_outcome o1 e) v \<longleftrightarrow> already_recorded e v"
  by (simp add: already_recorded_def RuleOutcomeByID_normal append_outcome_def Let_def
      addDomainEvent_def outcome_for_append outcome_for_Cons split: option.splits)

lemma RecordRuleOutcomesAtomic_loop_eq:
  "list_all normal_outcome ns \<Longrightarrow> distinct (map RuleID ns) \<Longrightarrow>
   RecordRuleOutcomesAtomic_loop ns e =
     (let pending = filter (\<lambda>v. \<not> already_recorded e v) ns in
      e\<lparr>ruleOutcomes := ruleOutcomes e @ pending, version := version e + of_nat (length pending),
        domainEvents := domainEvents e @
          recorded_events (agg_id e) (agg_sessionID e) (version e) pending\<rparr>)"
proof (induction ns arbitrary: e)
  case (Cons o1 ns)
  let ?a = "append_outcome o1 e"
  have same: "filter (\<lambda>v. \<not> already_recorded ?a v) ns = filter (\<lambda>v. \<not> already_recorded e v) ns"
    using Cons.prems by (intro filter_cong) (auto simp: already_recorded_append list_all_iff image_iff)
  have prems: "list_all normal_outcome ns" "distinct (map RuleID ns)"
    using Cons.prems by simp_all
  show ?case
  proof (cases "already_recorded e o1")
    case True
    then show ?thesis using Cons.IH [OF prems, of e] by simp
  next
    case False
    have "RecordRuleOutcomesAtomic_loop (o1 # ns) e = RecordRuleOutcomesAtomic_loop ns ?a"
      using False by simp
    also have "\<dots> = (let pending = filter (\<lambda>v. \<not> already_recorded e v) ns in
      ?a\<lparr>ruleOutcomes := ruleOutcomes ?a @ pending, version := version ?a + of_nat (length pending),
        domainEvents := domainEvents ?a @
          recorded_events (agg_id ?a) (agg_sessionID ?a) (version ?a) pending\<rparr>)"
      using Cons.IH [OF prems, of ?a] unfolding same .
    finally show ?thesis
      using False by (simp add: append_outcome_def addDomainEvent_def recorded_event_def Let_def)
  qed
qed simp

section \<open>Replacement\<close>

lemma ReplaceRuleOutcomesAtomic_loop_Ok:
  assumes "ReplaceRuleOutcomesAtomic_loop e at items byID ids = Ok (byID', ids')"
    and "startedAt e \<noteq> None"
    and "\<forall>rid v. byID rid = Some v \<longrightarrow> RuleID v = rid \<and> normal_outcome v \<and> timely (startedAt e) v"
    and "set ids = dom byID" "distinct ids" "dom byID \<subseteq> RuleID ` set (ruleOutcomes e)"
  shows "(\<forall>rid v. byID' rid = Some v \<longrightarrow> RuleID v = rid \<and> normal_outcome v \<and> timely (startedAt e) v) \<and>
    set ids' = dom byID' \<and> distinct ids' \<and> dom byID' \<subseteq> RuleID ` set (ruleOutcomes e)"
  using assms
proof (induction items arbitrary: byID ids)
  case (Cons item items)
  obtain v where v: "normalizeRuleOutcome (Replacement item) = Ok v"
    using Cons.prems(1) by (auto simp: Let_def split: sum.splits if_splits)
  note n = normalizeRuleOutcome_normal [OF v]
  obtain i where i: "ruleOutcomeIndex (ruleOutcomes e) (RuleID v) = Some i"
    using Cons.prems(1) v by (simp add: Let_def split: if_splits option.splits)
  have t: "timely (startedAt e) v"
    using Cons.prems(1,2) v by (auto simp: Let_def timely_def split: if_splits)
  have r: "RuleID v \<in> RuleID ` set (ruleOutcomes e)"
    using i ruleOutcomeIndex_None [of "ruleOutcomes e" "RuleID v"] by simp
  have "ReplaceRuleOutcomesAtomic_loop e at items (byID(RuleID v \<mapsto> v))
     (if byID (RuleID v) = None then ids @ [RuleID v] else ids) = Ok (byID', ids')"
    using Cons.prems(1) v i by (auto simp: Let_def split: if_splits option.splits)
  then show ?case
    by (rule Cons.IH) (use Cons.prems(2-) n t r in \<open>auto simp: subset_iff dom_def\<close>)
qed auto

section \<open>Removal\<close>

lemma normalizeRuleIDsForRemoval_loop_Ok:
  "normalizeRuleIDsForRemoval_loop rids out = Ok ids \<Longrightarrow> distinct out \<Longrightarrow>
   distinct ids \<and> set ids = set out \<union> TrimSpace ` set rids \<and> [] \<notin> TrimSpace ` set rids"
  by (induction rids out rule: normalizeRuleIDsForRemoval_loop.induct)
    (auto simp: Let_def split: if_splits)

lemma normalizeRuleIDsForRemoval_Ok:
  "normalizeRuleIDsForRemoval rids = Ok ids \<Longrightarrow>
   sorted ids \<and> distinct ids \<and> set ids = TrimSpace ` set rids \<and> [] \<notin> set ids"
  by (auto simp: normalizeRuleIDsForRemoval_def split: sum.splits
      dest!: normalizeRuleIDsForRemoval_loop_Ok)

lemma collect_outcomes_Ok:
  "collect_outcomes os rids = Ok rs \<Longrightarrow>
   set rids \<subseteq> RuleID ` set os \<and> map RuleID rs = rids \<and> set rs \<subseteq> set os"
proof (induction rids arbitrary: rs)
  case (Cons rid rids)
  from Cons.prems obtain i rest where i: "ruleOutcomeIndex os rid = Some i"
    and rest: "collect_outcomes os rids = Ok rest" and rs: "rs = os ! i # rest"
    by (auto split: option.splits sum.splits)
  have "os ! i \<in> set os" "RuleID (os ! i) = rid" using ruleOutcomeIndex_Some [OF i] by auto
  then show ?case using Cons.IH [OF rest] rs by auto
qed simp

end
