(* ===== verification/Evaluation_Binding.thy ===== *)
theory Evaluation_Binding
  imports Evaluation_Aggregate
begin

text \<open>
  Binding an evidence set (\<open>src/evaluation/evidence.go\<close>) and a verification policy
  (\<open>src/evaluation/policy.go\<close>) to an evaluation. Both bindings are normalised, are refused
  once rule outcomes exist, and are compared with a binding already in place. The lemmas show
  that normalisation is idempotent and what a normalised evidence set satisfies.
\<close>

section \<open>Evidence\<close>

fun normalizeEvidenceReasons_loop ::
  "string list \<Rightarrow> string list \<Rightarrow> evaluation_error + string list" where
  "normalizeEvidenceReasons_loop [] res = Ok res"
| "normalizeEvidenceReasons_loop (reason # reasons) res =
     (let reason = ToUpper (TrimSpace reason) in
      if reason = [] then normalizeEvidenceReasons_loop reasons res
      else if \<not> reasonCodePattern reason then Err ErrEvidenceBindingRequired
      else if reason \<in> set res then normalizeEvidenceReasons_loop reasons res
      else normalizeEvidenceReasons_loop reasons (res @ [reason]))"

definition normalizeEvidenceReasons :: "string list \<Rightarrow> evaluation_error + string list" where
  "normalizeEvidenceReasons reasons = normalizeEvidenceReasons_loop reasons []"

text \<open>The loop over the references; \<open>seen\<close> is the list of the IDs met so far.\<close>

fun normalizeReferences ::
  "EvidenceReference list \<Rightarrow> uuid list \<Rightarrow> evaluation_error + EvidenceReference list" where
  "normalizeReferences [] seen = Ok []"
| "normalizeReferences (reference # references) seen =
     (if ref_EvidenceID reference = Nil_uuid \<or> \<not> evidence_IsValid (ref_Status reference)
      then Err ErrEvidenceBindingRequired
      else if ref_EvidenceID reference \<in> set seen then Err ErrEvidenceBindingRequired
      else case normalizeEvidenceReasons (ref_Reasons reference) of
        Inl err \<Rightarrow> Err err
      | Inr reasons \<Rightarrow>
          if ref_Status reference = EvidenceQualified \<and> reasons \<noteq> []
          then Err ErrEvidenceBindingRequired
          else if ref_Status reference \<noteq> EvidenceQualified \<and> reasons = []
          then Err ErrEvidenceBindingRequired
          else case normalizeReferences references (ref_EvidenceID reference # seen) of
            Inl err \<Rightarrow> Err err
          | Inr rest \<Rightarrow> Ok (reference\<lparr>ref_Reasons := reasons\<rparr> # rest))"

definition normalizeEvidenceBinding ::
  "EvidenceSetBinding \<Rightarrow> evaluation_error + EvidenceSetBinding" where
  "normalizeEvidenceBinding binding =
     (let binding = binding\<lparr>eb_PolicyVersion := TrimSpace (eb_PolicyVersion binding),
                            eb_QualifiedAt := UTC (eb_QualifiedAt binding)\<rparr> in
      if eb_SessionID binding = Nil_uuid \<or> \<not> evidence_IsValid (eb_Status binding) \<or>
         eb_PolicyVersion binding = [] \<or> IsZero (eb_QualifiedAt binding)
      then Err ErrEvidenceBindingRequired
      else case normalizeEvidenceReasons (eb_Reasons binding) of
        Inl err \<Rightarrow> Err err
      | Inr reasons \<Rightarrow> (case normalizeReferences (eb_Evidence binding) [] of
          Inl err \<Rightarrow> Err err
        | Inr refs \<Rightarrow>
            let binding = binding\<lparr>eb_Reasons := reasons, eb_Evidence := refs\<rparr> in
            if eb_Status binding = EvidenceQualified \<and>
               (refs = [] \<or> reasons \<noteq> [] \<or> list_ex (\<lambda>r. ref_Status r \<noteq> EvidenceQualified) refs)
            then Err ErrEvidenceBindingRequired
            else if eb_Status binding = EvidenceUnavailable \<and> (refs \<noteq> [] \<or> reasons = [])
            then Err ErrEvidenceBindingRequired
            else if eb_Status binding = EvidenceRejected \<and>
               \<not> (reasons \<noteq> [] \<or> list_ex (\<lambda>r. ref_Status r \<noteq> EvidenceQualified) refs)
            then Err ErrEvidenceBindingRequired
            else Ok binding))"

definition evidenceBindingsEqual :: "EvidenceSetBinding \<Rightarrow> EvidenceSetBinding \<Rightarrow> bool" where
  "evidenceBindingsEqual left right \<longleftrightarrow>
     eb_SessionID left = eb_SessionID right \<and> eb_Status left = eb_Status right \<and>
     eb_PolicyVersion left = eb_PolicyVersion right \<and>
     time_Equal (eb_QualifiedAt left) (eb_QualifiedAt right) \<and>
     eb_Reasons left = eb_Reasons right \<and>
     list_all2 (\<lambda>l r. ref_EvidenceID l = ref_EvidenceID r \<and> ref_Status l = ref_Status r \<and>
                      ref_Reasons l = ref_Reasons r) (eb_Evidence left) (eb_Evidence right)"

definition BindEvidenceSet :: "EvidenceSetBinding \<Rightarrow> mutation" where
  "BindEvidenceSet binding e =
     (if state_IsTerminal (state e) then (e, Some ErrInvalidStateTransition)
      else if ruleOutcomes e \<noteq> [] then (e, Some ErrEvidenceBoundAfterRules)
      else case normalizeEvidenceBinding binding of
        Inl err \<Rightarrow> (e, Some err)
      | Inr normalized \<Rightarrow>
          if eb_SessionID normalized \<noteq> agg_sessionID e then (e, Some ErrEvidenceSessionMismatch)
          else case evidenceBinding e of
            Some bound \<Rightarrow>
              if evidenceBindingsEqual bound normalized then (e, None)
              else (e, Some ErrEvidenceAlreadyBound)
          | None \<Rightarrow>
              let e = e\<lparr>evidenceBinding := Some normalized, version := version e + 1\<rparr>
              in (addDomainEvent
                    (EvidenceSetBoundEvent (agg_id e) (agg_sessionID e) normalized (version e)) e,
                  None))"

section \<open>Policy\<close>

definition policyHashPattern :: "string \<Rightarrow> bool" where
  "policyHashPattern = hash_pattern"

definition normalizePolicyBinding :: "PolicyBinding \<Rightarrow> evaluation_error + PolicyBinding" where
  "normalizePolicyBinding binding =
     (let binding = binding\<lparr>pb_PolicyID := TrimSpace (pb_PolicyID binding),
                            pb_Version := TrimSpace (pb_Version binding),
                            pb_Hash := TrimSpace (pb_Hash binding),
                            pb_BoundAt := UTC (pb_BoundAt binding)\<rparr>
      in if pb_PolicyID binding = [] \<or> pb_Version binding = [] \<or>
            \<not> policyHashPattern (pb_Hash binding) \<or> IsZero (pb_BoundAt binding)
         then Err ErrPolicyBindingRequired
         else Ok binding)"

definition BindVerificationPolicy :: "PolicyBinding \<Rightarrow> mutation" where
  "BindVerificationPolicy binding e =
     (if state_IsTerminal (state e) then (e, Some ErrInvalidStateTransition)
      else if ruleOutcomes e \<noteq> [] then (e, Some ErrPolicyBoundAfterRules)
      else case normalizePolicyBinding binding of
        Inl err \<Rightarrow> (e, Some ErrPolicyBindingRequired)
      | Inr normalized \<Rightarrow>
          if Before (pb_BoundAt normalized) (createdAt e) then (e, Some ErrPolicyBindingRequired)
          else case policyBinding e of
            Some bound \<Rightarrow>
              if bound = normalized then (e, None) else (e, Some ErrPolicyAlreadyBound)
          | None \<Rightarrow>
              let e = e\<lparr>policyBinding := Some normalized, version := version e + 1\<rparr>
              in (addDomainEvent
                    (VerificationPolicyBoundEvent (agg_id e) (agg_sessionID e) normalized
                      (version e)) e,
                  None))"

section \<open>Normal forms\<close>

lemma normalizeEvidenceReasons_loop_normal:
  "normalizeEvidenceReasons_loop v out = Ok rs \<Longrightarrow> normal_codes out \<Longrightarrow> normal_codes rs"
  by (induction v out rule: normalizeEvidenceReasons_loop.induct)
    (auto simp: normal_codes_def Let_def split: if_splits)

lemma normalizeEvidenceReasons_normal: "normalizeEvidenceReasons v = Ok rs \<Longrightarrow> normal_codes rs"
  unfolding normalizeEvidenceReasons_def by (erule normalizeEvidenceReasons_loop_normal) simp

lemma reasonCodePattern_upper: "reasonCodePattern v \<Longrightarrow> ToUpper (TrimSpace v) = v \<and> v \<noteq> []"
  using code_pattern_chars [of 1 63 v]
  by (auto simp: reasonCodePattern_def TrimSpace_code ToUpper_code code_pattern_def)

lemma normalizeEvidenceReasons_loop_fixed:
  "list_all reasonCodePattern v \<Longrightarrow> distinct (out @ v) \<Longrightarrow>
   normalizeEvidenceReasons_loop v out = Ok (out @ v)"
  by (induction v arbitrary: out) (auto simp: reasonCodePattern_upper)

lemma normalizeEvidenceReasons_fixed: "normal_codes v \<Longrightarrow> normalizeEvidenceReasons v = Ok v"
  by (simp add: normalizeEvidenceReasons_def normal_codes_def normalizeEvidenceReasons_loop_fixed)

text \<open>A normalised reference names an object, and has reasons exactly when it is not qualified.\<close>

definition normal_reference :: "EvidenceReference \<Rightarrow> bool" where
  "normal_reference r \<longleftrightarrow> ref_EvidenceID r \<noteq> Nil_uuid \<and> evidence_IsValid (ref_Status r) \<and>
     normal_codes (ref_Reasons r) \<and> (ref_Status r = EvidenceQualified \<longleftrightarrow> ref_Reasons r = [])"

definition normal_references :: "EvidenceReference list \<Rightarrow> bool" where
  "normal_references rs \<longleftrightarrow> list_all normal_reference rs \<and> distinct (map ref_EvidenceID rs)"

definition normal_evidence_binding :: "EvidenceSetBinding \<Rightarrow> bool" where
  "normal_evidence_binding b \<longleftrightarrow> eb_SessionID b \<noteq> Nil_uuid \<and> eb_PolicyVersion b \<noteq> [] \<and>
     TrimSpace (eb_PolicyVersion b) = eb_PolicyVersion b \<and> \<not> IsZero (eb_QualifiedAt b) \<and>
     location (eb_QualifiedAt b) = 0 \<and> normal_codes (eb_Reasons b) \<and>
     normal_references (eb_Evidence b) \<and>
     evidence_IsValid (eb_Status b) \<and>
     (eb_Status b = EvidenceQualified \<longrightarrow> eb_Evidence b \<noteq> [] \<and> eb_Reasons b = [] \<and>
        \<not> list_ex (\<lambda>r. ref_Status r \<noteq> EvidenceQualified) (eb_Evidence b)) \<and>
     (eb_Status b = EvidenceUnavailable \<longrightarrow> eb_Evidence b = [] \<and> eb_Reasons b \<noteq> []) \<and>
     (eb_Status b = EvidenceRejected \<longrightarrow> eb_Reasons b \<noteq> [] \<or>
        list_ex (\<lambda>r. ref_Status r \<noteq> EvidenceQualified) (eb_Evidence b))"

lemma normalizeReferences_normal:
  "normalizeReferences rs seen = Ok ns \<Longrightarrow>
   list_all normal_reference ns \<and> distinct (map ref_EvidenceID ns) \<and>
   set (map ref_EvidenceID ns) \<inter> set seen = {}"
proof (induction rs arbitrary: seen ns)
  case (Cons r rs)
  from Cons.prems obtain reasons rest where
    rest: "normalizeReferences rs (ref_EvidenceID r # seen) = Ok rest"
    and r: "normalizeEvidenceReasons (ref_Reasons r) = Ok reasons"
    and ns: "ns = r\<lparr>ref_Reasons := reasons\<rparr> # rest"
    and "ref_EvidenceID r \<notin> set seen" "ref_EvidenceID r \<noteq> Nil_uuid"
      "evidence_IsValid (ref_Status r)" "ref_Status r = EvidenceQualified \<longleftrightarrow> reasons = []"
    by (auto split: if_splits sum.splits)
  with Cons.IH [OF rest] show ?case
    by (auto simp: normal_reference_def normalizeEvidenceReasons_normal [OF r])
qed simp

lemma normalizeReferences_fixed:
  "list_all normal_reference rs \<Longrightarrow> distinct (map ref_EvidenceID rs) \<Longrightarrow>
   set (map ref_EvidenceID rs) \<inter> set seen = {} \<Longrightarrow> normalizeReferences rs seen = Ok rs"
  by (induction rs seen rule: normalizeReferences.induct)
    (auto simp: normal_reference_def normalizeEvidenceReasons_fixed)

lemma normalizeEvidenceBinding_normal:
  assumes "normalizeEvidenceBinding b = Ok n"
  shows "normal_evidence_binding n"
proof -
  obtain reasons refs where
    rs: "normalizeEvidenceReasons (eb_Reasons b) = Ok reasons"
      "normalizeReferences (eb_Evidence b) [] = Ok refs"
    using assms by (auto simp: normalizeEvidenceBinding_def Let_def split: if_splits sum.splits)
  then have "normal_codes reasons" "normal_references refs"
    using normalizeReferences_normal
    by (auto simp: normal_references_def dest: normalizeEvidenceReasons_normal)
  with rs assms show ?thesis
    by (auto simp: normalizeEvidenceBinding_def normal_evidence_binding_def Let_def
        split: if_splits)
qed

lemma normalizeEvidenceBinding_fixed:
  assumes "normal_evidence_binding b"
  shows "normalizeEvidenceBinding b = Ok b"
proof -
  have "normalizeEvidenceReasons (eb_Reasons b) = Ok (eb_Reasons b)"
    "normalizeReferences (eb_Evidence b) [] = Ok (eb_Evidence b)"
    using assms by (simp_all add: normal_evidence_binding_def normal_references_def
        normalizeEvidenceReasons_fixed normalizeReferences_fixed)
  with assms show ?thesis
    by (simp add: normalizeEvidenceBinding_def normal_evidence_binding_def Let_def UTC_fixed)
qed

lemma evidenceBindingsEqual_normal:
  assumes "normal_evidence_binding a" "normal_evidence_binding b"
  shows "evidenceBindingsEqual a b \<longleftrightarrow> a = b"
proof -
  have "list_all2 (\<lambda>l r. ref_EvidenceID l = ref_EvidenceID r \<and> ref_Status l = ref_Status r \<and>
      ref_Reasons l = ref_Reasons r) xs ys \<longleftrightarrow> xs = ys" for xs ys :: "EvidenceReference list"
    unfolding list_all2_conv_all_nth
    by (metis EvidenceReference.equality nth_equalityI unit.exhaust)
  moreover have "location (eb_QualifiedAt a) = location (eb_QualifiedAt b)"
    using assms by (simp add: normal_evidence_binding_def)
  ultimately show ?thesis
    by (auto simp: evidenceBindingsEqual_def go_time intro!: EvidenceSetBinding.equality time.expand)
qed

definition normal_policy_binding :: "PolicyBinding \<Rightarrow> bool" where
  "normal_policy_binding b \<longleftrightarrow> pb_PolicyID b \<noteq> [] \<and> TrimSpace (pb_PolicyID b) = pb_PolicyID b \<and>
     pb_Version b \<noteq> [] \<and> TrimSpace (pb_Version b) = pb_Version b \<and> policyHashPattern (pb_Hash b) \<and>
     TrimSpace (pb_Hash b) = pb_Hash b \<and> \<not> IsZero (pb_BoundAt b) \<and> location (pb_BoundAt b) = 0"

lemma normalizePolicyBinding_normal: "normalizePolicyBinding b = Ok n \<Longrightarrow> normal_policy_binding n"
  by (auto simp: normalizePolicyBinding_def normal_policy_binding_def Let_def split: if_splits)

lemma normalizePolicyBinding_fixed: "normal_policy_binding b \<Longrightarrow> normalizePolicyBinding b = Ok b"
  by (auto simp: normalizePolicyBinding_def normal_policy_binding_def Let_def UTC_fixed)

end
