(* ===== verification/Evaluation_History.thy ===== *)
theory Evaluation_History
  imports Evaluation_Outcomes Evaluation_Binding
begin

text \<open>
  Checkpoints, history entries and atomic mutations of the aggregate
  (\<open>src/evaluation/history.go\<close>), and the command language of the aggregate: every exported
  method that changes it is a command, and \<open>exec\<close> dispatches to the method's model.
\<close>

section \<open>Checkpoints\<close>

definition CreateCheckpoint :: "string \<Rightarrow> time \<Rightarrow> mutation" where
  "CreateCheckpoint name createdAt1 e =
     (if state e \<noteq> StateRunning then (e, Some ErrInvalidStateTransition)
      else let name = TrimSpace name in
        if name = [] then (e, Some ErrRuleIDRequired)
        else if IsZero createdAt1 then (e, Some ErrHistoryCaptureTimeRequired)
        else let createdAt1 = UTC createdAt1 in
          if startedAt e = None \<or> Before createdAt1 (the (startedAt e))
          then (e, Some ErrInvalidEvaluationHistoryEntry)
          else if map_of (checkpoints e) name \<noteq> None then (e, Some ErrCheckpointAlreadyExists)
          else let cp = \<lparr>cp_Name = name, cp_RuleOutcomes = ruleOutcomes e,
                         cp_Version = version e, cp_CreatedAt = createdAt1\<rparr>;
                   e = e\<lparr>checkpoints := (name, cp) # checkpoints e, version := version e + 1\<rparr>
               in (addDomainEvent
                     (EvaluationCheckpointCreatedEvent (agg_id e) (agg_sessionID e) name createdAt1
                       (version e)) e,
                   None))"

definition RollbackToCheckpoint :: "string \<Rightarrow> time \<Rightarrow> mutation" where
  "RollbackToCheckpoint name rolledBackAt e =
     (if state e \<noteq> StateRunning then (e, Some ErrInvalidStateTransition)
      else let name = TrimSpace name in
        case map_of (checkpoints e) name of
          None \<Rightarrow> (e, Some ErrCheckpointNotFound)
        | Some cp \<Rightarrow>
            if IsZero rolledBackAt then (e, Some ErrHistoryCaptureTimeRequired)
            else let rolledBackAt = UTC rolledBackAt in
              if startedAt e = None \<or> Before rolledBackAt (the (startedAt e)) \<or>
                 Before rolledBackAt (cp_CreatedAt cp)
              then (e, Some ErrInvalidEvaluationHistoryEntry)
              else let e = e\<lparr>ruleOutcomes := cp_RuleOutcomes cp, version := version e + 1\<rparr>
                   in (addDomainEvent
                         (EvaluationRolledBackEvent (agg_id e) (agg_sessionID e) name rolledBackAt
                           (version e)) e,
                       None))"

definition Checkpoints :: "EvaluationAggregate \<Rightarrow> EvaluationCheckpoint list" where
  "Checkpoints e = map (\<lambda>n. the (map_of (checkpoints e) n)) (sort (map fst (checkpoints e)))"

section \<open>History\<close>

definition validateEvaluationHistoryEntry ::
  "EvaluationHistoryEntry \<Rightarrow> evaluation_error option" where
  "validateEvaluationHistoryEntry h =
     (if h_EvaluationID h = Nil_uuid \<or> h_SessionID h = Nil_uuid \<or> h_Version h = 0 \<or>
         IsZero (h_RecordedAt h) \<or> \<not> result_IsValid (h_Result h)
      then Some ErrInvalidEvaluationHistoryEntry
      else case h_State h of StateOther _ \<Rightarrow> Some ErrInvalidEvaluationHistoryEntry | _ \<Rightarrow> None)"

definition history_entry :: "time \<Rightarrow> EvaluationAggregate \<Rightarrow> EvaluationHistoryEntry" where
  "history_entry recordedAt e =
     \<lparr>h_EvaluationID = agg_id e, h_SessionID = agg_sessionID e, h_Version = version e,
      h_State = state e, h_Result = result e, h_ReasonCodes = reasonCodes e,
      h_RequiredRuleIDs = requiredRuleIDs e, h_RuleOutcomes = ruleOutcomes e,
      h_RecordedAt = recordedAt\<rparr>"

definition RecordHistory :: "time \<Rightarrow> mutation" where
  "RecordHistory recordedAt e =
     (if IsZero recordedAt then (e, Some ErrHistoryCaptureTimeRequired)
      else let recordedAt = UTC recordedAt in
        if Before recordedAt (createdAt e) then (e, Some ErrInvalidEvaluationHistoryEntry)
        else if version e \<in> set (map h_Version (history e))
        then (e, Some (ErrorfVersion ErrEvaluationHistoryVersionExists (version e)))
        else let entry = history_entry recordedAt e in
          case validateEvaluationHistoryEntry entry of
            Some err \<Rightarrow> (e, Some err)
          | None \<Rightarrow>
              (addDomainEvent
                 (EvaluationHistoryRecordedEvent (agg_id e) (agg_sessionID e) (version e) recordedAt)
                 (e\<lparr>history := history e @ [entry]\<rparr>),
               None))"

definition HistoryAtVersion ::
  "EvaluationAggregate \<Rightarrow> u64 \<Rightarrow> evaluation_error + EvaluationHistoryEntry" where
  "HistoryAtVersion e v = (case find (\<lambda>h. h_Version h = v) (history e) of
      None \<Rightarrow> Err ErrEvaluationHistoryEntryNotFound | Some h \<Rightarrow> Ok h)"

section \<open>Atomic mutations\<close>

record evaluationMutableState =
  ms_State :: EvaluationState
  ms_Result :: VerificationResult
  ms_ReasonCodes :: "ReasonCode list"
  ms_RequiredRuleIDs :: "string list"
  ms_RuleOutcomes :: "RuleOutcome list"
  ms_StartedAt :: "time option"
  ms_CompletedAt :: "time option"
  ms_CancelledAt :: "time option"
  ms_ExpiredAt :: "time option"
  ms_Version :: u64
  ms_Checkpoints :: "(string \<times> EvaluationCheckpoint) list"
  ms_History :: "EvaluationHistoryEntry list"
  ms_Events :: "DomainEvent list"

definition captureMutableState :: "EvaluationAggregate \<Rightarrow> evaluationMutableState" where
  "captureMutableState e =
     \<lparr>ms_State = state e, ms_Result = result e, ms_ReasonCodes = reasonCodes e,
      ms_RequiredRuleIDs = requiredRuleIDs e, ms_RuleOutcomes = ruleOutcomes e,
      ms_StartedAt = startedAt e, ms_CompletedAt = completedAt e, ms_CancelledAt = cancelledAt e,
      ms_ExpiredAt = expiredAt e, ms_Version = version e, ms_Checkpoints = checkpoints e,
      ms_History = history e, ms_Events = domainEvents e\<rparr>"

definition restoreMutableState ::
  "evaluationMutableState \<Rightarrow> EvaluationAggregate \<Rightarrow> EvaluationAggregate" where
  "restoreMutableState s e =
     e\<lparr>state := ms_State s, result := ms_Result s, reasonCodes := ms_ReasonCodes s,
       requiredRuleIDs := ms_RequiredRuleIDs s, ruleOutcomes := ms_RuleOutcomes s,
       startedAt := ms_StartedAt s, completedAt := ms_CompletedAt s,
       cancelledAt := ms_CancelledAt s, expiredAt := ms_ExpiredAt s, version := ms_Version s,
       checkpoints := ms_Checkpoints s, history := ms_History s, domainEvents := ms_Events s\<rparr>"

text \<open>The mutation argument is a Go function value: \<open>None\<close> is \<open>nil\<close>.\<close>

definition ApplyAtomicMutation :: "time \<Rightarrow> mutation option \<Rightarrow> mutation" where
  "ApplyAtomicMutation occurredAt mutation e =
     (case mutation of
        None \<Rightarrow> (e, Some ErrMutationFunctionRequired)
      | Some mutate \<Rightarrow>
          let before = captureMutableState e in
          (case mutate e of
             (e, Some err) \<Rightarrow> (restoreMutableState before e, Some err)
           | (e, None) \<Rightarrow>
               (case RecordHistory occurredAt e of
                  (e, Some err) \<Rightarrow> (restoreMutableState before e, Some err)
                | (e, None) \<Rightarrow> (e, None))))"

section \<open>Commands\<close>

datatype command =
    CStart time
  | CComplete VerificationResult "ReasonCode list" time
  | CCancel string time
  | CExpire time
  | CRegister string time
  | CRecord RuleOutcome
  | CRecords "RuleOutcome list"
  | CRecordAtomic "RuleOutcome list"
  | CRecordBatch "RuleOutcome list" time
  | CReplace RuleOutcome time
  | CReplaceAtomic "RuleOutcomeReplacement list" time
  | CRemove string time
  | CRemoveIfPresent string time
  | CRemoveAtomic "string list" time
  | CRemoveAllIfPresent "string list" time
  | CReset time
  | CResetAtVersion u64 time
  | CBindEvidence EvidenceSetBinding
  | CBindPolicy PolicyBinding
  | CCheckpoint string time
  | CRollback string time
  | CHistory time
  | CAtomic time command

primrec exec :: "command \<Rightarrow> mutation" where
  "exec (CStart at) = Start at"
| "exec (CComplete r rs at) = CompleteAt r rs at"
| "exec (CCancel reason now) = Cancel reason now"
| "exec (CExpire at) = Expire at"
| "exec (CRegister rid at) = RegisterRequiredRuleAt rid at"
| "exec (CRecord o1) = RecordRuleOutcome o1"
| "exec (CRecords os) = RecordRuleOutcomes os"
| "exec (CRecordAtomic os) = RecordRuleOutcomesAtomic os"
| "exec (CRecordBatch os at) = RecordRuleOutcomeBatch os at"
| "exec (CReplace o1 at) = ReplaceRuleOutcome o1 at"
| "exec (CReplaceAtomic rs at) = ReplaceRuleOutcomesAtomic rs at"
| "exec (CRemove rid at) = RemoveRuleOutcome rid at"
| "exec (CRemoveIfPresent rid at) = RemoveRuleOutcomeIfPresent rid at"
| "exec (CRemoveAtomic rids at) = RemoveRuleOutcomesAtomic rids at"
| "exec (CRemoveAllIfPresent rids at) = RemoveRuleOutcomesIfPresent rids at"
| "exec (CReset at) = ResetRuleOutcomes at"
| "exec (CResetAtVersion v at) = ResetRuleOutcomesAtVersion v at"
| "exec (CBindEvidence b) = BindEvidenceSet b"
| "exec (CBindPolicy b) = BindVerificationPolicy b"
| "exec (CCheckpoint n at) = CreateCheckpoint n at"
| "exec (CRollback n at) = RollbackToCheckpoint n at"
| "exec (CHistory at) = RecordHistory at"
| "exec (CAtomic at c) = ApplyAtomicMutation at (Some (exec c))"

end
