(* ===== verification/Evaluation_Invariant.thy ===== *)
theory Evaluation_Invariant
  imports Evaluation_History
begin

text \<open>
  The invariant of the aggregate and the way it evolves. \<open>wf_evaluation\<close> collects what every reachable
  aggregate satisfies; \<open>extends e e'\<close> says that \<open>e'\<close> continues \<open>e\<close>: identity, creation time,
  start time and bindings persist, a terminal aggregate is frozen except for its history, and
  the new events form a gap-free continuation of the version. Every command preserves the
  first and respects the second, so the aggregate is an \<open>ordered_machine\<close>.
\<close>

section \<open>The invariant\<close>

definition utc :: "time \<Rightarrow> bool" where
  "utc t \<longleftrightarrow> location t = 0"

definition timeline_ok :: "EvaluationAggregate \<Rightarrow> bool" where
  "timeline_ok e \<longleftrightarrow>
     (\<forall>t. startedAt e = Some t \<longrightarrow> utc t \<and> \<not> IsZero t \<and> \<not> Before t (createdAt e)) \<and>
     (\<forall>t. expiredAt e = Some t \<longrightarrow> utc t \<and> \<not> IsZero t \<and> \<not> Before t (createdAt e)) \<and>
     (\<forall>t. cancelledAt e = Some t \<longrightarrow> utc t) \<and>
     (\<forall>t. completedAt e = Some t \<longrightarrow> utc t \<and> \<not> IsZero t \<and>
        (\<exists>s. startedAt e = Some s \<and> \<not> Before t s)) \<and>
     (case state e of
        StateCreated \<Rightarrow> startedAt e = None \<and> completedAt e = None \<and> cancelledAt e = None \<and>
          expiredAt e = None
      | StateRunning \<Rightarrow> startedAt e \<noteq> None \<and> completedAt e = None \<and> cancelledAt e = None \<and>
          expiredAt e = None
      | StateCompleted \<Rightarrow> startedAt e \<noteq> None \<and> completedAt e \<noteq> None \<and> cancelledAt e = None \<and>
          expiredAt e = None
      | StateCancelled \<Rightarrow> completedAt e = None \<and> cancelledAt e \<noteq> None \<and> expiredAt e = None \<and>
          cancellationReason e \<noteq> []
      | StateExpired \<Rightarrow> completedAt e = None \<and> cancelledAt e = None \<and> expiredAt e \<noteq> None
      | StateOther _ \<Rightarrow> False)"

definition result_ok :: "EvaluationAggregate \<Rightarrow> bool" where
  "result_ok e = (case state e of
      StateCompleted \<Rightarrow> result_IsValid (result e) \<and> result e \<noteq> ResultUnknown \<and>
        normal_codes (reasonCodes e) \<and> (result e = ResultVerified \<longleftrightarrow> reasonCodes e = []) \<and>
        RequiredRulesComplete e
    | StateExpired \<Rightarrow> result e = ResultSystemException \<and> reasonCodes e = [ReasonCodeEvaluationTimeout]
    | _ \<Rightarrow> result e = ResultUnknown \<and> reasonCodes e = [])"

definition required_ok :: "EvaluationAggregate \<Rightarrow> bool" where
  "required_ok e \<longleftrightarrow> distinct (requiredRuleIDs e) \<and>
     (\<forall>rid\<in>set (requiredRuleIDs e). rid \<noteq> [] \<and> TrimSpace rid = rid)"

definition checkpoint_ok :: "time option \<Rightarrow> string \<times> EvaluationCheckpoint \<Rightarrow> bool" where
  "checkpoint_ok st = (\<lambda>(n, cp). cp_Name cp = n \<and> n \<noteq> [] \<and> TrimSpace n = n \<and>
     \<not> IsZero (cp_CreatedAt cp) \<and> utc (cp_CreatedAt cp) \<and> st \<noteq> None \<and>
     wf_outcomes st (cp_RuleOutcomes cp))"

definition checkpoints_ok :: "EvaluationAggregate \<Rightarrow> bool" where
  "checkpoints_ok e \<longleftrightarrow> distinct (map fst (checkpoints e)) \<and>
     (\<forall>c\<in>set (checkpoints e). checkpoint_ok (startedAt e) c)"

definition history_ok :: "EvaluationAggregate \<Rightarrow> bool" where
  "history_ok e \<longleftrightarrow> distinct (map h_Version (history e)) \<and>
     (\<forall>h\<in>set (history e). validateEvaluationHistoryEntry h = None \<and>
        h_EvaluationID h = agg_id e \<and> h_SessionID h = agg_sessionID e)"

definition bindings_ok :: "EvaluationAggregate \<Rightarrow> bool" where
  "bindings_ok e \<longleftrightarrow>
     (\<forall>b. evidenceBinding e = Some b \<longrightarrow>
        normal_evidence_binding b \<and> eb_SessionID b = agg_sessionID e) \<and>
     (\<forall>b. policyBinding e = Some b \<longrightarrow>
        normal_policy_binding b \<and> \<not> Before (pb_BoundAt b) (createdAt e))"

definition identity_ok :: "EvaluationAggregate \<Rightarrow> bool" where
  "identity_ok e \<longleftrightarrow> agg_id e \<noteq> Nil_uuid \<and> agg_sessionID e \<noteq> Nil_uuid \<and>
     \<not> IsZero (createdAt e) \<and> utc (createdAt e)"

definition wf_evaluation :: "EvaluationAggregate \<Rightarrow> bool" where
  "wf_evaluation e \<longleftrightarrow> identity_ok e \<and> timeline_ok e \<and> result_ok e \<and> required_ok e \<and>
     wf_outcomes (startedAt e) (ruleOutcomes e) \<and> checkpoints_ok e \<and> history_ok e \<and> bindings_ok e"

section \<open>Evolution\<close>

definition is_history :: "DomainEvent \<Rightarrow> bool" where
  "is_history ev = (case ev of EvaluationHistoryRecordedEvent _ _ _ _ \<Rightarrow> True | _ \<Rightarrow> False)"

text \<open>The events a command appends: each carries the version the aggregate had after it; only
  a history event leaves the version as it is.\<close>

fun event_log :: "uuid \<Rightarrow> uuid \<Rightarrow> u64 \<Rightarrow> DomainEvent list \<Rightarrow> u64 \<Rightarrow> bool" where
  "event_log i s v [] v' \<longleftrightarrow> v' = v"
| "event_log i s v (ev # evs) v' \<longleftrightarrow>
     md_EvaluationID (Metadata ev) = i \<and> md_SessionID (Metadata ev) = s \<and>
     md_Version (Metadata ev) = (if is_history ev then v else v + 1) \<and>
     event_log i s (md_Version (Metadata ev)) evs v'"

text \<open>What a command leaves of a terminal aggregate.\<close>

definition frozen :: "EvaluationAggregate \<Rightarrow> EvaluationAggregate \<Rightarrow> bool" where
  "frozen e e' \<longleftrightarrow>
     e'\<lparr>domainEvents := [], history := []\<rparr> = e\<lparr>domainEvents := [], history := []\<rparr>"

definition extends :: "EvaluationAggregate \<Rightarrow> EvaluationAggregate \<Rightarrow> bool" where
  "extends e e' \<longleftrightarrow>
     agg_id e' = agg_id e \<and> agg_sessionID e' = agg_sessionID e \<and> createdAt e' = createdAt e \<and>
     (\<exists>evs. domainEvents e' = domainEvents e @ evs \<and>
        event_log (agg_id e) (agg_sessionID e) (version e) evs (version e')) \<and>
     (startedAt e \<noteq> None \<longrightarrow> startedAt e' = startedAt e) \<and>
     (evidenceBinding e \<noteq> None \<longrightarrow> evidenceBinding e' = evidenceBinding e) \<and>
     (policyBinding e \<noteq> None \<longrightarrow> policyBinding e' = policyBinding e) \<and>
     (state_IsTerminal (state e) \<longrightarrow> frozen e e')"

lemma event_log_append:
  "event_log i s u evs v \<Longrightarrow> event_log i s v evs' w \<Longrightarrow> event_log i s u (evs @ evs') w"
  by (induction evs arbitrary: u) auto

lemma frozen_refl [simp]: "frozen e e"
  by (simp add: frozen_def)

lemma frozen_trans: "frozen e e' \<Longrightarrow> frozen e' e'' \<Longrightarrow> frozen e e''"
  by (simp add: frozen_def)

lemma frozen_state: "frozen e e' \<Longrightarrow> state e' = state e"
  by (cases e, cases e') (simp add: frozen_def)

lemma extends_refl [simp]: "extends e e"
  by (auto simp: extends_def intro!: exI [of _ "[]"])

lemma utc_UTC [simp]: "utc (UTC t)"
  by (simp add: utc_def)

lemma extends_log:
  assumes "extends e e'"
  obtains evs where "domainEvents e' = domainEvents e @ evs"
    "event_log (agg_id e) (agg_sessionID e) (version e) evs (version e')"
  using assms unfolding extends_def by blast

lemma extends_same:
  "extends e e' \<Longrightarrow> agg_id e' = agg_id e \<and> agg_sessionID e' = agg_sessionID e \<and> createdAt e' = createdAt e"
  "extends e e' \<Longrightarrow> startedAt e \<noteq> None \<Longrightarrow> startedAt e' = startedAt e"
  "extends e e' \<Longrightarrow> evidenceBinding e \<noteq> None \<Longrightarrow> evidenceBinding e' = evidenceBinding e"
  "extends e e' \<Longrightarrow> policyBinding e \<noteq> None \<Longrightarrow> policyBinding e' = policyBinding e"
  "extends e e' \<Longrightarrow> state_IsTerminal (state e) \<Longrightarrow> frozen e e'"
  unfolding extends_def by simp_all

lemma extends_trans:
  assumes a: "extends e e'" and b: "extends e' e''"
  shows "extends e e''"
proof -
  obtain x where x: "domainEvents e' = domainEvents e @ x"
    "event_log (agg_id e) (agg_sessionID e) (version e) x (version e')"
    using a by (rule extends_log)
  obtain y where y: "domainEvents e'' = domainEvents e' @ y"
    "event_log (agg_id e') (agg_sessionID e') (version e') y (version e'')"
    using b by (rule extends_log)
  have "\<exists>evs. domainEvents e'' = domainEvents e @ evs \<and>
      event_log (agg_id e) (agg_sessionID e) (version e) evs (version e'')"
    using x y extends_same(1) [OF a] event_log_append by (intro exI [of _ "x @ y"]) auto
  moreover have "state_IsTerminal (state e) \<Longrightarrow> frozen e e''"
    using extends_same(5) [OF a] extends_same(5) [OF b] frozen_state [of e e'] frozen_trans by simp
  ultimately show ?thesis
    using extends_same(1-4) [OF a] extends_same(1-4) [OF b] unfolding extends_def by simp
qed

lemma extends_addDomainEvent:
  assumes "\<not> state_IsTerminal (state e)"
    and "agg_id e' = agg_id e" "agg_sessionID e' = agg_sessionID e" "createdAt e' = createdAt e"
    and "domainEvents e' = domainEvents e" "version e' = version e + 1"
    and "md_EvaluationID (Metadata ev) = agg_id e" "md_SessionID (Metadata ev) = agg_sessionID e"
      "md_Version (Metadata ev) = version e + 1" "\<not> is_history ev"
    and "startedAt e = None \<or> startedAt e' = startedAt e"
    and "evidenceBinding e = None \<or> evidenceBinding e' = evidenceBinding e"
    and "policyBinding e = None \<or> policyBinding e' = policyBinding e"
  shows "extends e (addDomainEvent ev e')"
  using assms by (auto simp: extends_def addDomainEvent_def)

section \<open>The commands keep the invariant and extend the aggregate\<close>

lemma RequiredRulesComplete_cong:
  "requiredRuleIDs e' = requiredRuleIDs e \<Longrightarrow> ruleOutcomes e' = ruleOutcomes e \<Longrightarrow>
   RequiredRulesComplete e' = RequiredRulesComplete e"
  by (simp add: RequiredRulesComplete_def MissingRequiredRuleIDs_def)

lemma wf_addDomainEvent [simp]: "wf_evaluation (addDomainEvent ev e) \<longleftrightarrow> wf_evaluation e"
proof -
  have "RequiredRulesComplete (addDomainEvent ev e) = RequiredRulesComplete e"
    by (rule RequiredRulesComplete_cong) (simp_all add: addDomainEvent_def)
  then show ?thesis
    by (simp add: wf_evaluation_def identity_ok_def timeline_ok_def result_ok_def required_ok_def
        checkpoints_ok_def history_ok_def bindings_ok_def addDomainEvent_def cong: EvaluationState.case_cong)
qed

text \<open>A command that only changes version, outcomes and checkpoints of a running aggregate.\<close>

lemma wf_running:
  assumes "wf_evaluation e" "state e = StateRunning" "wf_outcomes (startedAt e) os"
    "distinct (map fst cps)" "\<forall>c\<in>set cps. checkpoint_ok (startedAt e) c"
  shows "wf_evaluation (e\<lparr>ruleOutcomes := os, checkpoints := cps, version := v\<rparr>)"
  using assms
  by (simp add: wf_evaluation_def identity_ok_def timeline_ok_def result_ok_def required_ok_def
      checkpoints_ok_def history_ok_def bindings_ok_def)

lemma wf_running_outcomes:
  "wf_evaluation e \<Longrightarrow> state e = StateRunning \<Longrightarrow> wf_outcomes (startedAt e) os \<Longrightarrow>
   wf_evaluation (e\<lparr>ruleOutcomes := os, version := v\<rparr>)"
  using wf_running [of e os "checkpoints e" v] by (simp add: wf_evaluation_def checkpoints_ok_def)

definition keeps :: "EvaluationAggregate \<Rightarrow> EvaluationAggregate \<Rightarrow> bool" where
  "keeps e e' \<longleftrightarrow> wf_evaluation e' \<and> extends e e'"

lemma keeps_refl: "wf_evaluation e \<Longrightarrow> keeps e e"
  by (simp add: keeps_def)

lemma keeps_trans: "keeps e e' \<Longrightarrow> keeps e' e'' \<Longrightarrow> keeps e e''"
  by (auto simp: keeps_def intro: extends_trans)

lemmas wf_defs = wf_evaluation_def identity_ok_def timeline_ok_def result_ok_def required_ok_def
  checkpoints_ok_def history_ok_def bindings_ok_def

lemma keeps_addDomainEvent:
  assumes "wf_evaluation e'" "\<not> state_IsTerminal (state e)"
    and "agg_id e' = agg_id e" "agg_sessionID e' = agg_sessionID e" "createdAt e' = createdAt e"
    and "domainEvents e' = domainEvents e" "version e' = version e + 1"
    and "md_EvaluationID (Metadata ev) = agg_id e" "md_SessionID (Metadata ev) = agg_sessionID e"
      "md_Version (Metadata ev) = version e + 1" "\<not> is_history ev"
    and "startedAt e = None \<or> startedAt e' = startedAt e"
    and "evidenceBinding e = None \<or> evidenceBinding e' = evidenceBinding e"
    and "policyBinding e = None \<or> policyBinding e' = policyBinding e"
  shows "keeps e (addDomainEvent ev e')"
  unfolding keeps_def using assms(1) extends_addDomainEvent [OF assms(2-)] by simp

lemma wf_outcomes_unstarted [simp]: "wf_outcomes None os \<longleftrightarrow> os = []"
  by (cases os) (auto simp: wf_outcomes_def timely_def)

lemma checkpoint_unstarted [simp]: "\<not> checkpoint_ok None c"
  by (auto simp: checkpoint_ok_def split: prod.split)

lemma NewEvaluation_wf: "NewEvaluation i s at = Ok e \<Longrightarrow> wf_evaluation e"
  by (auto simp: NewEvaluation_def Let_def split: if_splits) (simp add: wf_defs utc_def)

lemma wf_Created:
  "wf_evaluation e \<Longrightarrow> state e = StateCreated \<Longrightarrow>
   startedAt e = None \<and> ruleOutcomes e = [] \<and> checkpoints e = []"
  by (cases "checkpoints e") (auto simp: wf_evaluation_def timeline_ok_def checkpoints_ok_def)

lemma wf_started:
  assumes "wf_evaluation e" "state e = StateCreated" "\<not> IsZero at" "\<not> Before at (createdAt e)"
  shows "wf_evaluation (e\<lparr>state := StateRunning, startedAt := Some (UTC at), version := v\<rparr>)"
  using assms wf_Created [OF assms(1,2)] by (simp add: wf_defs)

lemma Start_keeps: "wf_evaluation e \<Longrightarrow> keeps e (fst (Start at e))"
  using wf_Created [of e]
  by (simp add: Start_def Let_def keeps_refl)
    (auto simp: is_history_def wf_started intro!: keeps_addDomainEvent)

lemma completion_event_simps [simp]:
  "md_EvaluationID (Metadata (completion_event r nr at e)) = agg_id e"
  "md_SessionID (Metadata (completion_event r nr at e)) = agg_sessionID e"
  "md_Version (Metadata (completion_event r nr at e)) = version e"
  "\<not> is_history (completion_event r nr at e)"
  by (simp_all add: completion_event_def is_history_def split: VerificationResult.split)

definition completed :: "VerificationResult \<Rightarrow> ReasonCode list \<Rightarrow> time \<Rightarrow> EvaluationAggregate \<Rightarrow> EvaluationAggregate"
where
  "completed r nr at e = e\<lparr>state := StateCompleted, result := r, reasonCodes := nr,
     completedAt := Some (UTC at), version := version e + 1\<rparr>"

text \<open>\<open>CompleteAt\<close> succeeds exactly when all its guards hold.\<close>

definition completable :: "VerificationResult \<Rightarrow> ReasonCode list \<Rightarrow> time \<Rightarrow> EvaluationAggregate \<Rightarrow> bool" where
  "completable r nr at e \<longleftrightarrow> state e = StateRunning \<and> \<not> IsZero at \<and>
     (\<exists>s. startedAt e = Some s \<and> \<not> Before at s) \<and> result_IsValid r \<and> r \<noteq> ResultUnknown \<and>
     RequiredRulesComplete e \<and> (r = ResultVerified \<longleftrightarrow> nr = [])"

lemma CompleteAt_Ok:
  assumes "normalizeReasonCodes reasons = Ok nr" "completable r nr at e"
  shows "CompleteAt r reasons at e =
    (addDomainEvent (completion_event r nr (UTC at) (completed r nr at e)) (completed r nr at e), None)"
  using assms by (cases r) (auto simp: CompleteAt_def completable_def completed_def Let_def)

lemma CompleteAt_fails:
  assumes "normalizeReasonCodes reasons = Ok nr \<Longrightarrow> \<not> completable r nr at e"
    and "normalizeReasonCodes reasons = Ok nr \<or> (\<exists>err. normalizeReasonCodes reasons = Err err)"
  shows "\<exists>err. CompleteAt r reasons at e = (e, Some err)"
  using assms by (cases r; cases "startedAt e") (auto simp: CompleteAt_def completable_def)

lemma CompleteAt_cases:
  obtains nr where "normalizeReasonCodes reasons = Ok nr" "completable r nr at e"
    "CompleteAt r reasons at e =
      (addDomainEvent (completion_event r nr (UTC at) (completed r nr at e)) (completed r nr at e), None)"
  | err where "CompleteAt r reasons at e = (e, Some err)"
  using CompleteAt_Ok CompleteAt_fails by (metis sum.exhaust)

lemma wf_completed:
  assumes "wf_evaluation e" "completable r nr at e" "normal_codes nr"
  shows "wf_evaluation (completed r nr at e)"
proof -
  have "RequiredRulesComplete (completed r nr at e)"
    using assms(2) by (subst RequiredRulesComplete_cong [of _ e]) (simp_all add: completed_def completable_def)
  then show ?thesis
    using assms by (auto simp: wf_defs completed_def completable_def)
qed

lemma CompleteAt_keeps: "wf_evaluation e \<Longrightarrow> keeps e (fst (CompleteAt r reasons at e))"
proof (rule CompleteAt_cases [of reasons r at e])
  fix nr
  assume *: "wf_evaluation e" "normalizeReasonCodes reasons = Ok nr" "completable r nr at e" and
    eq: "CompleteAt r reasons at e =
      (addDomainEvent (completion_event r nr (UTC at) (completed r nr at e)) (completed r nr at e), None)"
  have "wf_evaluation (completed r nr at e)"
    using * by (intro wf_completed normalizeReasonCodes_normal)
  then show ?thesis
    using *(3) unfolding eq fst_conv
    by (intro keeps_addDomainEvent) (simp_all add: completed_def completable_def)
qed (simp add: keeps_refl)

lemma wf_cancelled:
  assumes "wf_evaluation e" "\<not> state_IsTerminal (state e)" "reason \<noteq> []"
  shows "wf_evaluation (e\<lparr>state := StateCancelled, cancelledAt := Some (UTC now), cancellationReason := reason,
    version := v\<rparr>)"
  using assms wf_Created [OF assms(1)] by (cases "state e") (simp_all add: wf_defs)

lemma Cancel_keeps: "wf_evaluation e \<Longrightarrow> keeps e (fst (Cancel reason now e))"
  by (simp add: Cancel_def Let_def keeps_refl)
    (auto simp: is_history_def wf_cancelled intro!: keeps_addDomainEvent)

lemma wf_expired:
  assumes "wf_evaluation e" "\<not> state_IsTerminal (state e)" "\<not> IsZero at" "\<not> Before at (createdAt e)"
  shows "wf_evaluation (e\<lparr>state := StateExpired, result := ResultSystemException,
    reasonCodes := [ReasonCodeEvaluationTimeout], expiredAt := Some (UTC at), version := v\<rparr>)"
  using assms wf_Created [OF assms(1)] by (cases "state e") (simp_all add: wf_defs)

lemma Expire_keeps: "wf_evaluation e \<Longrightarrow> keeps e (fst (Expire at e))"
  by (simp add: Expire_def Let_def keeps_refl)
    (auto simp: is_history_def wf_expired intro!: keeps_addDomainEvent)

lemma wf_registered:
  assumes "wf_evaluation e" "\<not> state_IsTerminal (state e)" "rid \<noteq> []" "TrimSpace rid = rid"
    "rid \<notin> set (requiredRuleIDs e)"
  shows "wf_evaluation (e\<lparr>requiredRuleIDs := requiredRuleIDs e @ [rid], version := v\<rparr>)"
  using assms by (cases "state e") (auto simp: wf_defs)

lemma RegisterRequiredRuleAt_keeps: "wf_evaluation e \<Longrightarrow> keeps e (fst (RegisterRequiredRuleAt rid at e))"
  by (simp add: RegisterRequiredRuleAt_def Let_def keeps_refl)
    (auto simp: is_history_def wf_registered intro!: keeps_addDomainEvent)

subsection \<open>Outcomes\<close>

lemma keeps_outcomes:
  assumes "wf_evaluation e" "state e = StateRunning" "wf_outcomes (startedAt e) os"
    and "md_EvaluationID (Metadata ev) = agg_id e" "md_SessionID (Metadata ev) = agg_sessionID e"
      "md_Version (Metadata ev) = version e + 1" "\<not> is_history ev"
  shows "keeps e (addDomainEvent ev (e\<lparr>ruleOutcomes := os, version := version e + 1\<rparr>))"
  using assms by (intro keeps_addDomainEvent wf_running_outcomes) simp_all

lemma wf_running_startedAt:
  "wf_evaluation e \<Longrightarrow> state e = StateRunning \<Longrightarrow> \<exists>s. startedAt e = Some s"
  by (auto simp: wf_evaluation_def timeline_ok_def)

lemma wf_outcomesD: "wf_evaluation e \<Longrightarrow> wf_outcomes (startedAt e) (ruleOutcomes e)"
  by (simp add: wf_evaluation_def)

lemma append_outcome_keeps:
  assumes "wf_evaluation e" "state e = StateRunning" "normal_outcome v" "timely (startedAt e) v"
    "RuleID v \<notin> RuleID ` set (ruleOutcomes e)"
  shows "keeps e (append_outcome v e)"
  unfolding append_outcome_def Let_def recorded_event_def using assms
  by (intro keeps_outcomes wf_outcomes_append wf_outcomesD)
    (simp_all add: wf_outcomes_def is_history_def)

lemma RecordRuleOutcome_keeps: "wf_evaluation e \<Longrightarrow> keeps e (fst (RecordRuleOutcome o1 e))"
proof (cases "normalizeRuleOutcome o1")
  case (Inr v)
  assume wf: "wf_evaluation e"
  note n = normalizeRuleOutcome_normal [OF Inr]
  show ?thesis
  proof (cases "outcome_for (ruleOutcomes e) (RuleID v)")
    case None
    then have "RuleID v \<notin> RuleID ` set (ruleOutcomes e)" by (simp add: outcome_for_None)
    then show ?thesis
      using None wf n append_outcome_keeps [of e v]
      by (auto simp: RecordRuleOutcome_def Inr RuleOutcomeByID_normal keeps_refl timely_def)
  qed (use wf n Inr in \<open>auto simp: RecordRuleOutcome_def RuleOutcomeByID_normal keeps_refl\<close>)
qed (simp add: RecordRuleOutcome_def keeps_refl)

lemma RecordRuleOutcomes_keeps: "wf_evaluation e \<Longrightarrow> keeps e (fst (RecordRuleOutcomes os e))"
proof (induction os arbitrary: e)
  case (Cons o1 os)
  obtain e' err where e': "RecordRuleOutcome o1 e = (e', err)" by force
  then have k: "keeps e e'" using RecordRuleOutcome_keeps [OF Cons.prems, of o1] by simp
  then show ?case
    using keeps_trans [OF k Cons.IH] e' by (cases err) (auto simp: keeps_def)
qed (simp add: keeps_refl)

lemma event_log_recorded_events:
  "event_log i s v (recorded_events i s v os) (v + of_nat (length os))"
proof (induction os arbitrary: v)
  case (Cons o1 os)
  then show ?case using Cons.IH [of "v + 1"] by (simp add: is_history_def add.assoc)
qed simp

lemma RecordRuleOutcomesAtomic_keeps: "wf_evaluation e \<Longrightarrow> keeps e (fst (RecordRuleOutcomesAtomic os e))"
proof -
  assume wf: "wf_evaluation e"
  have "keeps e (RecordRuleOutcomesAtomic_loop ns e)"
    if "validateRuleOutcomeBatch e os = Ok ns" "state e = StateRunning" for ns
  proof -
    let ?p = "filter (\<lambda>v. \<not> already_recorded e v) ns"
    note v = validateRuleOutcomeBatch_Ok [OF that(1)]
    have n: "list_all normal_outcome ns" using v(1) by (auto simp: list_all_iff acceptable_def)
    have "wf_outcomes (startedAt e) (ruleOutcomes e @ ?p)"
      by (rule wf_outcomes_pending [OF wf_outcomesD [OF wf] v(1,2)])
    then have "wf_evaluation (e\<lparr>ruleOutcomes := ruleOutcomes e @ ?p, version := version e + of_nat (length ?p)\<rparr>)"
      by (rule wf_running_outcomes [OF wf that(2)])
    then have "wf_evaluation (e\<lparr>ruleOutcomes := ruleOutcomes e @ ?p, version := version e + of_nat (length ?p),
      domainEvents := evs\<rparr>)" for evs
      by (simp add: wf_defs RequiredRulesComplete_def MissingRequiredRuleIDs_def that(2))
    then show ?thesis
      using event_log_recorded_events that(2)
      by (auto simp: keeps_def extends_def RecordRuleOutcomesAtomic_loop_eq [OF n v(2)] Let_def)
  qed
  then show ?thesis
    by (auto simp: RecordRuleOutcomesAtomic_def keeps_refl [OF wf] split: sum.split)
qed

lemma RecordRuleOutcomeBatch_keeps: "wf_evaluation e \<Longrightarrow> keeps e (fst (RecordRuleOutcomeBatch os at e))"
proof -
  assume wf: "wf_evaluation e"
  have "keeps e (addDomainEvent ev (e\<lparr>ruleOutcomes := ruleOutcomes e @
      filter (\<lambda>v. \<not> already_recorded e v) ns, version := version e + 1\<rparr>))"
    if "validateRuleOutcomeBatch e os = Ok ns" "state e = StateRunning"
      "md_EvaluationID (Metadata ev) = agg_id e" "md_SessionID (Metadata ev) = agg_sessionID e"
      "md_Version (Metadata ev) = version e + 1" "\<not> is_history ev" for ns ev
    using validateRuleOutcomeBatch_Ok [OF that(1)] that(2-) wf
    by (intro keeps_outcomes wf_outcomes_pending wf_outcomesD) simp_all
  then show ?thesis
    by (auto simp: RecordRuleOutcomeBatch_def Let_def is_history_def keeps_refl [OF wf]
        split: sum.split)
qed

lemma ReplaceRuleOutcome_keeps: "wf_evaluation e \<Longrightarrow> keeps e (fst (ReplaceRuleOutcome o1 at e))"
proof (cases "normalizeRuleOutcome o1")
  case (Inr v)
  assume wf: "wf_evaluation e"
  note n = normalizeRuleOutcome_normal [OF Inr]
  have "wf_outcomes (startedAt e) ((ruleOutcomes e)[i := v])"
    if "ruleOutcomeIndex (ruleOutcomes e) (RuleID v) = Some i" "timely (startedAt e) v" for i
    using wf_outcomes_update [OF wf_outcomesD [OF wf] n that(2,1)] .
  then show ?thesis
    using wf Inr
    by (cases "ruleOutcomeIndex (ruleOutcomes e) (RuleID v)")
      (auto simp: ReplaceRuleOutcome_def Let_def keeps_refl timely_def is_history_def
        intro!: keeps_outcomes)
qed (simp add: ReplaceRuleOutcome_def keeps_refl Let_def)

lemma ReplaceRuleOutcomesAtomic_keeps:
  "wf_evaluation e \<Longrightarrow> keeps e (fst (ReplaceRuleOutcomesAtomic rs at e))"
proof -
  assume wf: "wf_evaluation e"
  have "wf_outcomes (startedAt e) (foldl set_outcome (ruleOutcomes e) (map snd (filter P
      (map (\<lambda>rid. (f rid, the (byID rid))) (sort ids)))))"
    if loop: "ReplaceRuleOutcomesAtomic_loop e at' rs Map.empty [] = Ok (byID, ids)"
      and "startedAt e \<noteq> None" for byID ids at' P and f :: "string \<Rightarrow> RuleOutcome"
  proof -
    from ReplaceRuleOutcomesAtomic_loop_Ok [OF loop that(2)]
    have "\<forall>rid\<in>set ids. normal_outcome (the (byID rid)) \<and> timely (startedAt e) (the (byID rid))"
      by auto
    then show ?thesis by (intro wf_outcomes_set_outcomes wf_outcomesD wf) auto
  qed
  then show ?thesis
    by (auto simp: ReplaceRuleOutcomesAtomic_def Let_def keeps_refl [OF wf] is_history_def wf
        intro!: keeps_outcomes split: sum.split)
qed

lemma RemoveRuleOutcome_keeps: "wf_evaluation e \<Longrightarrow> keeps e (fst (RemoveRuleOutcome rid at e))"
  using wf_outcomes_remove [OF wf_outcomesD, of e]
  by (auto simp: RemoveRuleOutcome_def Let_def keeps_refl is_history_def
      intro!: keeps_outcomes split: option.split)

lemma RemoveRuleOutcomeIfPresent_keeps:
  "wf_evaluation e \<Longrightarrow> keeps e (fst (RemoveRuleOutcomeIfPresent rid at e))"
  by (auto simp: RemoveRuleOutcomeIfPresent_def Let_def keeps_refl RemoveRuleOutcome_keeps)

lemma RemoveRuleOutcomesAtomic_keeps: "wf_evaluation e \<Longrightarrow> keeps e (fst (RemoveRuleOutcomesAtomic rids at e))"
  using wf_outcomes_filter [OF wf_outcomesD, of e]
  by (auto simp: RemoveRuleOutcomesAtomic_def Let_def keeps_refl is_history_def
      intro!: keeps_outcomes split: sum.split)

lemma RemoveRuleOutcomesIfPresent_keeps:
  "wf_evaluation e \<Longrightarrow> keeps e (fst (RemoveRuleOutcomesIfPresent rids at e))"
  by (auto simp: RemoveRuleOutcomesIfPresent_def Let_def keeps_refl RemoveRuleOutcomesAtomic_keeps
      split: sum.split)

lemma ResetRuleOutcomes_keeps: "wf_evaluation e \<Longrightarrow> keeps e (fst (ResetRuleOutcomes at e))"
  by (auto simp: ResetRuleOutcomes_def Let_def keeps_refl is_history_def intro!: keeps_outcomes)

lemma ResetRuleOutcomesAtVersion_keeps:
  "wf_evaluation e \<Longrightarrow> keeps e (fst (ResetRuleOutcomesAtVersion v at e))"
  by (auto simp: ResetRuleOutcomesAtVersion_def keeps_refl ResetRuleOutcomes_keeps)

subsection \<open>Bindings, checkpoints and history\<close>

lemma wf_evidence_bound:
  assumes "wf_evaluation e" "normal_evidence_binding b" "eb_SessionID b = agg_sessionID e"
  shows "wf_evaluation (e\<lparr>evidenceBinding := Some b, version := v\<rparr>)"
  using assms by (simp add: wf_defs RequiredRulesComplete_def MissingRequiredRuleIDs_def
      split: EvaluationState.splits)

lemma BindEvidenceSet_keeps: "wf_evaluation e \<Longrightarrow> keeps e (fst (BindEvidenceSet b e))"
proof (cases "normalizeEvidenceBinding b")
  case (Inr n)
  assume "wf_evaluation e"
  then show ?thesis
    using Inr normalizeEvidenceBinding_normal [OF Inr]
    by (auto simp: BindEvidenceSet_def Let_def keeps_refl is_history_def wf_evidence_bound
        intro!: keeps_addDomainEvent split: option.split)
qed (simp add: BindEvidenceSet_def keeps_refl)

lemma wf_policy_bound:
  assumes "wf_evaluation e" "normal_policy_binding b" "\<not> Before (pb_BoundAt b) (createdAt e)"
  shows "wf_evaluation (e\<lparr>policyBinding := Some b, version := v\<rparr>)"
  using assms by (simp add: wf_defs RequiredRulesComplete_def MissingRequiredRuleIDs_def
      split: EvaluationState.splits)

lemma BindVerificationPolicy_keeps: "wf_evaluation e \<Longrightarrow> keeps e (fst (BindVerificationPolicy b e))"
proof (cases "normalizePolicyBinding b")
  case (Inr n)
  assume "wf_evaluation e"
  then show ?thesis
    using Inr normalizePolicyBinding_normal [OF Inr]
    by (auto simp: BindVerificationPolicy_def Let_def keeps_refl is_history_def wf_policy_bound
        intro!: keeps_addDomainEvent split: option.split)
qed (simp add: BindVerificationPolicy_def keeps_refl)

lemma wf_checkpointed:
  assumes "wf_evaluation e" "state e = StateRunning" "checkpoint_ok (startedAt e) (n, cp)"
    "map_of (checkpoints e) n = None"
  shows "wf_evaluation (e\<lparr>checkpoints := (n, cp) # checkpoints e, version := v\<rparr>)"
  using wf_running [of e "ruleOutcomes e" "(n, cp) # checkpoints e" v] assms
  by (simp add: wf_evaluation_def checkpoints_ok_def map_of_eq_None_iff)

lemma CreateCheckpoint_keeps: "wf_evaluation e \<Longrightarrow> keeps e (fst (CreateCheckpoint n at e))"
  using wf_outcomesD [of e]
  by (auto simp: CreateCheckpoint_def Let_def keeps_refl is_history_def checkpoint_ok_def
      intro!: keeps_addDomainEvent wf_checkpointed)

lemma checkpoint_outcomes:
  "wf_evaluation e \<Longrightarrow> map_of (checkpoints e) n = Some cp \<Longrightarrow>
   wf_outcomes (startedAt e) (cp_RuleOutcomes cp)"
  by (auto simp: wf_evaluation_def checkpoints_ok_def checkpoint_ok_def dest!: map_of_SomeD)

lemma RollbackToCheckpoint_keeps: "wf_evaluation e \<Longrightarrow> keeps e (fst (RollbackToCheckpoint n at e))"
  by (auto simp: RollbackToCheckpoint_def Let_def keeps_refl is_history_def
      intro!: keeps_outcomes checkpoint_outcomes split: option.split)

lemma wf_history:
  assumes "wf_evaluation e" "validateEvaluationHistoryEntry h = None" "h_EvaluationID h = agg_id e"
    "h_SessionID h = agg_sessionID e" "h_Version h \<notin> set (map h_Version (history e))"
  shows "wf_evaluation (e\<lparr>history := history e @ [h]\<rparr>)"
proof -
  have "RequiredRulesComplete (e\<lparr>history := history e @ [h]\<rparr>) = RequiredRulesComplete e"
    by (rule RequiredRulesComplete_cong) simp_all
  then show ?thesis
    using assms by (auto simp: wf_defs split: EvaluationState.splits)
qed

lemma RecordHistory_keeps: "wf_evaluation e \<Longrightarrow> keeps e (fst (RecordHistory at e))"
proof -
  assume wf: "wf_evaluation e"
  have "keeps e (addDomainEvent (EvaluationHistoryRecordedEvent (agg_id e) (agg_sessionID e) (version e) t)
      (e\<lparr>history := history e @ [history_entry t e]\<rparr>))"
    if "version e \<notin> set (map h_Version (history e))"
      "validateEvaluationHistoryEntry (history_entry t e) = None" for t
  proof -
    have "wf_evaluation (e\<lparr>history := history e @ [history_entry t e]\<rparr>)"
      using that by (intro wf_history wf) (simp_all add: history_entry_def)
    moreover have "extends e (addDomainEvent
        (EvaluationHistoryRecordedEvent (agg_id e) (agg_sessionID e) (version e) t)
        (e\<lparr>history := history e @ [history_entry t e]\<rparr>))"
      by (simp add: extends_def addDomainEvent_def is_history_def frozen_def)
    ultimately show ?thesis by (simp add: keeps_def)
  qed
  then show ?thesis
    by (auto simp: RecordHistory_def Let_def keeps_refl [OF wf] split: option.split)
qed

subsection \<open>Atomic mutations\<close>

text \<open>What \<open>restoreMutableState\<close> puts back, and what it leaves as the mutation made it.\<close>

lemma restoreMutableState_eq:
  assumes "agg_id e' = agg_id e" "agg_sessionID e' = agg_sessionID e" "createdAt e' = createdAt e"
  shows "restoreMutableState (captureMutableState e) e' =
    e\<lparr>cancellationReason := cancellationReason e', evidenceBinding := evidenceBinding e',
      policyBinding := policyBinding e'\<rparr>"
  using assms by (simp add: restoreMutableState_def captureMutableState_def)

lemma restore_keeps:
  assumes "wf_evaluation e" "keeps e e'"
  shows "keeps e (restoreMutableState (captureMutableState e) e')"
proof -
  let ?r = "e\<lparr>cancellationReason := cancellationReason e', evidenceBinding := evidenceBinding e',
      policyBinding := policyBinding e'\<rparr>"
  have ext: "extends e e'" and wf': "wf_evaluation e'" using assms(2) by (simp_all add: keeps_def)
  note same = extends_same(1) [OF ext]
  have terminal: "cancellationReason e' = cancellationReason e" if "state_IsTerminal (state e)"
    using extends_same(5) [OF ext that] by (cases e, cases e') (simp add: frozen_def)
  have r: "restoreMutableState (captureMutableState e) e' = ?r"
    using same by (intro restoreMutableState_eq) simp_all
  have "RequiredRulesComplete ?r = RequiredRulesComplete e"
    by (rule RequiredRulesComplete_cong) simp_all
  moreover have "bindings_ok ?r" using wf' same by (simp add: wf_evaluation_def bindings_ok_def)
  moreover have "timeline_ok ?r"
    using assms(1) terminal by (simp add: wf_evaluation_def timeline_ok_def split: EvaluationState.splits)
  ultimately have "wf_evaluation ?r"
    using assms(1) by (simp add: wf_evaluation_def identity_ok_def result_ok_def required_ok_def
        checkpoints_ok_def history_ok_def split: EvaluationState.splits)
  moreover have "extends e ?r"
    unfolding extends_def
    using extends_same(3-5) [OF ext] terminal
    by (cases e, cases e') (auto simp: frozen_def)
  ultimately show ?thesis unfolding r by (simp add: keeps_def)
qed

lemma ApplyAtomicMutation_keeps:
  assumes "wf_evaluation e" "keeps e (fst (m e))"
  shows "keeps e (fst (ApplyAtomicMutation at (Some m) e))"
proof -
  obtain e1 err where m: "m e = (e1, err)" by force
  obtain e2 err2 where h: "RecordHistory at e1 = (e2, err2)" by force
  have k1: "keeps e e1" using assms(2) m by simp
  then have "keeps e e2"
    using RecordHistory_keeps [of e1 at] h by (auto simp: keeps_def intro: keeps_trans extends_trans)
  then show ?thesis
    using restore_keeps [OF assms(1)] k1
    by (auto simp: ApplyAtomicMutation_def Let_def m h split: option.split)
qed

section \<open>The aggregate as a machine\<close>

lemmas command_keeps = Start_keeps CompleteAt_keeps Cancel_keeps Expire_keeps
  RegisterRequiredRuleAt_keeps RecordRuleOutcome_keeps RecordRuleOutcomes_keeps
  RecordRuleOutcomesAtomic_keeps RecordRuleOutcomeBatch_keeps ReplaceRuleOutcome_keeps
  ReplaceRuleOutcomesAtomic_keeps RemoveRuleOutcome_keeps RemoveRuleOutcomeIfPresent_keeps
  RemoveRuleOutcomesAtomic_keeps RemoveRuleOutcomesIfPresent_keeps ResetRuleOutcomes_keeps
  ResetRuleOutcomesAtVersion_keeps BindEvidenceSet_keeps BindVerificationPolicy_keeps
  CreateCheckpoint_keeps RollbackToCheckpoint_keeps RecordHistory_keeps

lemma exec_keeps: "wf_evaluation e \<Longrightarrow> keeps e (fst (exec c e))"
  by (induction c arbitrary: e) (simp_all add: command_keeps ApplyAtomicMutation_keeps)

interpretation agg: ordered_machine exec wf_evaluation extends
  by unfold_locales (use exec_keeps in \<open>auto simp: keeps_def intro: extends_trans\<close>)

end
