(* ===== verification/Evaluation_Snapshot.thy ===== *)
theory Evaluation_Snapshot
  imports Evaluation_Invariant
begin

text \<open>
  The persistence boundary of the aggregate (\<open>src/evaluation/snapshot.go\<close>): taking a snapshot,
  validating it, rebuilding an aggregate from it, and the decision trace. The lemmas show that a
  snapshot of a well-formed aggregate validates and rebuilds it up to its pending events.
\<close>

record EvaluationSnapshot =
  sn_EvaluationID :: uuid
  sn_SessionID :: uuid
  sn_State :: EvaluationState
  sn_Result :: VerificationResult
  sn_ReasonCodes :: "ReasonCode list"
  sn_CreatedAt :: time
  sn_StartedAt :: "time option"
  sn_CompletedAt :: "time option"
  sn_CancelledAt :: "time option"
  sn_ExpiredAt :: "time option"
  sn_CancellationReason :: string
  sn_Version :: u64
  sn_RequiredRuleIDs :: "string list"
  sn_RuleOutcomes :: "RuleOutcome list"
  sn_Checkpoints :: "EvaluationCheckpoint list"
  sn_History :: "EvaluationHistoryEntry list"
  sn_EvidenceBinding :: "EvidenceSetBinding option"
  sn_PolicyBinding :: "PolicyBinding option"

definition Snapshot :: "EvaluationAggregate \<Rightarrow> EvaluationSnapshot" where
  "Snapshot e =
     \<lparr>sn_EvaluationID = agg_id e, sn_SessionID = agg_sessionID e, sn_State = state e,
      sn_Result = result e, sn_ReasonCodes = reasonCodes e, sn_CreatedAt = createdAt e,
      sn_StartedAt = startedAt e, sn_CompletedAt = completedAt e, sn_CancelledAt = cancelledAt e,
      sn_ExpiredAt = expiredAt e, sn_CancellationReason = cancellationReason e,
      sn_Version = version e, sn_RequiredRuleIDs = requiredRuleIDs e,
      sn_RuleOutcomes = ruleOutcomes e, sn_Checkpoints = Checkpoints e, sn_History = history e,
      sn_EvidenceBinding = evidenceBinding e, sn_PolicyBinding = policyBinding e\<rparr>"

text \<open>The switch over the state: the fields a state allows and requires.\<close>

definition snapshot_state_ok :: "EvaluationSnapshot \<Rightarrow> bool" where
  "snapshot_state_ok s = (case sn_State s of
      StateCreated \<Rightarrow> \<not> (sn_StartedAt s \<noteq> None \<or> sn_CompletedAt s \<noteq> None \<or> sn_CancelledAt s \<noteq> None \<or>
        sn_ExpiredAt s \<noteq> None)
    | StateRunning \<Rightarrow> \<not> (sn_StartedAt s = None \<or> sn_CompletedAt s \<noteq> None \<or> sn_CancelledAt s \<noteq> None \<or>
        sn_ExpiredAt s \<noteq> None)
    | StateCompleted \<Rightarrow> \<not> (sn_StartedAt s = None \<or> sn_CompletedAt s = None \<or> sn_Result s = ResultUnknown)
    | StateCancelled \<Rightarrow> \<not> (sn_CancelledAt s = None \<or> sn_CancellationReason s = [])
    | StateExpired \<Rightarrow> \<not> (sn_ExpiredAt s = None)
    | StateOther _ \<Rightarrow> False)"

definition is_Err :: "'e + 'a \<Rightarrow> bool" where
  "is_Err r = (case r of Inl _ \<Rightarrow> True | Inr _ \<Rightarrow> False)"

definition validateEvaluationSnapshot :: "EvaluationSnapshot \<Rightarrow> evaluation_error option" where
  "validateEvaluationSnapshot s =
     (if sn_EvaluationID s = Nil_uuid \<or> sn_SessionID s = Nil_uuid then Some ErrInvalidEvaluationSnapshot
      else if sn_Version s = 0 then Some ErrSnapshotVersionRequired
      else if IsZero (sn_CreatedAt s) \<or> \<not> result_IsValid (sn_Result s)
      then Some ErrInvalidEvaluationSnapshot
      else if \<not> snapshot_state_ok s then Some ErrInvalidEvaluationSnapshot
      else if list_ex (\<lambda>o1. is_Err (normalizeRuleOutcome o1)) (sn_RuleOutcomes s)
      then Some ErrInvalidEvaluationSnapshot
      else if list_ex (\<lambda>h. validateEvaluationHistoryEntry h \<noteq> None) (sn_History s)
      then Some ErrInvalidEvaluationSnapshot
      else if (case sn_EvidenceBinding s of None \<Rightarrow> False | Some b \<Rightarrow>
                 (case normalizeEvidenceBinding b of Inl _ \<Rightarrow> True
                  | Inr n \<Rightarrow> eb_SessionID n \<noteq> sn_SessionID s))
      then Some ErrInvalidEvaluationSnapshot
      else if (case sn_PolicyBinding s of None \<Rightarrow> False | Some b \<Rightarrow>
                 (case normalizePolicyBinding b of Inl _ \<Rightarrow> True
                  | Inr n \<Rightarrow> Before (pb_BoundAt n) (sn_CreatedAt s)))
      then Some ErrInvalidEvaluationSnapshot
      else None)"

fun rehydrate_checkpoints ::
  "EvaluationCheckpoint list \<Rightarrow> (string \<times> EvaluationCheckpoint) list \<Rightarrow>
   evaluation_error + (string \<times> EvaluationCheckpoint) list" where
  "rehydrate_checkpoints [] cps = Ok cps"
| "rehydrate_checkpoints (cp # rest) cps =
     (if cp_Name cp = [] \<or> IsZero (cp_CreatedAt cp) then Err ErrInvalidEvaluationSnapshot
      else if map_of cps (cp_Name cp) \<noteq> None then Err ErrInvalidEvaluationSnapshot
      else rehydrate_checkpoints rest ((cp_Name cp, cp) # cps))"

definition RehydrateEvaluation :: "EvaluationSnapshot \<Rightarrow> evaluation_error + EvaluationAggregate" where
  "RehydrateEvaluation s =
     (case validateEvaluationSnapshot s of
        Some err \<Rightarrow> Err err
      | None \<Rightarrow> (case rehydrate_checkpoints (sn_Checkpoints s) [] of
          Inl err \<Rightarrow> Err err
        | Inr cps \<Rightarrow> Ok
            \<lparr>agg_id = sn_EvaluationID s, agg_sessionID = sn_SessionID s, state = sn_State s,
             result = sn_Result s, reasonCodes = sn_ReasonCodes s,
             createdAt = UTC (sn_CreatedAt s), startedAt = sn_StartedAt s,
             completedAt = sn_CompletedAt s, cancelledAt = sn_CancelledAt s,
             expiredAt = sn_ExpiredAt s, cancellationReason = sn_CancellationReason s,
             version = sn_Version s, domainEvents = [], ruleOutcomes = sn_RuleOutcomes s,
             requiredRuleIDs = sn_RequiredRuleIDs s, checkpoints = cps,
             history = sn_History s, evidenceBinding = sn_EvidenceBinding s,
             policyBinding = sn_PolicyBinding s\<rparr>))"

record DecisionTrace =
  tr_EvaluationID :: uuid
  tr_SessionID :: uuid
  tr_Version :: u64
  tr_State :: EvaluationState
  tr_Result :: VerificationResult
  tr_ReasonCodes :: "ReasonCode list"
  tr_RequiredRuleIDs :: "string list"
  tr_MissingRuleIDs :: "string list"
  tr_RuleOutcomes :: "RuleOutcome list"
  tr_CreatedAt :: time
  tr_StartedAt :: "time option"
  tr_CompletedAt :: "time option"
  tr_ExpiredAt :: "time option"
  tr_EvidenceBinding :: "EvidenceSetBinding option"
  tr_PolicyBinding :: "PolicyBinding option"

definition DecisionTrace :: "EvaluationAggregate \<Rightarrow> DecisionTrace" where
  "DecisionTrace e =
     \<lparr>tr_EvaluationID = agg_id e, tr_SessionID = agg_sessionID e, tr_Version = version e,
      tr_State = state e, tr_Result = result e, tr_ReasonCodes = reasonCodes e,
      tr_RequiredRuleIDs = requiredRuleIDs e, tr_MissingRuleIDs = MissingRequiredRuleIDs e,
      tr_RuleOutcomes = ruleOutcomes e, tr_CreatedAt = createdAt e, tr_StartedAt = startedAt e,
      tr_CompletedAt = completedAt e, tr_ExpiredAt = expiredAt e,
      tr_EvidenceBinding = evidenceBinding e, tr_PolicyBinding = policyBinding e\<rparr>"

section \<open>Checkpoints\<close>

lemma rehydrate_checkpoints_Ok:
  assumes "distinct (map cp_Name cps @ map fst acc)"
    "\<forall>cp\<in>set cps. cp_Name cp \<noteq> [] \<and> \<not> IsZero (cp_CreatedAt cp)"
  shows "rehydrate_checkpoints cps acc = Ok (rev (map (\<lambda>cp. (cp_Name cp, cp)) cps) @ acc)"
  using assms by (induction cps arbitrary: acc) (auto simp: map_of_eq_None_iff)

lemma checkpoint_of_name:
  assumes "checkpoints_ok e" "n \<in> fst ` set (checkpoints e)"
  shows "cp_Name (the (map_of (checkpoints e) n)) = n"
    "checkpoint_ok (startedAt e) (n, the (map_of (checkpoints e) n))"
proof -
  obtain cp where "map_of (checkpoints e) n = Some cp"
    using assms(2) by (metis map_of_eq_None_iff option.exhaust_sel)
  then show "cp_Name (the (map_of (checkpoints e) n)) = n"
    "checkpoint_ok (startedAt e) (n, the (map_of (checkpoints e) n))"
    using assms(1) by (auto simp: checkpoints_ok_def checkpoint_ok_def dest!: map_of_SomeD)
qed

lemma Checkpoints_names:
  "checkpoints_ok e \<Longrightarrow> map cp_Name (Checkpoints e) = sort (map fst (checkpoints e))"
  by (auto simp: Checkpoints_def intro!: map_idI checkpoint_of_name(1))

lemma map_of_self:
  "map_of (map (\<lambda>n. (n, the (m n))) ns) = (\<lambda>n. if n \<in> set ns then Some (the (m n)) else None)"
  by (induction ns) auto

lemma rehydrate_Checkpoints:
  assumes "checkpoints_ok e"
  obtains cps where "rehydrate_checkpoints (Checkpoints e) [] = Ok cps"
    "map_of cps = map_of (checkpoints e)" "distinct (map fst cps)"
proof
  let ?pairs = "map (\<lambda>cp. (cp_Name cp, cp)) (Checkpoints e)"
  have d: "distinct (map cp_Name (Checkpoints e))"
    using assms by (simp add: Checkpoints_names checkpoints_ok_def)
  show "rehydrate_checkpoints (Checkpoints e) [] = Ok (rev ?pairs)"
    using d assms checkpoint_of_name(2) [OF assms]
    by (subst rehydrate_checkpoints_Ok) (auto simp: Checkpoints_def checkpoint_ok_def image_image)
  show "distinct (map fst (rev ?pairs))"
    using d by (simp add: rev_map [symmetric] o_def)
  have "?pairs = map (\<lambda>n. (n, the (map_of (checkpoints e) n))) (sort (map fst (checkpoints e)))"
    using checkpoint_of_name(1) [OF assms] by (simp add: Checkpoints_def)
  then have "map_of ?pairs n = map_of (checkpoints e) n" for n
    using map_of_eq_None_iff [of "checkpoints e" n]
    by (cases "map_of (checkpoints e) n") (simp_all add: map_of_self)
  moreover have "map_of (rev ?pairs) = map_of ?pairs"
    using d by (subst map_of_inject_set) (simp_all add: o_def rev_map [symmetric])
  ultimately show "map_of (rev ?pairs) = map_of (checkpoints e)" by auto
qed

section \<open>Round trip\<close>

lemma wf_snapshot_state: "wf_evaluation e \<Longrightarrow> snapshot_state_ok (Snapshot e)"
  by (cases "state e") (auto simp: wf_evaluation_def timeline_ok_def result_ok_def
      snapshot_state_ok_def Snapshot_def)

lemma wf_result_valid: "wf_evaluation e \<Longrightarrow> result_IsValid (result e)"
  by (cases "state e") (auto simp: wf_evaluation_def timeline_ok_def result_ok_def)

lemma validate_Snapshot:
  assumes "wf_evaluation e" "version e \<noteq> 0"
  shows "validateEvaluationSnapshot (Snapshot e) = None"
proof -
  have "\<forall>o1\<in>set (ruleOutcomes e). \<not> is_Err (normalizeRuleOutcome o1)"
    using wf_outcomesD [OF assms(1)]
    by (simp add: wf_outcomes_def is_Err_def normalizeRuleOutcome_fixed)
  moreover have "\<forall>h\<in>set (history e). validateEvaluationHistoryEntry h = None"
    using assms(1) by (simp add: wf_evaluation_def history_ok_def)
  moreover have "identity_ok e" "bindings_ok e" using assms(1) by (simp_all add: wf_evaluation_def)
  ultimately show ?thesis
    using wf_snapshot_state [OF assms(1)] wf_result_valid [OF assms(1)] assms(2)
    by (simp add: validateEvaluationSnapshot_def identity_ok_def bindings_ok_def Snapshot_def
        list_ex_iff normalizeEvidenceBinding_fixed normalizePolicyBinding_fixed split: option.splits)
qed

lemma rehydrate_Snapshot:
  assumes "wf_evaluation e" "version e \<noteq> 0"
  obtains cps where "RehydrateEvaluation (Snapshot e) = Ok (e\<lparr>domainEvents := [], checkpoints := cps\<rparr>)"
    "map_of cps = map_of (checkpoints e)" "distinct (map fst cps)"
proof -
  have "checkpoints_ok e" "location (createdAt e) = 0"
    using assms(1) by (simp_all add: wf_evaluation_def identity_ok_def utc_def)
  from rehydrate_Checkpoints [OF this(1)] obtain cps where
    cps: "rehydrate_checkpoints (Checkpoints e) [] = Ok cps"
      "map_of cps = map_of (checkpoints e)" "distinct (map fst cps)" .
  have "RehydrateEvaluation (Snapshot e) = Ok (e\<lparr>domainEvents := [], checkpoints := cps\<rparr>)"
    using validate_Snapshot [OF assms] cps(1) \<open>location (createdAt e) = 0\<close>
    by (simp add: RehydrateEvaluation_def) (simp add: Snapshot_def UTC_fixed)
  with cps(2,3) that show thesis by blast
qed

lemma Checkpoints_map_of:
  assumes "map_of cps = map_of (checkpoints e)" "distinct (map fst cps)" "distinct (map fst (checkpoints e))"
  shows "Checkpoints (e\<lparr>checkpoints := cps\<rparr>) = Checkpoints e"
proof -
  have "set (map fst cps) = set (map fst (checkpoints e))"
    using arg_cong [OF assms(1), of dom] by (simp add: dom_map_of_conv_image_fst)
  then have "sort (map fst cps) = sort (map fst (checkpoints e))"
    using assms(2,3) by (metis distinct_sort set_sort sorted_distinct_set_unique sorted_sort)
  then show ?thesis using assms(1) by (simp add: Checkpoints_def)
qed

lemma Checkpoints_domainEvents [simp]: "Checkpoints (e\<lparr>domainEvents := evs\<rparr>) = Checkpoints e"
  by (simp add: Checkpoints_def)

lemma Snapshot_rehydrated:
  assumes "map_of cps = map_of (checkpoints e)" "distinct (map fst cps)" "distinct (map fst (checkpoints e))"
  shows "Snapshot (e\<lparr>domainEvents := [], checkpoints := cps\<rparr>) = Snapshot e"
  using Checkpoints_map_of [of cps "e\<lparr>domainEvents := []\<rparr>"] assms by (simp add: Snapshot_def)

end
