(* ===== verification/Evaluation_Batch.thy ===== *)
theory Evaluation_Batch
  imports Evaluation_Invariant
begin

text \<open>
  Batch commands against one-by-one recording. The atomic commands validate a whole list
  before they touch the aggregate; the lemmas show that they accept exactly the lists that
  recording one outcome after the other accepts, that they store the same outcomes, that a
  refused batch changes nothing and that a repeated batch is absorbed.
\<close>

section \<open>One outcome\<close>

lemma acceptable_iff:
  assumes "wf_outcomes st (ruleOutcomes e)"
  shows "acceptable e v \<longleftrightarrow> normal_outcome v \<and> timely (startedAt e) v \<and>
    (requiredRuleIDs e = [] \<or> RuleID v \<in> set (requiredRuleIDs e)) \<and>
    (v \<in> set (ruleOutcomes e) \<or> RuleID v \<notin> RuleID ` set (ruleOutcomes e))"
proof (cases "outcome_for (ruleOutcomes e) (RuleID v)")
  case None
  then have "RuleID v \<notin> RuleID ` set (ruleOutcomes e)" by (simp add: outcome_for_None)
  with None show ?thesis by (auto simp: acceptable_def)
next
  case (Some x)
  then have x: "x \<in> set (ruleOutcomes e)" "RuleID x = RuleID v" "normal_outcome x"
    using assms by (auto simp: wf_outcomes_def dest!: outcome_for_SomeD)
  then have "v \<in> set (ruleOutcomes e) \<longleftrightarrow> x = v"
    using outcome_for_in_set [of "ruleOutcomes e" v] Some assms by (auto simp: wf_outcomes_def)
  with Some x show ?thesis
    by (auto simp: acceptable_def ruleOutcomesEqual_normal outcome_for_Some_image)
qed

lemma RecordRuleOutcome_acceptable:
  assumes "state e = StateRunning" "wf_outcomes st (ruleOutcomes e)"
    "normalizeRuleOutcome o1 = Ok v" "acceptable e v"
  shows "RecordRuleOutcome o1 e =
    (if v \<in> set (ruleOutcomes e) then e else append_outcome v e, None)"
proof -
  have n: "normal_outcome v" "TrimSpace (RuleID v) = RuleID v"
    using assms(4) by (simp_all add: acceptable_def normal_outcome_def)
  have rec: "already_recorded e v \<longleftrightarrow> v \<in> set (ruleOutcomes e)"
    by (rule already_recorded_iff(1) [OF assms(2,4)])
  have "startedAt e \<noteq> None" "\<not> Before (EvaluatedAt v) (the (startedAt e))"
    "requiredRuleIDs e = [] \<or> IsRuleRequired e (RuleID v)"
    using assms(4) n by (auto simp: acceptable_def timely_def IsRuleRequired_def split: option.splits)
  then show ?thesis
    using assms rec n
    by (cases "outcome_for (ruleOutcomes e) (RuleID v)")
      (auto simp: RecordRuleOutcome_def RuleOutcomeByID_normal already_recorded_def acceptable_def)
qed

lemma RecordRuleOutcome_refused:
  assumes "state e = StateRunning" "\<And>v. normalizeRuleOutcome o1 = Ok v \<Longrightarrow> \<not> acceptable e v"
  shows "\<exists>err. RecordRuleOutcome o1 e = (e, Some err)"
proof (cases "normalizeRuleOutcome o1")
  case (Inr v)
  note n = normalizeRuleOutcome_normal [OF Inr]
  then have "TrimSpace (RuleID v) = RuleID v" by (simp add: normal_outcome_def)
  then show ?thesis
    using assms(1) assms(2) [OF Inr] n Inr
    by (cases "startedAt e"; cases "outcome_for (ruleOutcomes e) (RuleID v)")
      (auto simp: RecordRuleOutcome_def acceptable_def timely_def IsRuleRequired_def
        RuleOutcomeByID_normal)
qed (use assms(1) in \<open>simp add: RecordRuleOutcome_def\<close>)

section \<open>The validation loop, one outcome at a time\<close>

definition batch_acceptable :: "EvaluationAggregate \<Rightarrow> RuleOutcome list \<Rightarrow> RuleOutcome \<Rightarrow> bool" where
  "batch_acceptable e norm v \<longleftrightarrow> acceptable e v \<and> (v \<in> set norm \<or> RuleID v \<notin> RuleID ` set norm)"

lemma validate_step_acceptable:
  assumes "normalizeRuleOutcome o1 = Ok v" "batch_acceptable e norm v" "distinct (map RuleID norm)"
  shows "validateRuleOutcomeBatch_loop e (o1 # os) norm =
    validateRuleOutcomeBatch_loop e os (if v \<in> set norm then norm else norm @ [v])"
proof -
  have n: "normal_outcome v" "TrimSpace (RuleID v) = RuleID v"
    using assms(2) by (simp_all add: batch_acceptable_def acceptable_def normal_outcome_def)
  have g: "startedAt e \<noteq> None" "\<not> Before (EvaluatedAt v) (the (startedAt e))"
    "requiredRuleIDs e = [] \<or> IsRuleRequired e (RuleID v)"
    using assms(2) n
    by (auto simp: batch_acceptable_def acceptable_def timely_def IsRuleRequired_def split: option.splits)
  show ?thesis
  proof (cases "v \<in> set norm")
    case True
    then show ?thesis
      using assms(1,3) g outcome_for_in_set [OF assms(3) True] by auto
  next
    case False
    then have "outcome_for norm (RuleID v) = None"
      using assms(2) by (simp add: outcome_for_None batch_acceptable_def)
    moreover have "\<And>x. outcome_for (ruleOutcomes e) (RuleID v) = Some x \<Longrightarrow> ruleOutcomesEqual x v"
      using assms(2) by (simp add: batch_acceptable_def acceptable_def)
    ultimately show ?thesis
      using assms(1) g False n
      by (cases "outcome_for (ruleOutcomes e) (RuleID v)") (auto simp: RuleOutcomeByID_normal)
  qed
qed

lemma validate_step_refused:
  assumes "\<And>v. normalizeRuleOutcome o1 = Ok v \<Longrightarrow> \<not> batch_acceptable e norm v"
    and "\<forall>v\<in>set norm. acceptable e v"
  shows "\<exists>err. validateRuleOutcomeBatch_loop e (o1 # os) norm = Err err"
proof (cases "normalizeRuleOutcome o1")
  case (Inr v)
  note n = normalizeRuleOutcome_normal [OF Inr]
  then have t: "TrimSpace (RuleID v) = RuleID v" by (simp add: normal_outcome_def)
  show ?thesis
  proof (cases "acceptable e v")
    case True
    then obtain p where p: "outcome_for norm (RuleID v) = Some p"
      using assms(1) [OF Inr] outcome_for_None [of norm "RuleID v"]
      by (auto simp: batch_acceptable_def)
    then have "p \<in> set norm" "normal_outcome p" using assms(2) by (auto simp: acceptable_def dest: outcome_for_SomeD)
    then have "\<not> ruleOutcomesEqual p v"
      using assms(1) [OF Inr] True n by (auto simp: ruleOutcomesEqual_normal batch_acceptable_def)
    then show ?thesis using Inr p by simp
  next
    case False
    have "\<not> ruleOutcomesEqual p v" if "outcome_for norm (RuleID v) = Some p" for p
    proof -
      have "acceptable e p" using that assms(2) by (auto dest: outcome_for_SomeD)
      then show ?thesis
        using False n ruleOutcomesEqual_normal [of p v] by (auto simp: acceptable_def)
    qed
    with False show ?thesis
      using n t Inr
      by (cases "startedAt e"; cases "outcome_for (ruleOutcomes e) (RuleID v)";
          cases "outcome_for norm (RuleID v)")
        (auto simp: acceptable_def timely_def IsRuleRequired_def RuleOutcomeByID_normal)
  qed
qed simp

section \<open>Batch and sequence\<close>

text \<open>\<open>recorded e norm e'\<close>: the aggregate \<open>e'\<close> is \<open>e\<close> with the outcomes \<open>norm\<close> recorded.\<close>

definition recorded :: "EvaluationAggregate \<Rightarrow> RuleOutcome list \<Rightarrow> EvaluationAggregate \<Rightarrow> bool" where
  "recorded e norm e' \<longleftrightarrow> wf_evaluation e' \<and> state e' = StateRunning \<and> startedAt e' = startedAt e \<and>
     requiredRuleIDs e' = requiredRuleIDs e \<and>
     set (ruleOutcomes e') = set (ruleOutcomes e) \<union> set norm"

lemma recorded_acceptable:
  assumes "recorded e norm e'" "wf_evaluation e"
  shows "acceptable e' v \<longleftrightarrow> batch_acceptable e norm v"
proof -
  have wf': "wf_outcomes (startedAt e') (ruleOutcomes e')"
    using assms(1) by (intro wf_outcomesD) (simp add: recorded_def)
  then have inj: "inj_on RuleID (set (ruleOutcomes e) \<union> set norm)"
    using assms(1) by (simp add: wf_outcomes_def recorded_def distinct_map)
  have "v \<in> set (ruleOutcomes e') \<or> RuleID v \<notin> RuleID ` set (ruleOutcomes e') \<longleftrightarrow>
      (v \<in> set (ruleOutcomes e) \<or> RuleID v \<notin> RuleID ` set (ruleOutcomes e)) \<and>
      (v \<in> set norm \<or> RuleID v \<notin> RuleID ` set norm)"
    using assms(1) inj_onD [OF inj, of v] unfolding recorded_def by (auto dest: inj_onD [OF inj])
  then show ?thesis
    using assms wf' by (auto simp: acceptable_iff [OF wf'] acceptable_iff [OF wf_outcomesD [OF assms(2)]]
        batch_acceptable_def recorded_def)
qed

lemma recorded_step:
  assumes "recorded e norm e'" "acceptable e' v"
  shows "recorded e (if v \<in> set norm then norm else norm @ [v])
    (if v \<in> set (ruleOutcomes e') then e' else append_outcome v e')"
proof (cases "v \<in> set (ruleOutcomes e')")
  case False
  have r: "wf_evaluation e'" "state e' = StateRunning" using assms(1) by (simp_all add: recorded_def)
  have "RuleID v \<notin> RuleID ` set (ruleOutcomes e')" "normal_outcome v" "timely (startedAt e') v"
    using assms(2) False by (simp_all add: acceptable_iff [OF wf_outcomesD [OF r(1)]])
  then have "wf_evaluation (append_outcome v e')"
    using append_outcome_keeps [OF r] by (simp add: keeps_def)
  then show ?thesis
    using assms(1) False
    by (auto simp: recorded_def append_outcome_def addDomainEvent_def Let_def)
qed (use assms(1) in \<open>auto simp: recorded_def\<close>)

lemma batch_equals_sequence:
  assumes "wf_evaluation e" "recorded e norm e'" "\<forall>v\<in>set norm. acceptable e v" "distinct (map RuleID norm)"
  shows "case RecordRuleOutcomes os e' of (e1, err) \<Rightarrow>
    (case validateRuleOutcomeBatch_loop e os norm of
       Inl _ \<Rightarrow> err \<noteq> None | Inr ns \<Rightarrow> err = None \<and> recorded e ns e1)"
  using assms(2-)
proof (induction os arbitrary: norm e')
  case (Cons o1 os)
  have r: "wf_evaluation e'" "state e' = StateRunning" using Cons.prems(1) by (simp_all add: recorded_def)
  show ?case
  proof (cases "\<exists>v. normalizeRuleOutcome o1 = Ok v \<and> acceptable e' v")
    case True
    then obtain v where v: "normalizeRuleOutcome o1 = Ok v" "acceptable e' v" by blast
    then have b: "batch_acceptable e norm v"
      using recorded_acceptable [OF Cons.prems(1) assms(1)] by simp
    let ?norm = "if v \<in> set norm then norm else norm @ [v]"
    let ?e' = "if v \<in> set (ruleOutcomes e') then e' else append_outcome v e'"
    have "RecordRuleOutcomes (o1 # os) e' = RecordRuleOutcomes os ?e'"
      using RecordRuleOutcome_acceptable [OF r(2) wf_outcomesD [OF r(1)] v] by simp
    moreover have "\<forall>w\<in>set ?norm. acceptable e w" "distinct (map RuleID ?norm)"
      using Cons.prems(2,3) b by (auto simp: batch_acceptable_def)
    ultimately show ?thesis
      using Cons.IH [OF recorded_step [OF Cons.prems(1) v(2)]]
        validate_step_acceptable [OF v(1) b Cons.prems(3)] by simp
  next
    case False
    then have "\<exists>err. RecordRuleOutcome o1 e' = (e', Some err)"
      by (intro RecordRuleOutcome_refused [OF r(2)]) auto
    moreover have "\<exists>err. validateRuleOutcomeBatch_loop e (o1 # os) norm = Err err"
      using False recorded_acceptable [OF Cons.prems(1) assms(1)] Cons.prems(2)
      by (intro validate_step_refused) auto
    ultimately show ?thesis by (auto simp del: validateRuleOutcomeBatch_loop.simps)
  qed
qed simp

section \<open>The batch commands\<close>

lemma RecordRuleOutcomesAtomic_effect:
  assumes "wf_evaluation e" "state e = StateRunning" "validateRuleOutcomeBatch e os = Ok ns"
  shows "snd (RecordRuleOutcomesAtomic os e) = None"
    "ruleOutcomes (fst (RecordRuleOutcomesAtomic os e)) =
       ruleOutcomes e @ filter (\<lambda>v. v \<notin> set (ruleOutcomes e)) ns"
proof -
  note v = validateRuleOutcomeBatch_Ok [OF assms(3)]
  have n: "list_all normal_outcome ns" using v(1) by (auto simp: list_all_iff acceptable_def)
  have "filter (\<lambda>v. \<not> already_recorded e v) ns = filter (\<lambda>v. v \<notin> set (ruleOutcomes e)) ns"
    using already_recorded_iff(1) [OF wf_outcomesD [OF assms(1)]] v(1) by (intro filter_cong) auto
  then show "snd (RecordRuleOutcomesAtomic os e) = None"
    "ruleOutcomes (fst (RecordRuleOutcomesAtomic os e)) =
       ruleOutcomes e @ filter (\<lambda>v. v \<notin> set (ruleOutcomes e)) ns"
    using assms(2,3)
    by (simp_all add: RecordRuleOutcomesAtomic_def RecordRuleOutcomesAtomic_loop_eq [OF n v(2)] Let_def)
qed

lemma RecordRuleOutcomeBatch_effect:
  assumes "wf_evaluation e" "state e = StateRunning" "validateRuleOutcomeBatch e os = Ok ns"
    "\<not> IsZero at" "startedAt e = Some s" "\<not> Before at s"
  shows "snd (RecordRuleOutcomeBatch os at e) = None"
    "ruleOutcomes (fst (RecordRuleOutcomeBatch os at e)) =
       ruleOutcomes e @ filter (\<lambda>v. v \<notin> set (ruleOutcomes e)) ns"
proof -
  note v = validateRuleOutcomeBatch_Ok [OF assms(3)]
  have eq: "filter (\<lambda>v. \<not> already_recorded e v) ns = filter (\<lambda>v. v \<notin> set (ruleOutcomes e)) ns"
    using already_recorded_iff(1) [OF wf_outcomesD [OF assms(1)]] v(1) by (intro filter_cong) auto
  have "os = [] \<Longrightarrow> ns = []"
    using assms(3) by (simp add: validateRuleOutcomeBatch_def)
  then show "snd (RecordRuleOutcomeBatch os at e) = None"
    "ruleOutcomes (fst (RecordRuleOutcomeBatch os at e)) =
       ruleOutcomes e @ filter (\<lambda>v. v \<notin> set (ruleOutcomes e)) ns"
    using assms by (auto simp: RecordRuleOutcomeBatch_def Let_def eq addDomainEvent_def)
qed

lemma validateRuleOutcomeBatch_running:
  assumes "wf_evaluation e" "state e = StateRunning"
  shows "(\<exists>ns. validateRuleOutcomeBatch e os = Ok ns) \<longleftrightarrow> snd (RecordRuleOutcomes os e) = None"
    "validateRuleOutcomeBatch e os = Ok ns \<Longrightarrow>
     set (ruleOutcomes (fst (RecordRuleOutcomes os e))) = set (ruleOutcomes e) \<union> set ns"
proof -
  have "recorded e [] e" using assms by (simp add: recorded_def)
  note * = batch_equals_sequence [OF assms(1) this, of os, simplified]
  show "(\<exists>ns. validateRuleOutcomeBatch e os = Ok ns) \<longleftrightarrow> snd (RecordRuleOutcomes os e) = None"
    using * by (auto simp: validateRuleOutcomeBatch_def split: sum.splits prod.splits)
  show "set (ruleOutcomes (fst (RecordRuleOutcomes os e))) = set (ruleOutcomes e) \<union> set ns"
    if batch: "validateRuleOutcomeBatch e os = Ok ns"
  proof -
    obtain ms where ms: "validateRuleOutcomeBatch_loop e os [] = Ok ms" "set ms = set ns"
      using batch by (auto simp: validateRuleOutcomeBatch_def split: sum.splits)
    then have "recorded e ms (fst (RecordRuleOutcomes os e))"
      using * by (simp add: case_prod_unfold)
    then show ?thesis using ms(2) by (simp add: recorded_def)
  qed
qed

section \<open>Repeating a batch\<close>

lemma validate_loop_recorded:
  assumes "\<forall>o1\<in>set os. \<exists>v. normalizeRuleOutcome o1 = Ok v \<and> v \<in> set (ruleOutcomes e) \<and> acceptable e v"
    and "set norm \<subseteq> set (ruleOutcomes e)" "distinct (map RuleID norm)" "wf_evaluation e"
  shows "\<exists>ns. validateRuleOutcomeBatch_loop e os norm = Ok ns \<and> set ns \<subseteq> set (ruleOutcomes e)"
  using assms(1-3)
proof (induction os arbitrary: norm)
  case (Cons o1 os)
  then obtain v where v: "normalizeRuleOutcome o1 = Ok v" "v \<in> set (ruleOutcomes e)" "acceptable e v"
    by auto
  have inj: "inj_on RuleID (set (ruleOutcomes e))"
    using wf_outcomesD [OF assms(4)] by (simp add: wf_outcomes_def distinct_map)
  have b: "batch_acceptable e norm v"
    using v Cons.prems(2) inj_onD [OF inj] by (auto simp: batch_acceptable_def)
  then show ?case
    using validate_step_acceptable [OF v(1) b Cons.prems(3), of os] Cons.prems v(2)
      Cons.IH [of "if v \<in> set norm then norm else norm @ [v]"]
    by (auto simp: batch_acceptable_def simp del: validateRuleOutcomeBatch_loop.simps)
qed simp

lemma validate_recorded:
  assumes "wf_evaluation e"
    "\<forall>o1\<in>set os. \<exists>v. normalizeRuleOutcome o1 = Ok v \<and> v \<in> set (ruleOutcomes e) \<and> acceptable e v"
  shows "\<exists>ns. validateRuleOutcomeBatch e os = Ok ns \<and> set ns \<subseteq> set (ruleOutcomes e)"
  using validate_loop_recorded [OF assms(2), of "[]"] assms(1)
  by (auto simp: validateRuleOutcomeBatch_def)

lemma RecordRuleOutcomesAtomic_absorbed:
  assumes "wf_evaluation e" "state e = StateRunning"
    "\<forall>o1\<in>set os. \<exists>v. normalizeRuleOutcome o1 = Ok v \<and> v \<in> set (ruleOutcomes e) \<and> acceptable e v"
  shows "RecordRuleOutcomesAtomic os e = (e, None)"
proof -
  obtain ns where ns: "validateRuleOutcomeBatch e os = Ok ns" "set ns \<subseteq> set (ruleOutcomes e)"
    using validate_recorded [OF assms(1,3)] by blast
  note v = validateRuleOutcomeBatch_Ok [OF ns(1)]
  have n: "list_all normal_outcome ns" using v(1) by (auto simp: list_all_iff acceptable_def)
  have "filter (\<lambda>v. \<not> already_recorded e v) ns = []"
    using already_recorded_iff(1) [OF wf_outcomesD [OF assms(1)]] v(1) ns(2)
    by (auto simp: filter_empty_conv)
  then show ?thesis
    using assms(2) ns(1)
    by (simp add: RecordRuleOutcomesAtomic_def RecordRuleOutcomesAtomic_loop_eq [OF n v(2)] Let_def)
qed

lemma atomic_loop_fields:
  "state (RecordRuleOutcomesAtomic_loop ns e) = state e \<and>
   startedAt (RecordRuleOutcomesAtomic_loop ns e) = startedAt e \<and>
   requiredRuleIDs (RecordRuleOutcomesAtomic_loop ns e) = requiredRuleIDs e"
  by (induction ns arbitrary: e) (simp_all add: append_outcome_def addDomainEvent_def Let_def)

lemma RecordRuleOutcomesAtomic_retry:
  assumes "wf_evaluation e" "RecordRuleOutcomesAtomic os e = (e', None)"
  shows "RecordRuleOutcomesAtomic os e' = (e', None)"
proof -
  obtain ns where run: "state e = StateRunning" and ns: "validateRuleOutcomeBatch e os = Ok ns"
    and e': "e' = RecordRuleOutcomesAtomic_loop ns e"
    using assms(2) by (auto simp: RecordRuleOutcomesAtomic_def split: if_splits sum.splits)
  note v = validateRuleOutcomeBatch_Ok [OF ns]
  have set: "set (ruleOutcomes e') = set (ruleOutcomes e) \<union> set ns"
    using RecordRuleOutcomesAtomic_effect(2) [OF assms(1) run ns] assms(2) by auto
  have wf': "wf_evaluation e'"
    using RecordRuleOutcomesAtomic_keeps [OF assms(1), of os] assms(2) by (simp add: keeps_def)
  have e'f: "state e' = StateRunning" "startedAt e' = startedAt e" "requiredRuleIDs e' = requiredRuleIDs e"
    using atomic_loop_fields [of ns e] run e' by simp_all
  have "\<exists>v. normalizeRuleOutcome o1 = Ok v \<and> v \<in> set (ruleOutcomes e') \<and> acceptable e' v"
    if o1: "o1 \<in> set os" for o1
  proof -
    have "snd (RecordRuleOutcomes os e) = None"
      using validateRuleOutcomeBatch_running(1) [OF assms(1) run] ns by blast
    then have "\<exists>v. normalizeRuleOutcome o1 = Ok v"
      using o1
    proof (induction os arbitrary: e)
      case (Cons a os)
      then show ?case
        by (auto simp: RecordRuleOutcome_def split: sum.splits if_splits prod.splits option.splits)
    qed simp
    then obtain v where nv: "normalizeRuleOutcome o1 = Ok v" by blast
    then have "v \<in> set ns" using v(4) o1 by auto
    then have "acceptable e v" "v \<in> set (ruleOutcomes e')" using v(1) set by auto
    then show ?thesis
      using nv e'f by (auto simp: acceptable_iff [OF wf_outcomesD [OF assms(1)]]
          acceptable_iff [OF wf_outcomesD [OF wf']])
  qed
  then show ?thesis by (intro RecordRuleOutcomesAtomic_absorbed [OF wf' e'f(1)]) auto
qed

section \<open>Replacing outcomes\<close>

lemma set_outcome_ids [simp]: "map RuleID (set_outcome os r) = map RuleID os"
  by (cases "ruleOutcomeIndex os (RuleID r)")
    (auto simp: set_outcome_def map_update list_update_same_conv dest: ruleOutcomeIndex_Some)

lemma set_outcomes_ids [simp]: "map RuleID (foldl set_outcome os rs) = map RuleID os"
  by (induction rs arbitrary: os) simp_all

lemma outcome_for_set_outcome:
  "outcome_for (set_outcome os r) rid =
     (if rid = RuleID r \<and> rid \<in> RuleID ` set os then Some r else outcome_for os rid)"
proof (induction os)
  case (Cons a os)
  have "set_outcome (a # os) r = (if RuleID a = RuleID r then r # os else a # set_outcome os r)"
    by (cases "ruleOutcomeIndex os (RuleID r)") (simp_all add: set_outcome_def)
  then show ?case using Cons.IH by (auto simp: outcome_for_Cons)
qed (simp add: set_outcome_def)

lemma outcome_for_set_outcomes:
  assumes "distinct (map RuleID rs)" "RuleID ` set rs \<subseteq> RuleID ` set os"
  shows "outcome_for (foldl set_outcome os rs) rid =
    (case outcome_for rs rid of Some r \<Rightarrow> Some r | None \<Rightarrow> outcome_for os rid)"
  using assms
proof (induction rs arbitrary: os)
  case (Cons r rs)
  have "RuleID ` set (set_outcome os r) = RuleID ` set os"
    by (metis image_set set_outcome_ids)
  then show ?case
    using Cons by (auto simp: outcome_for_Cons outcome_for_set_outcome outcome_for_None
        split: option.split dest: outcome_for_Some_image)
qed simp

text \<open>What the validation loop stores: every item's normalised outcome, none older than the
  outcome it replaces, and nothing else.\<close>

lemma replace_loop_stores:
  assumes "ReplaceRuleOutcomesAtomic_loop e at items byID ids = Ok (byID', ids')"
    and "\<forall>rid v. byID rid = Some v \<longrightarrow> RuleID v = rid \<and> normal_outcome v"
  shows "byID \<subseteq>\<^sub>m byID' \<and>
    (\<forall>item\<in>set items. \<exists>v. normalizeRuleOutcome (Replacement item) = Ok v \<and> byID' (RuleID v) = Some v \<and>
       (\<exists>old. outcome_for (ruleOutcomes e) (RuleID v) = Some old \<and> \<not> Before (EvaluatedAt v) (EvaluatedAt old))) \<and>
    (\<forall>rid v. byID' rid = Some v \<longrightarrow> byID rid = Some v \<or>
       (\<exists>item\<in>set items. normalizeRuleOutcome (Replacement item) = Ok v))"
  using assms
proof (induction items arbitrary: byID ids)
  case (Cons item items)
  obtain v where v: "normalizeRuleOutcome (Replacement item) = Ok v"
    using Cons.prems(1) by (auto simp: Let_def split: sum.splits if_splits)
  note n = normalizeRuleOutcome_normal [OF v]
  obtain i where i: "ruleOutcomeIndex (ruleOutcomes e) (RuleID v) = Some i"
    "\<not> Before (EvaluatedAt v) (EvaluatedAt (ruleOutcomes e ! i))"
    using Cons.prems(1) v by (simp add: Let_def split: if_splits option.splits)
  have old: "outcome_for (ruleOutcomes e) (RuleID v) = Some (ruleOutcomes e ! i)"
    using i by (simp add: outcome_for_index)
  have same: "byID (RuleID v) = None \<or> byID (RuleID v) = Some v"
  proof (cases "byID (RuleID v)")
    case (Some w)
    have "ruleOutcomesEqual w v"
      using Cons.prems(1) v i Some by (simp add: Let_def split: if_splits)
    moreover have "normal_outcome w" using Cons.prems(2) Some by blast
    ultimately show ?thesis using Some n ruleOutcomesEqual_normal by blast
  qed simp
  have "ReplaceRuleOutcomesAtomic_loop e at items (byID(RuleID v \<mapsto> v))
     (if byID (RuleID v) = None then ids @ [RuleID v] else ids) = Ok (byID', ids')"
    using Cons.prems(1) v i by (auto simp: Let_def split: if_splits option.splits)
  then have IH: "byID(RuleID v \<mapsto> v) \<subseteq>\<^sub>m byID' \<and>
    (\<forall>item\<in>set items. \<exists>v. normalizeRuleOutcome (Replacement item) = Ok v \<and> byID' (RuleID v) = Some v \<and>
       (\<exists>old. outcome_for (ruleOutcomes e) (RuleID v) = Some old \<and> \<not> Before (EvaluatedAt v) (EvaluatedAt old))) \<and>
    (\<forall>rid w. byID' rid = Some w \<longrightarrow> (byID(RuleID v \<mapsto> v)) rid = Some w \<or>
       (\<exists>item\<in>set items. normalizeRuleOutcome (Replacement item) = Ok w))"
    by (rule Cons.IH) (use Cons.prems(2) n in auto)
  then have stored: "byID' (RuleID v) = Some v" by (auto simp: map_le_def)
  have "byID rid = Some w \<or> (\<exists>item\<in>set (item # items). normalizeRuleOutcome (Replacement item) = Ok w)"
    if w: "byID' rid = Some w" for rid w
  proof -
    have "(byID(RuleID v \<mapsto> v)) rid = Some w \<or>
        (\<exists>item\<in>set items. normalizeRuleOutcome (Replacement item) = Ok w)"
      using IH w by blast
    then show ?thesis using w v stored by (cases "rid = RuleID v") auto
  qed
  moreover have "byID \<subseteq>\<^sub>m byID(RuleID v \<mapsto> v)" using same by (auto simp: map_le_def)
  then have "byID \<subseteq>\<^sub>m byID'" using IH map_le_trans by blast
  ultimately show ?case
    using IH v i(2) old stored by simp
qed auto

lemma ReplaceRuleOutcomesAtomic_effect:
  assumes "wf_evaluation e" "ReplaceRuleOutcomesAtomic rs at e = (e', None)"
  shows "map RuleID (ruleOutcomes e') = map RuleID (ruleOutcomes e) \<and>
    (\<forall>item\<in>set rs. \<exists>v. normalizeRuleOutcome (Replacement item) = Ok v \<and>
       outcome_for (ruleOutcomes e') (RuleID v) = Some v \<and>
       (\<exists>old. outcome_for (ruleOutcomes e) (RuleID v) = Some old \<and> \<not> Before (EvaluatedAt v) (EvaluatedAt old))) \<and>
    (\<forall>rid. (\<forall>item\<in>set rs. \<forall>v. normalizeRuleOutcome (Replacement item) = Ok v \<longrightarrow> RuleID v \<noteq> rid) \<longrightarrow>
       outcome_for (ruleOutcomes e') rid = outcome_for (ruleOutcomes e) rid)"
proof (cases "rs = []")
  case True
  then have "e' = e" using assms(2) by (auto simp: ReplaceRuleOutcomesAtomic_def split: if_splits)
  then show ?thesis using True by simp
next
  case False
  have "startedAt e \<noteq> None"
    using assms(2) False by (auto simp: ReplaceRuleOutcomesAtomic_def Let_def split: if_splits)
  obtain byID ids where loop: "ReplaceRuleOutcomesAtomic_loop e (UTC at) rs Map.empty [] = Ok (byID, ids)"
    using assms(2) False by (auto simp: ReplaceRuleOutcomesAtomic_def Let_def split: if_splits sum.splits)
  let ?cur = "\<lambda>rid. ruleOutcomes e ! the (ruleOutcomeIndex (ruleOutcomes e) rid)"
  define pending where "pending = map snd (filter (\<lambda>(c, r). \<not> ruleOutcomesEqual c r)
      (map (\<lambda>rid. (?cur rid, the (byID rid))) (sort ids)))"
  have out: "ruleOutcomes e' = foldl set_outcome (ruleOutcomes e) pending"
    using assms(2) False loop
    by (auto simp: ReplaceRuleOutcomesAtomic_def Let_def pending_def addDomainEvent_def split: if_splits)
  from ReplaceRuleOutcomesAtomic_loop_Ok [OF loop \<open>startedAt e \<noteq> None\<close>]
  have b: "\<And>rid v. byID rid = Some v \<Longrightarrow> RuleID v = rid \<and> normal_outcome v" "set ids = dom byID"
    "distinct ids" "dom byID \<subseteq> RuleID ` set (ruleOutcomes e)" by auto
  have cur: "outcome_for (ruleOutcomes e) rid = Some (?cur rid) \<and> normal_outcome (?cur rid)"
    if "rid \<in> dom byID" for rid
  proof -
    have "rid \<in> RuleID ` set (ruleOutcomes e)" using that b(4) by blast
    then obtain i where i: "ruleOutcomeIndex (ruleOutcomes e) rid = Some i"
      using ruleOutcomeIndex_None [of "ruleOutcomes e" rid] by auto
    then show ?thesis
      using ruleOutcomeIndex_Some [OF i] wf_outcomesD [OF assms(1)]
      by (simp add: outcome_for_index wf_outcomes_def)
  qed
  have eq: "ruleOutcomesEqual (?cur rid) (the (byID rid)) \<longleftrightarrow> ?cur rid = the (byID rid)"
    if "rid \<in> dom byID" for rid
    using that b(1) cur [OF that] by (intro ruleOutcomesEqual_normal) auto
  have "filter (\<lambda>rid. \<not> ruleOutcomesEqual (?cur rid) (the (byID rid))) (sort ids) =
      filter (\<lambda>rid. ?cur rid \<noteq> the (byID rid)) (sort ids)"
    using b(2) eq by (intro filter_cong) auto
  then have pend: "pending = map (\<lambda>rid. the (byID rid)) (filter (\<lambda>rid. ?cur rid \<noteq> the (byID rid)) (sort ids))"
    by (simp add: pending_def filter_map o_def)
  have ids: "map RuleID pending = filter (\<lambda>rid. ?cur rid \<noteq> the (byID rid)) (sort ids)"
    using b(1,2) by (auto simp: pend intro!: map_idI)
  have idset: "RuleID ` set pending = {rid \<in> dom byID. ?cur rid \<noteq> the (byID rid)}"
    using arg_cong [OF ids, of set] b(2) by simp
  have val: "outcome_for (ruleOutcomes e') rid =
      (case byID rid of Some v \<Rightarrow> Some v | None \<Rightarrow> outcome_for (ruleOutcomes e) rid)" for rid
  proof -
    have "distinct (map RuleID pending)" "RuleID ` set pending \<subseteq> RuleID ` set (ruleOutcomes e)"
      using ids idset b(3,4) by auto
    note * = outcome_for_set_outcomes [OF this, of rid]
    show ?thesis
    proof (cases "byID rid")
      case None
      then have "outcome_for pending rid = None"
        unfolding outcome_for_None idset by auto
      then show ?thesis using None * out by simp
    next
      case (Some v)
      show ?thesis
      proof (cases "?cur rid = v")
        case True
        then have "outcome_for pending rid = None"
          using Some unfolding outcome_for_None idset by auto
        then show ?thesis using Some * out cur [of rid] True by auto
      next
        case False
        then have "v \<in> set pending" using Some b(2) by (auto simp: pend intro!: rev_image_eqI [of rid])
        then have "outcome_for pending rid = Some v"
          using outcome_for_in_set [of pending v] b(1) [OF Some] ids b(3) by simp
        then show ?thesis using Some * out by simp
      qed
    qed
  qed
  note stores = replace_loop_stores [OF loop]
  have "map RuleID (ruleOutcomes e') = map RuleID (ruleOutcomes e)" using out by simp
  moreover have "\<forall>item\<in>set rs. \<exists>v. normalizeRuleOutcome (Replacement item) = Ok v \<and>
       outcome_for (ruleOutcomes e') (RuleID v) = Some v \<and>
       (\<exists>old. outcome_for (ruleOutcomes e) (RuleID v) = Some old \<and> \<not> Before (EvaluatedAt v) (EvaluatedAt old))"
  proof
    fix item assume "item \<in> set rs"
    then obtain v old where v: "normalizeRuleOutcome (Replacement item) = Ok v" "byID (RuleID v) = Some v"
      "outcome_for (ruleOutcomes e) (RuleID v) = Some old" "\<not> Before (EvaluatedAt v) (EvaluatedAt old)"
      using stores by auto
    then show "\<exists>v. normalizeRuleOutcome (Replacement item) = Ok v \<and>
       outcome_for (ruleOutcomes e') (RuleID v) = Some v \<and>
       (\<exists>old. outcome_for (ruleOutcomes e) (RuleID v) = Some old \<and> \<not> Before (EvaluatedAt v) (EvaluatedAt old))"
      using val [of "RuleID v"] by auto
  qed
  moreover have "outcome_for (ruleOutcomes e') rid = outcome_for (ruleOutcomes e) rid"
    if "\<forall>item\<in>set rs. \<forall>v. normalizeRuleOutcome (Replacement item) = Ok v \<longrightarrow> RuleID v \<noteq> rid" for rid
  proof (cases "byID rid")
    case (Some v)
    then have "\<exists>item\<in>set rs. normalizeRuleOutcome (Replacement item) = Ok v" using stores by auto
    then show ?thesis using that b(1) [OF Some] by blast
  qed (use val in simp)
  ultimately show ?thesis by blast
qed

end
