(* ===== verification/Evaluation_Properties.thy ===== *)
theory Evaluation_Properties
  imports Evaluation_Snapshot Evaluation_Batch
begin

text \<open>
  The properties of the evaluation aggregate, with the sample evaluation their witnesses use.
\<close>

section \<open>A sample evaluation\<close>

definition sample_new :: EvaluationAggregate where
  "sample_new = \<lparr>agg_id = 1, agg_sessionID = 2, state = StateCreated, result = ResultUnknown,
     reasonCodes = [], createdAt = Time 10 0, startedAt = None, completedAt = None,
     cancelledAt = None, expiredAt = None, cancellationReason = [], version = 1,
     domainEvents = [EvaluationCreatedEvent 1 2 (Time 10 0) 1], ruleOutcomes = [],
     requiredRuleIDs = [], checkpoints = [], history = [], evidenceBinding = None,
     policyBinding = None\<rparr>"

definition sample_warning :: RuleOutcome where
  "sample_warning = \<lparr>RuleID = ''R1'', Status = RuleOutcomeWarning, ReasonCodes = [''LATE''],
     EvaluatedAt = Time 30 0\<rparr>"

definition sample_pass :: RuleOutcome where
  "sample_pass = \<lparr>RuleID = ''R2'', Status = RuleOutcomePass, ReasonCodes = [],
     EvaluatedAt = Time 31 0\<rparr>"

definition sample_started :: EvaluationAggregate where
  "sample_started = run exec [CStart (Time 20 0)] sample_new"

definition sample_running :: EvaluationAggregate where
  "sample_running = run exec [CStart (Time 20 0), CRecord sample_warning] sample_new"

definition sample_completed :: EvaluationAggregate where
  "sample_completed = run exec [CStart (Time 20 0), CRecord sample_warning,
     CComplete ResultVerifiedWithException [''LATE''] (Time 40 0)] sample_new"

lemma sample_new_eq: "NewEvaluation 1 2 (Time 10 0) = Ok sample_new"
  by (simp add: NewEvaluation_def sample_new_def addDomainEvent_def IsZero_def UTC_def Let_def)

lemmas sample_eval = sample_started_def sample_running_def sample_completed_def sample_new_def
  sample_warning_def sample_pass_def

lemma normal_sample: "normal_outcome sample_warning" "normal_outcome sample_pass"
  by (simp_all add: sample_eval normal_outcome_def graphic_def outcome_IsValid_def IsZero_def
      normal_codes_def reasonCodePattern_def code_pattern_def code_char_def)

lemma sample_wf:
  "wf_evaluation sample_new" "wf_evaluation sample_started" "wf_evaluation sample_running"
  "wf_evaluation sample_completed"
proof -
  show "wf_evaluation sample_new" by (rule NewEvaluation_wf [OF sample_new_eq])
  then show "wf_evaluation sample_started" "wf_evaluation sample_running"
    "wf_evaluation sample_completed"
    unfolding sample_started_def sample_running_def sample_completed_def by (rule agg.run_inv)+
qed

lemma sample_started_eq:
  "sample_started = sample_new\<lparr>state := StateRunning, startedAt := Some (Time 20 0), version := 2,
     domainEvents := [EvaluationCreatedEvent 1 2 (Time 10 0) 1, EvaluationStartedEvent 1 2 (Time 20 0) 2]\<rparr>"
  by (simp add: sample_started_def sample_new_def Start_def Let_def go_time addDomainEvent_def UTC_def)

lemma normalize_sample [simp]:
  "normalizeRuleOutcome sample_warning = Ok sample_warning"
  "normalizeRuleOutcome sample_pass = Ok sample_pass"
  by (simp_all add: normalizeRuleOutcome_fixed normal_sample)

lemma acceptable_sample [simp]:
  "acceptable sample_started sample_warning" "acceptable sample_started sample_pass"
  unfolding acceptable_def using normal_sample
  by (simp_all add: sample_started_eq timely_def go_time)
    (simp_all add: sample_eval)

lemma sample_running_eq: "sample_running = append_outcome sample_warning sample_started"
proof -
  have "sample_running = fst (RecordRuleOutcome sample_warning sample_started)"
    by (simp add: sample_running_def sample_started_def)
  moreover have "state sample_started = StateRunning" "ruleOutcomes sample_started = []"
    by (simp_all add: sample_started_eq sample_new_def)
  ultimately show ?thesis
    using RecordRuleOutcome_acceptable [of sample_started None sample_warning sample_warning] by simp
qed

lemma sample_running_fields:
  "state sample_running = StateRunning" "ruleOutcomes sample_running = [sample_warning]"
  "startedAt sample_running = Some (Time 20 0)" "requiredRuleIDs sample_running = []"
  "version sample_running = 3"
  by (simp_all add: sample_running_eq append_outcome_def sample_started_eq addDomainEvent_def Let_def
      sample_new_def)

lemma sample_codes: "normalizeReasonCodes [''LATE''] = Ok [''LATE'']"
  by (rule normalizeReasonCodes_fixed)
    (simp add: normal_codes_def reasonCodePattern_def code_pattern_def code_char_def)

lemma sample_completable: "completable ResultVerifiedWithException [''LATE''] (Time 40 0) sample_running"
  by (simp add: completable_def sample_running_fields RequiredRulesComplete_iff go_time)

lemma sample_completed_fields:
  "state sample_completed = StateCompleted" "version sample_completed = 4"
proof -
  have eq: "sample_completed =
      fst (CompleteAt ResultVerifiedWithException [''LATE''] (Time 40 0) sample_running)"
    by (simp add: sample_completed_def sample_running_def)
  show "state sample_completed = StateCompleted" "version sample_completed = 4"
    unfolding eq
    by (simp_all add: CompleteAt_Ok [OF sample_codes sample_completable] completed_def
        addDomainEvent_def sample_running_fields)
qed

definition sample_policy :: PolicyBinding where
  "sample_policy = \<lparr>pb_PolicyID = ''P'', pb_Version = ''1'',
     pb_Hash = ''sha256:'' @ replicate 64 (CHR ''a''), pb_BoundAt = Time 15 0\<rparr>"

definition sample_bound :: EvaluationAggregate where
  "sample_bound = run exec [CBindPolicy sample_policy] sample_new"

lemma normal_sample_policy: "normal_policy_binding sample_policy"
  by (simp add: normal_policy_binding_def sample_policy_def graphic_def policyHashPattern_def
      hash_pattern_def lower_hex_def list_all_iff go_time)

lemma sample_bound_facts: "wf_evaluation sample_bound" "policyBinding sample_bound = Some sample_policy"
proof -
  show "wf_evaluation sample_bound"
    unfolding sample_bound_def by (rule agg.run_inv [OF sample_wf(1)])
  show "policyBinding sample_bound = Some sample_policy"
    by (simp add: sample_bound_def BindVerificationPolicy_def sample_new_def Let_def go_time
        normalizePolicyBinding_fixed [OF normal_sample_policy] addDomainEvent_def)
      (simp add: sample_policy_def)
qed

section \<open>Invariants over whole histories of commands\<close>

text \<open>C1. Whatever commands run on an evaluation from its creation on, successful or not, nested
  in atomic mutations or not, the aggregate stays well-formed: the timestamps and the result fit
  the state, the required rules of a completed evaluation are answered, outcomes are normalised,
  timely and unique per rule, checkpoints and history are keyed uniquely, and the bindings are
  normalised and belong to the session.\<close>

theorem reachable_well_formed:
  assumes "NewEvaluation i s at = Ok e"
  shows "wf_evaluation (run exec cs e)"
  by (rule agg.run_inv [OF NewEvaluation_wf [OF assms]])

theorem reachable_well_formed_witness:
  "NewEvaluation 1 2 (Time 10 0) = Ok sample_new \<and>
   wf_evaluation (run exec [CStart (Time 20 0), CExpire (Time 5 0), CRecord sample_warning] sample_new)"
  using reachable_well_formed [OF sample_new_eq] sample_new_eq by blast

lemma event_log_versions:
  "event_log i s v evs v' \<Longrightarrow>
   map (\<lambda>ev. md_Version (Metadata ev)) (filter (\<lambda>ev. \<not> is_history ev) evs) =
     map (\<lambda>k. v + of_nat (Suc k)) [0..<length (filter (\<lambda>ev. \<not> is_history ev) evs)] \<and>
   v' = v + of_nat (length (filter (\<lambda>ev. \<not> is_history ev) evs)) \<and>
   (\<forall>ev\<in>set evs. md_EvaluationID (Metadata ev) = i \<and> md_SessionID (Metadata ev) = s)"
proof (induction evs arbitrary: v)
  case (Cons ev evs)
  let ?w = "md_Version (Metadata ev)"
  let ?n = "length (filter (\<lambda>ev. \<not> is_history ev) evs)"
  have IH: "map (\<lambda>ev. md_Version (Metadata ev)) (filter (\<lambda>ev. \<not> is_history ev) evs) =
     map (\<lambda>k. ?w + of_nat (Suc k)) [0..<?n]" "v' = ?w + of_nat ?n"
    "\<forall>ev\<in>set evs. md_EvaluationID (Metadata ev) = i \<and> md_SessionID (Metadata ev) = s"
    using Cons.IH [of ?w] Cons.prems [unfolded event_log.simps] by blast+
  have ev: "md_EvaluationID (Metadata ev) = i" "md_SessionID (Metadata ev) = s"
    "?w = (if is_history ev then v else v + 1)"
    using Cons.prems by simp_all
  show ?case
  proof (cases "is_history ev")
    case False
    have "map (\<lambda>k. v + of_nat (Suc k)) [0..<Suc ?n] = (v + 1) # map (\<lambda>k. v + 1 + of_nat (Suc k)) [0..<?n]"
      unfolding map_upt_Suc by (simp add: add.assoc)
    then show ?thesis using False IH ev by (simp add: add.assoc del: upt_Suc)
  qed (use IH ev in simp)
qed simp

text \<open>C2. The pending events of an evaluation are its creation followed by one event per version
  step: apart from history entries, which repeat the current version, the events carry the
  versions 2, 3, 4 and so on without gap or repetition up to the aggregate's version (modulo the
  64-bit wrap-around), and every event carries the IDs of the evaluation and its session.\<close>

theorem event_versions_gap_free:
  assumes "NewEvaluation i s at = Ok e"
  shows "\<exists>evs. domainEvents (run exec cs e) = EvaluationCreatedEvent i s (UTC at) 1 # evs \<and>
    (let numbered = filter (\<lambda>ev. \<not> is_history ev) evs in
     map (\<lambda>ev. md_Version (Metadata ev)) numbered = map (\<lambda>k. 1 + of_nat (Suc k)) [0..<length numbered] \<and>
     version (run exec cs e) = 1 + of_nat (length numbered)) \<and>
    (\<forall>ev\<in>set evs. md_EvaluationID (Metadata ev) = i \<and> md_SessionID (Metadata ev) = s)"
proof -
  have e: "agg_id e = i" "agg_sessionID e = s" "version e = 1"
    "domainEvents e = [EvaluationCreatedEvent i s (UTC at) 1]"
    using assms by (auto simp: NewEvaluation_def Let_def addDomainEvent_def split: if_splits)
  obtain evs where "domainEvents (run exec cs e) = domainEvents e @ evs"
    "event_log (agg_id e) (agg_sessionID e) (version e) evs (version (run exec cs e))"
    using agg.run_le [OF NewEvaluation_wf [OF assms]] by (rule extends_log)
  then show ?thesis
    using event_log_versions [of i s 1 evs "version (run exec cs e)"] e by (auto simp: Let_def)
qed

theorem event_versions_gap_free_witness:
  "\<exists>evs. domainEvents sample_completed = EvaluationCreatedEvent 1 2 (UTC (Time 10 0)) 1 # evs \<and>
    (let numbered = filter (\<lambda>ev. \<not> is_history ev) evs in
     map (\<lambda>ev. md_Version (Metadata ev)) numbered = map (\<lambda>k. 1 + of_nat (Suc k)) [0..<length numbered] \<and>
     version sample_completed = 1 + of_nat (length numbered)) \<and>
    (\<forall>ev\<in>set evs. md_EvaluationID (Metadata ev) = 1 \<and> md_SessionID (Metadata ev) = 2)"
  using event_versions_gap_free [OF sample_new_eq] unfolding sample_completed_def by blast

text \<open>C3. A completed, cancelled or expired evaluation never changes again: after any further
  commands every field except the pending events and the history is what it was.\<close>

theorem terminal_is_final:
  assumes "wf_evaluation e" "state_IsTerminal (state e)"
  shows "(run exec cs e)\<lparr>domainEvents := [], history := []\<rparr> = e\<lparr>domainEvents := [], history := []\<rparr>"
  using extends_same(5) [OF agg.run_le [OF assms(1)] assms(2)] by (simp add: frozen_def)

theorem terminal_is_final_witness:
  "wf_evaluation sample_completed \<and> state_IsTerminal (state sample_completed) \<and>
   (run exec [CExpire (Time 90 0), CRecord sample_pass] sample_completed)\<lparr>domainEvents := [], history := []\<rparr> =
     sample_completed\<lparr>domainEvents := [], history := []\<rparr>"
  using terminal_is_final [OF sample_wf(4), of "[CExpire (Time 90 0), CRecord sample_pass]"]
    sample_wf(4) sample_completed_fields(1) by (simp del: run.simps)

text \<open>C4. The evidence set and the policy an evaluation was bound to, and the time it started,
  are never replaced or dropped by any sequence of commands.\<close>

theorem bindings_are_permanent:
  assumes "wf_evaluation e"
  shows "(evidenceBinding e \<noteq> None \<longrightarrow> evidenceBinding (run exec cs e) = evidenceBinding e) \<and>
    (policyBinding e \<noteq> None \<longrightarrow> policyBinding (run exec cs e) = policyBinding e) \<and>
    (startedAt e \<noteq> None \<longrightarrow> startedAt (run exec cs e) = startedAt e)"
  using extends_same(2-4) [OF agg.run_le [OF assms]] by simp

theorem bindings_are_permanent_witness:
  "wf_evaluation sample_bound \<and> policyBinding sample_bound \<noteq> None \<and>
   policyBinding (run exec [CStart (Time 20 0), CBindPolicy (sample_policy\<lparr>pb_Version := ''2''\<rparr>)] sample_bound) =
     policyBinding sample_bound"
  using bindings_are_permanent [OF sample_bound_facts(1)] sample_bound_facts
  by (simp del: run.simps)

section \<open>Deciding an evaluation\<close>

text \<open>C5. The derived result is a function of the recorded statuses alone, by fixed precedence:
  one failure rejects, otherwise one inconclusive rule asks for manual review, otherwise one
  warning verifies with exception, otherwise the evaluation is verified; the order of recording
  has no influence. The reasons are exactly the distinct reason codes of the outcomes that are
  not passes. Nothing is derived while a required rule is unanswered or no outcome exists.\<close>

theorem derived_result:
  assumes "wf_evaluation e"
  shows "\<exists>rs. DeriveResult e =
      (if \<not> set (requiredRuleIDs e) \<subseteq> RuleID ` set (ruleOutcomes e)
       then (ResultUnknown, [], Some ErrRequiredRulesIncomplete)
       else if ruleOutcomes e = [] then (ResultUnknown, [], Some ErrInvalidRuleOutcome)
       else (decision (ruleOutcomes e), rs, None)) \<and>
    distinct rs \<and>
    set rs = (\<Union>o1\<in>{o1 \<in> set (ruleOutcomes e). Status o1 \<noteq> RuleOutcomePass}. set (ReasonCodes o1))"
proof -
  have n: "list_all normal_outcome (ruleOutcomes e)"
    by (rule wf_outcomes_normal [OF wf_outcomesD [OF assms]])
  obtain rs where rs: "normalizeReasonCodes (decision_reasons (ruleOutcomes e)) = Ok rs"
    "set rs = set (decision_reasons (ruleOutcomes e))"
    using normal_decision_reasons [OF n] by (rule normalizeReasonCodes_patterns)
  have "decisive o1 \<longleftrightarrow> Status o1 \<noteq> RuleOutcomePass" if "o1 \<in> set (ruleOutcomes e)" for o1
    using that n by (auto simp: list_all_iff normal_outcome_def decisive_def outcome_IsValid_def)
  then have "set rs =
      (\<Union>o1\<in>{o1 \<in> set (ruleOutcomes e). Status o1 \<noteq> RuleOutcomePass}. set (ReasonCodes o1))"
    using rs(2) by (auto simp: decision_reasons_def)
  then show ?thesis
    using rs(1) normalizeReasonCodes_normal [OF rs(1)]
    by (intro exI [of _ rs]) (simp add: DeriveResult_def DeriveResult_loop_decision
        RequiredRulesComplete_iff normal_codes_def)
qed

theorem derived_result_witness:
  "wf_evaluation sample_running \<and>
   (\<exists>rs. DeriveResult sample_running = (ResultVerifiedWithException, rs, None) \<and> set rs = {''LATE''})"
proof -
  have "decision (ruleOutcomes sample_running) = ResultVerifiedWithException"
    by (simp add: sample_running_fields decision_def sample_warning_def)
  moreover have "(\<Union>o1\<in>{o1 \<in> set (ruleOutcomes sample_running). Status o1 \<noteq> RuleOutcomePass}.
      set (ReasonCodes o1)) = {''LATE''}"
    by (simp add: sample_running_fields) (simp add: sample_warning_def)
  ultimately show ?thesis
    using derived_result [OF sample_wf(3)] sample_wf(3)
    by (auto simp: sample_running_fields)
qed

text \<open>C6. A running evaluation whose required rules are answered can always be completed with
  the result the code derives: \<open>CompleteAt\<close> accepts the derived result and reasons at any time
  from the start on and stores them. No combination of outcomes leaves an evaluation stuck.\<close>

theorem derived_result_completes:
  assumes "wf_evaluation e" "state e = StateRunning" "startedAt e = Some s"
    and "DeriveResult e = (r, rs, None)" "\<not> IsZero at" "\<not> Before at s"
  shows "\<exists>e'. CompleteAt r rs at e = (e', None) \<and> state e' = StateCompleted \<and> result e' = r \<and>
    reasonCodes e' = rs \<and> completedAt e' = Some (UTC at) \<and> version e' = version e + 1"
proof -
  have n: "list_all normal_outcome (ruleOutcomes e)"
    by (rule wf_outcomes_normal [OF wf_outcomesD [OF assms(1)]])
  have d: "RequiredRulesComplete e" "r = decision (ruleOutcomes e)"
    "normalizeReasonCodes (decision_reasons (ruleOutcomes e)) = Ok rs"
    using assms(4)
    by (auto simp: DeriveResult_def DeriveResult_loop_decision split: if_splits sum.splits)
  have "r = ResultVerified \<longleftrightarrow> rs = []"
  proof -
    obtain rs' where "normalizeReasonCodes (decision_reasons (ruleOutcomes e)) = Ok rs'"
      "set rs' = set (decision_reasons (ruleOutcomes e))"
      using normal_decision_reasons [OF n] by (rule normalizeReasonCodes_patterns)
    then have "rs = [] \<longleftrightarrow> decision_reasons (ruleOutcomes e) = []"
      using d(3) by (metis list.set(1) set_empty sum.inject(2))
    then show ?thesis
      using d(2) decision_Verified_no_reasons decision_reasons_nonempty [OF n] by auto
  qed
  then have "completable r rs at e"
    using assms d(1,2) by (simp add: completable_def decision_def)
  moreover have "normalizeReasonCodes rs = Ok rs"
    by (rule normalizeReasonCodes_fixed [OF normalizeReasonCodes_normal [OF d(3)]])
  ultimately show ?thesis
    by (simp add: CompleteAt_Ok completed_def addDomainEvent_def)
qed

theorem derived_result_completes_witness:
  "\<exists>rs e'. DeriveResult sample_running = (ResultVerifiedWithException, rs, None) \<and>
     CompleteAt ResultVerifiedWithException rs (Time 40 0) sample_running = (e', None) \<and>
     state e' = StateCompleted"
proof -
  have "DeriveResult sample_running = (ResultVerifiedWithException, [''LATE''], None)"
    using sample_codes by (simp add: DeriveResult_def RequiredRulesComplete_iff sample_running_fields)
      (simp add: sample_warning_def)
  then show ?thesis
    using derived_result_completes [OF sample_wf(3) sample_running_fields(1,3), of _ _ "Time 40 0"]
    by (fastforce simp: go_time)
qed

text \<open>C7. \<open>CompleteAt\<close> succeeds exactly when the evaluation is running, the time is set and not
  before the start, the result is a declared one other than UNKNOWN, every required rule has an
  outcome, all reasons are valid codes, and reasons are given exactly for results other than
  VERIFIED. When it fails, the aggregate is unchanged.\<close>

theorem completion_exact:
  "(snd (CompleteAt r reasons at e) = None \<longleftrightarrow>
      state e = StateRunning \<and> \<not> IsZero at \<and> (\<exists>s. startedAt e = Some s \<and> \<not> Before at s) \<and>
      result_IsValid r \<and> r \<noteq> ResultUnknown \<and>
      set (requiredRuleIDs e) \<subseteq> RuleID ` set (ruleOutcomes e) \<and>
      (\<exists>nr. normalizeReasonCodes reasons = Ok nr \<and> (r = ResultVerified \<longleftrightarrow> nr = []))) \<and>
   (snd (CompleteAt r reasons at e) = None \<or> fst (CompleteAt r reasons at e) = e)"
proof (cases rule: CompleteAt_cases [of reasons r at e])
  case (1 nr)
  then show ?thesis by (simp add: completable_def RequiredRulesComplete_iff)
next
  case (2 err)
  then have "\<not> completable r nr at e" if "normalizeReasonCodes reasons = Ok nr" for nr
    using CompleteAt_Ok [OF that] by auto
  with 2 show ?thesis by (auto simp: completable_def RequiredRulesComplete_iff)
qed

section \<open>Batches\<close>

text \<open>C8. The two batch commands accept exactly the outcome lists that recording the outcomes one
  after the other accepts, and store the same set of outcomes; both append the new outcomes in
  the same order, sorted by rule ID, behind those already recorded.\<close>

theorem batch_equals_one_by_one:
  assumes "wf_evaluation e" "state e = StateRunning" "startedAt e = Some s"
    and "\<not> IsZero at" "\<not> Before at s"
  shows "(snd (RecordRuleOutcomesAtomic os e) = None \<longleftrightarrow> snd (RecordRuleOutcomes os e) = None) \<and>
    (snd (RecordRuleOutcomeBatch os at e) = None \<longleftrightarrow> snd (RecordRuleOutcomes os e) = None) \<and>
    (snd (RecordRuleOutcomes os e) = None \<longrightarrow>
       set (ruleOutcomes (fst (RecordRuleOutcomesAtomic os e))) =
         set (ruleOutcomes (fst (RecordRuleOutcomes os e))) \<and>
       (\<exists>new. sorted (map RuleID new) \<and>
          ruleOutcomes (fst (RecordRuleOutcomesAtomic os e)) = ruleOutcomes e @ new \<and>
          ruleOutcomes (fst (RecordRuleOutcomeBatch os at e)) = ruleOutcomes e @ new))"
proof (cases "validateRuleOutcomeBatch e os")
  case (Inl err)
  then have "os \<noteq> []" by (auto simp: validateRuleOutcomeBatch_def)
  then have "snd (RecordRuleOutcomesAtomic os e) \<noteq> None" "snd (RecordRuleOutcomeBatch os at e) \<noteq> None"
    using Inl assms(2-5) by (simp_all add: RecordRuleOutcomesAtomic_def RecordRuleOutcomeBatch_def)
  then show ?thesis using validateRuleOutcomeBatch_running(1) [OF assms(1,2), of os] Inl by auto
next
  case (Inr ns)
  have none: "snd (RecordRuleOutcomes os e) = None"
    using validateRuleOutcomeBatch_running(1) [OF assms(1,2), of os] Inr by simp
  have "sorted (map RuleID (filter (\<lambda>v. v \<notin> set (ruleOutcomes e)) ns))"
    using validateRuleOutcomeBatch_Ok(3) [OF Inr] by (rule sorted_filter)
  moreover note RecordRuleOutcomesAtomic_effect [OF assms(1,2) Inr]
    RecordRuleOutcomeBatch_effect [OF assms(1,2) Inr assms(4,3,5)]
    validateRuleOutcomeBatch_running(2) [OF assms(1,2) Inr]
  ultimately show ?thesis using none by auto
qed

lemma sample_started_fields:
  "state sample_started = StateRunning" "startedAt sample_started = Some (Time 20 0)"
  "ruleOutcomes sample_started = []" "requiredRuleIDs sample_started = []"
  by (simp_all add: sample_started_eq sample_new_def)

lemma sample_recorded: "snd (RecordRuleOutcomes [sample_pass, sample_warning] sample_started) = None"
proof -
  have "RecordRuleOutcome sample_pass sample_started = (append_outcome sample_pass sample_started, None)"
    using RecordRuleOutcome_acceptable [of sample_started None sample_pass sample_pass] sample_started_fields
    by simp
  moreover have "acceptable (append_outcome sample_pass sample_started) sample_warning"
    unfolding acceptable_def using normal_sample
    by (simp add: append_outcome_def Let_def addDomainEvent_def sample_started_fields timely_def
        outcome_for_Cons) (simp add: sample_eval go_time)
  ultimately show ?thesis
    using RecordRuleOutcome_acceptable [of "append_outcome sample_pass sample_started" "Some (Time 20 0)"
        sample_warning sample_warning] normal_sample
    by (simp add: append_outcome_def Let_def addDomainEvent_def sample_started_fields wf_outcomes_def
        timely_def) (simp add: sample_eval go_time)
qed

theorem batch_equals_one_by_one_witness:
  "wf_evaluation sample_started \<and>
   snd (RecordRuleOutcomesAtomic [sample_pass, sample_warning] sample_started) = None \<and>
   snd (RecordRuleOutcomeBatch [sample_pass, sample_warning] (Time 35 0) sample_started) = None"
  using batch_equals_one_by_one [OF sample_wf(2) sample_started_fields(1,2), of "Time 35 0"
      "[sample_pass, sample_warning]"] sample_recorded sample_wf(2)
  by (simp add: go_time)

text \<open>C9. The atomic batch is all-or-nothing and safe to retry: when it fails the aggregate is
  untouched, and when it succeeds, sending the same batch again succeeds and changes nothing.\<close>

theorem batch_atomic_and_idempotent:
  assumes "wf_evaluation e"
  shows "case RecordRuleOutcomesAtomic os e of
      (e', Some err) \<Rightarrow> e' = e
    | (e', None) \<Rightarrow> RecordRuleOutcomesAtomic os e' = (e', None)"
proof (cases "RecordRuleOutcomesAtomic os e")
  case (Pair e' err)
  show ?thesis
  proof (cases err)
    case None
    then show ?thesis using RecordRuleOutcomesAtomic_retry [OF assms] Pair by simp
  next
    case (Some x)
    then show ?thesis
      using Pair by (auto simp: RecordRuleOutcomesAtomic_def split: if_splits sum.splits)
  qed
qed

theorem batch_atomic_and_idempotent_witness:
  "wf_evaluation sample_started \<and>
   (let e' = fst (RecordRuleOutcomesAtomic [sample_pass, sample_warning] sample_started)
    in RecordRuleOutcomesAtomic [sample_pass, sample_warning] e' = (e', None))"
proof -
  have "snd (RecordRuleOutcomesAtomic [sample_pass, sample_warning] sample_started) = None"
    using validateRuleOutcomeBatch_running(1) [OF sample_wf(2) sample_started_fields(1)] sample_recorded
      RecordRuleOutcomesAtomic_effect(1) [OF sample_wf(2) sample_started_fields(1)] by blast
  then show ?thesis
    using batch_atomic_and_idempotent [OF sample_wf(2), of "[sample_pass, sample_warning]"] sample_wf(2)
    by (auto simp: Let_def split: prod.splits option.splits)
qed

text \<open>A successful batch replacement changes exactly the outcomes it names: every replacement
  is stored, in normal form, in place of an existing outcome that is not newer; the outcomes of
  all other rules, and the order of the rules, are unchanged.\<close>

lemma replacement_exact:
  assumes "wf_evaluation e" "ReplaceRuleOutcomesAtomic rs at e = (e', None)"
  shows "map RuleID (ruleOutcomes e') = map RuleID (ruleOutcomes e) \<and>
    (\<forall>item\<in>set rs. \<exists>v. normalizeRuleOutcome (Replacement item) = Ok v \<and>
       outcome_for (ruleOutcomes e') (RuleID v) = Some v \<and>
       (\<exists>old. outcome_for (ruleOutcomes e) (RuleID v) = Some old \<and> \<not> Before (EvaluatedAt v) (EvaluatedAt old))) \<and>
    (\<forall>rid. (\<forall>item\<in>set rs. \<forall>v. normalizeRuleOutcome (Replacement item) = Ok v \<longrightarrow> RuleID v \<noteq> rid) \<longrightarrow>
       outcome_for (ruleOutcomes e') rid = outcome_for (ruleOutcomes e) rid)"
  by (rule ReplaceRuleOutcomesAtomic_effect [OF assms])

text \<open>A batch removal either removes exactly the outcomes of the named rules, keeping the
  order of the others, advances the version by one and reports the removed outcomes sorted by
  rule ID, or fails and changes nothing; it fails for a rule that has no outcome.\<close>

lemma removal_exact:
  assumes "RemoveRuleOutcomesAtomic rids at e = (e', err)" "rids \<noteq> []"
  shows "(err = None \<longrightarrow>
      TrimSpace ` set rids \<subseteq> RuleID ` set (ruleOutcomes e) \<and>
      ruleOutcomes e' = filter (\<lambda>o1. RuleID o1 \<notin> TrimSpace ` set rids) (ruleOutcomes e) \<and>
      version e' = version e + 1 \<and>
      (\<exists>removed. sorted (map RuleID removed) \<and> distinct (map RuleID removed) \<and>
         RuleID ` set removed = TrimSpace ` set rids \<and> set removed \<subseteq> set (ruleOutcomes e) \<and>
         domainEvents e' = domainEvents e @ [RuleOutcomeBatchRemovedEvent (agg_id e) (agg_sessionID e)
           removed (UTC at) (version e + 1)])) \<and>
    (err \<noteq> None \<longrightarrow> e' = e)"
proof (cases err)
  case None
  then obtain ids removed where ids: "normalizeRuleIDsForRemoval rids = Ok ids"
    and rem: "collect_outcomes (ruleOutcomes e) ids = Ok removed"
    and e': "ruleOutcomes e' = filter (\<lambda>o1. RuleID o1 \<notin> set ids) (ruleOutcomes e)"
      "version e' = version e + 1"
      "domainEvents e' = domainEvents e @ [RuleOutcomeBatchRemovedEvent (agg_id e) (agg_sessionID e)
           removed (UTC at) (version e + 1)]"
    using assms by (auto simp: RemoveRuleOutcomesAtomic_def Let_def addDomainEvent_def
        split: if_splits sum.splits)
  note i = normalizeRuleIDsForRemoval_Ok [OF ids]
  note r = collect_outcomes_Ok [OF rem]
  have "RuleID ` set removed = set ids" using arg_cong [of _ _ set, OF conjunct1 [OF conjunct2 [OF r]]] by simp
  then show ?thesis using None e' i r by auto
qed (use assms in \<open>auto simp: RemoveRuleOutcomesAtomic_def Let_def split: if_splits sum.splits\<close>)

section \<open>Checkpoints, snapshots and atomic mutations\<close>

lemma atomic_loop_checkpoints [simp]:
  "checkpoints (RecordRuleOutcomesAtomic_loop ns e) = checkpoints e"
  by (induction ns arbitrary: e) (simp_all add: append_outcome_def addDomainEvent_def Let_def)

lemma RecordRuleOutcome_checkpoints [simp]: "checkpoints (fst (RecordRuleOutcome o1 e)) = checkpoints e"
  by (auto simp: RecordRuleOutcome_def append_outcome_def addDomainEvent_def Let_def
      split: sum.split option.split)

lemma RecordRuleOutcomes_checkpoints [simp]: "checkpoints (fst (RecordRuleOutcomes os e)) = checkpoints e"
proof (induction os arbitrary: e)
  case (Cons o1 os)
  show ?case
    using Cons.IH [of "fst (RecordRuleOutcome o1 e)"] RecordRuleOutcome_checkpoints [of o1 e]
    by (cases "RecordRuleOutcome o1 e") (auto split: option.split)
qed simp

lemma RecordHistory_checkpoints [simp]: "checkpoints (fst (RecordHistory at e)) = checkpoints e"
  by (auto simp: RecordHistory_def addDomainEvent_def Let_def split: option.split)

lemma exec_checkpoints: "map_of (checkpoints e) \<subseteq>\<^sub>m map_of (checkpoints (fst (exec c e)))"
proof (induction c arbitrary: e)
  case (CCheckpoint n at)
  show ?case by (auto simp: CreateCheckpoint_def addDomainEvent_def Let_def map_le_def)
next
  case (CAtomic at c)
  obtain e1 err where c: "exec c e = (e1, err)" by force
  obtain e2 err2 where h: "RecordHistory at e1 = (e2, err2)" by force
  have "checkpoints e2 = checkpoints e1" using RecordHistory_checkpoints [of at e1] h by simp
  then show ?case
    using CAtomic [of e] c h
    by (auto simp: ApplyAtomicMutation_def restoreMutableState_def captureMutableState_def Let_def
        split: option.split)
qed (auto simp: Start_def CompleteAt_def Cancel_def Expire_def RegisterRequiredRuleAt_def
    RecordRuleOutcomesAtomic_def RecordRuleOutcomeBatch_def ReplaceRuleOutcome_def
    ReplaceRuleOutcomesAtomic_def RemoveRuleOutcome_def RemoveRuleOutcomeIfPresent_def
    RemoveRuleOutcomesAtomic_def RemoveRuleOutcomesIfPresent_def ResetRuleOutcomes_def
    ResetRuleOutcomesAtVersion_def BindEvidenceSet_def BindVerificationPolicy_def
    RollbackToCheckpoint_def addDomainEvent_def Let_def split: sum.split option.split)

lemma run_checkpoints: "map_of (checkpoints e) \<subseteq>\<^sub>m map_of (checkpoints (run exec cs e))"
  by (induction cs arbitrary: e) (auto intro: map_le_trans exec_checkpoints)

text \<open>C12. A checkpoint can be restored later: after any further commands that leave the evaluation
  running, rolling back to the checkpoint at a time not before its creation succeeds and brings
  back exactly the rule outcomes of the moment the checkpoint was created.\<close>

theorem rollback_restores_checkpoint:
  assumes "wf_evaluation e" "CreateCheckpoint n at e = (e1, None)"
    and "state (run exec cs e1) = StateRunning" "\<not> IsZero at'" "\<not> Before at' at"
  shows "\<exists>e'. RollbackToCheckpoint n at' (run exec cs e1) = (e', None) \<and>
    ruleOutcomes e' = ruleOutcomes e \<and> version e' = version (run exec cs e1) + 1"
proof -
  let ?f = "run exec cs e1"
  let ?cp = "\<lparr>cp_Name = TrimSpace n, cp_RuleOutcomes = ruleOutcomes e, cp_Version = version e,
    cp_CreatedAt = UTC at\<rparr>"
  obtain s where s: "startedAt e = Some s" "\<not> Before at s" "startedAt e1 = startedAt e"
    and cp: "map_of (checkpoints e1) (TrimSpace n) = Some ?cp"
    using assms(2) by (auto simp: CreateCheckpoint_def Let_def addDomainEvent_def split: if_splits)
  have wf1: "wf_evaluation e1"
    using CreateCheckpoint_keeps [OF assms(1), of n at] assms(2) by (simp add: keeps_def)
  have "map_of (checkpoints ?f) (TrimSpace n) = Some ?cp"
    using run_checkpoints [of e1 cs] cp by (metis domI map_le_def)
  moreover have "startedAt ?f = Some s"
    using extends_same(2) [OF agg.run_le [OF wf1, of cs]] s by simp
  moreover have "\<not> Before at' s" using assms(5) s(2) by (simp add: go_time)
  ultimately show ?thesis
    using assms(3-5) by (simp add: RollbackToCheckpoint_def Let_def addDomainEvent_def)
qed

lemma sample_checkpointed: "snd (CreateCheckpoint ''C'' (Time 35 0) sample_running) = None"
  by (simp add: CreateCheckpoint_def sample_running_fields Let_def graphic_def go_time)
    (simp add: sample_running_eq sample_started_eq append_outcome_def addDomainEvent_def Let_def
      sample_new_def)

theorem rollback_restores_checkpoint_witness:
  "\<exists>e1 e'. CreateCheckpoint ''C'' (Time 35 0) sample_running = (e1, None) \<and>
     RollbackToCheckpoint ''C'' (Time 60 0) (run exec [CReset (Time 50 0)] e1) = (e', None) \<and>
     ruleOutcomes e' = [sample_warning]"
proof -
  obtain e1 where e1: "CreateCheckpoint ''C'' (Time 35 0) sample_running = (e1, None)"
    using sample_checkpointed by (metis prod.collapse)
  then have "state e1 = StateRunning" "startedAt e1 = Some (Time 20 0)"
    by (auto simp: CreateCheckpoint_def Let_def addDomainEvent_def sample_running_fields split: if_splits)
  then have "state (run exec [CReset (Time 50 0)] e1) = StateRunning"
    by (simp add: ResetRuleOutcomes_def Let_def addDomainEvent_def go_time)
  then show ?thesis
    using rollback_restores_checkpoint [OF sample_wf(3) e1, of "[CReset (Time 50 0)]" "Time 60 0"] e1
    by (auto simp: go_time sample_running_fields)
qed

text \<open>C13. Persistence loses nothing: the snapshot of a well-formed aggregate validates, and the
  aggregate rebuilt from it equals the original in every field, the checkpoints compared as the
  map they are, except that it has no pending events; its snapshot is the same again. The only
  exception is a version that has wrapped around to 0.\<close>

theorem snapshot_roundtrip:
  assumes "wf_evaluation e" "version e \<noteq> 0"
  shows "\<exists>e'. RehydrateEvaluation (Snapshot e) = Ok e' \<and>
    e'\<lparr>domainEvents := domainEvents e, checkpoints := checkpoints e\<rparr> = e \<and>
    domainEvents e' = [] \<and> map_of (checkpoints e') = map_of (checkpoints e) \<and>
    Snapshot e' = Snapshot e"
proof -
  obtain cps where
    "RehydrateEvaluation (Snapshot e) = Ok (e\<lparr>domainEvents := [], checkpoints := cps\<rparr>)"
    "map_of cps = map_of (checkpoints e)" "distinct (map fst cps)"
    using assms by (rule rehydrate_Snapshot)
  moreover have "distinct (map fst (checkpoints e))"
    using assms(1) by (simp add: wf_evaluation_def checkpoints_ok_def)
  ultimately show ?thesis by (simp add: Snapshot_rehydrated)
qed

theorem snapshot_roundtrip_witness:
  "wf_evaluation sample_running \<and> version sample_running \<noteq> 0 \<and>
   (\<exists>e'. RehydrateEvaluation (Snapshot sample_running) = Ok e' \<and> Snapshot e' = Snapshot sample_running)"
  using snapshot_roundtrip [OF sample_wf(3)] sample_wf(3) sample_running_fields(5) by auto



end
