(* ===== verification/Outbox.thy ===== *)
theory Outbox
  imports Evaluation_Types
begin

text \<open>
  The transactional outbox record (\<open>src/evaluation/outbox.go\<close>): its construction from domain
  events, its publication state machine, the retry policy and the claim request. The lemmas give
  the record's invariant, show that published and dead-lettered records are final, and that the
  retry delay is the capped exponential back-off without overflow.

  \<open>json.Marshal\<close> and the random UUID of a record are arguments of the constructor.
\<close>

section \<open>Definitions\<close>

datatype outbox_error =
    ErrOutboxEventRequired
  | ErrOutboxEventTypeRequired
  | ErrOutboxTimestampRequired
  | ErrOutboxSerializationFailed string
  | ErrOutboxRecordNotFound
  | ErrOutboxAlreadyPublished
  | ErrOutboxAlreadyDeadLettered
  | ErrOutboxPublishTimeRequired
  | ErrOutboxFailureTimeRequired
  | ErrOutboxFailureReasonRequired
  | ErrOutboxInvalidRetrySchedule
  | ErrOutboxMaximumAttemptsReached
  | ErrOutboxRepositoryUnavailable
  | ErrOutboxClaimLimitInvalid
  | ErrOutboxWorkerIDRequired
  | ErrOutboxLockDurationInvalid
  | ErrOutboxLockOwnershipMismatch
  | ErrOutboxConcurrentModification
  | ErrInvalidOutboxRecord
  | ErrInsertOutboxRecord
  | ErrOutboxPublisherAlreadyRunning
  | ErrOutboxPublisherNotRunning
  | ErrOutboxPublisherUnavailable
  | ErrOutboxBrokerUnavailable
  | ErrOutboxPublisherConfigInvalid
  | ErrBrokerClose
  | PanicDivideByZero

datatype OutboxStatus =
  OutboxStatusPending | OutboxStatusPublishing | OutboxStatusPublished
  | OutboxStatusRetryScheduled | OutboxStatusDeadLettered | OutboxStatusOther string

definition outbox_IsValid :: "OutboxStatus \<Rightarrow> bool" where
  "outbox_IsValid s = (case s of OutboxStatusOther _ \<Rightarrow> False | _ \<Rightarrow> True)"

definition outbox_IsTerminal :: "OutboxStatus \<Rightarrow> bool" where
  "outbox_IsTerminal s \<longleftrightarrow> s = OutboxStatusPublished \<or> s = OutboxStatusDeadLettered"

definition DefaultOutboxMaxAttempts :: u32 where "DefaultOutboxMaxAttempts = 10"

record OutboxRecord =
  ob_ID :: uuid
  AggregateType :: string
  AggregateID :: uuid
  ob_SessionID :: uuid
  AggregateVersion :: u64
  EventType :: string
  Payload :: string
  ob_Status :: OutboxStatus
  OccurredAt :: time
  ob_CreatedAt :: time
  PublishingStartedAt :: "time option"
  PublishedAt :: "time option"
  NextAttemptAt :: "time option"
  LastAttemptAt :: "time option"
  DeadLetteredAt :: "time option"
  Attempts :: u32
  MaxAttempts :: u32
  LastError :: string
  LockOwner :: string
  LockUntil :: "time option"

definition normalizeOutboxRecord :: "OutboxRecord \<Rightarrow> OutboxRecord" where
  "normalizeOutboxRecord r =
     r\<lparr>ob_Status := (if ob_Status r = OutboxStatusOther [] then OutboxStatusPending else ob_Status r),
       MaxAttempts := (if MaxAttempts r = 0 then DefaultOutboxMaxAttempts else MaxAttempts r),
       LockOwner := TrimSpace (LockOwner r), LastError := TrimSpace (LastError r)\<rparr>"

definition NewOutboxRecord ::
  "(DomainEvent \<Rightarrow> string + string) \<Rightarrow> uuid \<Rightarrow> DomainEvent option \<Rightarrow> time \<Rightarrow> outbox_error + OutboxRecord"
where
  "NewOutboxRecord marshal random event createdAt1 =
     (case event of
        None \<Rightarrow> Err ErrOutboxEventRequired
      | Some ev \<Rightarrow>
          if IsZero createdAt1 then Err ErrOutboxTimestampRequired
          else let md = (Metadata ev)\<lparr>md_EventType := TrimSpace (md_EventType (Metadata ev))\<rparr> in
            if md_EventType md = [] then Err ErrOutboxEventTypeRequired
            else if md_EvaluationID md = Nil_uuid \<or> md_SessionID md = Nil_uuid \<or> md_Version md = 0
            then Err ErrOutboxEventRequired
            else if IsZero (md_OccurredAt md) then Err ErrOutboxTimestampRequired
            else case marshal ev of
              Inl msg \<Rightarrow> Err (ErrOutboxSerializationFailed msg)
            | Inr payload \<Rightarrow> Ok (normalizeOutboxRecord
                \<lparr>ob_ID = New random, AggregateType = ''evaluation'',
                 AggregateID = md_EvaluationID md, ob_SessionID = md_SessionID md,
                 AggregateVersion = md_Version md, EventType = md_EventType md, Payload = payload,
                 ob_Status = OutboxStatusPending, OccurredAt = UTC (md_OccurredAt md),
                 ob_CreatedAt = UTC createdAt1, PublishingStartedAt = None, PublishedAt = None,
                 NextAttemptAt = None, LastAttemptAt = None, DeadLetteredAt = None, Attempts = 0,
                 MaxAttempts = 0, LastError = [], LockOwner = [], LockUntil = None\<rparr>))"

text \<open>The loop over the pending events; the \<open>k\<close>-th record draws the \<open>k\<close>-th random UUID.\<close>

fun BuildOutboxRecords_loop ::
  "(DomainEvent \<Rightarrow> string + string) \<Rightarrow> (nat \<Rightarrow> uuid) \<Rightarrow> time \<Rightarrow> DomainEvent list \<Rightarrow> nat \<Rightarrow>
   outbox_error + OutboxRecord list" where
  "BuildOutboxRecords_loop marshal random at [] k = Ok []"
| "BuildOutboxRecords_loop marshal random at (ev # evs) k =
     (case NewOutboxRecord marshal (random k) (Some ev) at of
        Inl err \<Rightarrow> Err err
      | Inr r \<Rightarrow> (case BuildOutboxRecords_loop marshal random at evs (Suc k) of
          Inl err \<Rightarrow> Err err | Inr rs \<Rightarrow> Ok (r # rs)))"

definition BuildOutboxRecords ::
  "(DomainEvent \<Rightarrow> string + string) \<Rightarrow> (nat \<Rightarrow> uuid) \<Rightarrow> time \<Rightarrow> EvaluationAggregate \<Rightarrow>
   outbox_error + OutboxRecord list" where
  "BuildOutboxRecords marshal random at e = BuildOutboxRecords_loop marshal random at (domainEvents e) 0"

definition StartPublishing ::
  "string \<Rightarrow> time \<Rightarrow> int \<Rightarrow> OutboxRecord \<Rightarrow> OutboxRecord \<times> outbox_error option" where
  "StartPublishing workerID started lockDuration r =
     (let r = normalizeOutboxRecord r in
      if ob_Status r = OutboxStatusPublished then (r, Some ErrOutboxAlreadyPublished)
      else if ob_Status r = OutboxStatusDeadLettered then (r, Some ErrOutboxAlreadyDeadLettered)
      else let workerID = TrimSpace workerID in
        if workerID = [] then (r, Some ErrOutboxWorkerIDRequired)
        else if IsZero started then (r, Some ErrOutboxPublishTimeRequired)
        else if lockDuration \<le> 0 then (r, Some ErrOutboxLockDurationInvalid)
        else let started = UTC started; until = time_Add started lockDuration in
          (r\<lparr>ob_Status := OutboxStatusPublishing, PublishingStartedAt := Some started,
             LastAttemptAt := Some started, LockOwner := workerID, LockUntil := Some until,
             Attempts := Attempts r + 1\<rparr>,
           None))"

definition MarkPublished ::
  "string \<Rightarrow> time \<Rightarrow> OutboxRecord \<Rightarrow> OutboxRecord \<times> outbox_error option" where
  "MarkPublished workerID at r =
     (if ob_Status r = OutboxStatusPublished then (r, Some ErrOutboxAlreadyPublished)
      else if TrimSpace workerID = [] \<or> LockOwner r \<noteq> TrimSpace workerID
      then (r, Some ErrOutboxLockOwnershipMismatch)
      else if IsZero at then (r, Some ErrOutboxPublishTimeRequired)
      else (r\<lparr>ob_Status := OutboxStatusPublished, PublishedAt := Some (UTC at), NextAttemptAt := None,
              LastError := [], LockOwner := [], LockUntil := None\<rparr>,
            None))"

record OutboxRetryPolicy =
  BaseDelay :: int
  MaxDelay :: int
  Multiplier :: u32

definition DefaultOutboxRetryPolicy :: OutboxRetryPolicy where
  "DefaultOutboxRetryPolicy =
     \<lparr>BaseDelay = 1000000000, MaxDelay = 5 * 60 * 1000000000, Multiplier = 2\<rparr>"

definition retry_Validate :: "OutboxRetryPolicy \<Rightarrow> outbox_error option" where
  "retry_Validate p =
     (if BaseDelay p \<le> 0 \<or> MaxDelay p < BaseDelay p \<or> Multiplier p < 1
      then Some ErrOutboxInvalidRetrySchedule else None)"

text \<open>Go's integer division truncates towards zero.\<close>

definition go_div :: "int \<Rightarrow> int \<Rightarrow> int" where
  "go_div a b = sgn a * sgn b * (\<bar>a\<bar> div \<bar>b\<bar>)"

text \<open>\<open>Delay\<close>: \<open>None\<close> is the run-time panic of a division by a zero multiplier.\<close>

fun Delay_loop :: "OutboxRetryPolicy \<Rightarrow> nat \<Rightarrow> int \<Rightarrow> int option" where
  "Delay_loop p 0 d = Some (if d > MaxDelay p then MaxDelay p else d)"
| "Delay_loop p (Suc n) d =
     (if Multiplier p = 0 then None
      else if d \<ge> go_div (MaxDelay p) (uint (Multiplier p)) then Some (MaxDelay p)
      else Delay_loop p n (wrap64 (d * uint (Multiplier p))))"

definition Delay :: "OutboxRetryPolicy \<Rightarrow> u32 \<Rightarrow> int option" where
  "Delay p attempt = Delay_loop p (unat attempt - 1) (BaseDelay p)"

definition RegisterFailure ::
  "string \<Rightarrow> string \<Rightarrow> time \<Rightarrow> OutboxRetryPolicy \<Rightarrow> OutboxRecord \<Rightarrow> OutboxRecord \<times> outbox_error option" where
  "RegisterFailure workerID reason failedAt policy r =
     (if ob_Status r = OutboxStatusPublished then (r, Some ErrOutboxAlreadyPublished)
      else if ob_Status r = OutboxStatusDeadLettered then (r, Some ErrOutboxAlreadyDeadLettered)
      else if LockOwner r \<noteq> TrimSpace workerID then (r, Some ErrOutboxLockOwnershipMismatch)
      else if IsZero failedAt then (r, Some ErrOutboxFailureTimeRequired)
      else let reason = TrimSpace reason in
        if reason = [] then (r, Some ErrOutboxFailureReasonRequired)
        else case retry_Validate policy of
          Some err \<Rightarrow> (r, Some err)
        | None \<Rightarrow>
            let failedAt = UTC failedAt;
                r = r\<lparr>LastError := reason, LastAttemptAt := Some failedAt, LockOwner := [],
                      LockUntil := None\<rparr>
            in if Attempts r \<ge> MaxAttempts r
               then (r\<lparr>ob_Status := OutboxStatusDeadLettered, DeadLetteredAt := Some failedAt,
                       NextAttemptAt := None\<rparr>, None)
               else case Delay policy (Attempts r) of
                      None \<Rightarrow> (r, Some PanicDivideByZero)
                    | Some d \<Rightarrow> (r\<lparr>ob_Status := OutboxStatusRetryScheduled,
                                   NextAttemptAt := Some (time_Add failedAt d)\<rparr>, None))"

definition Ready :: "OutboxRecord \<Rightarrow> time \<Rightarrow> bool" where
  "Ready r at \<longleftrightarrow> ob_Status r = OutboxStatusPending \<or>
     ob_Status r = OutboxStatusRetryScheduled \<and>
     (case NextAttemptAt r of None \<Rightarrow> False | Some t \<Rightarrow> \<not> After t at)"

record OutboxClaimRequest =
  cr_WorkerID :: string
  Limit :: int
  ClaimedAt :: time
  cr_LockDuration :: int

definition claim_Validate :: "OutboxClaimRequest \<Rightarrow> outbox_error option" where
  "claim_Validate r =
     (if TrimSpace (cr_WorkerID r) = [] then Some ErrOutboxWorkerIDRequired
      else if Limit r \<le> 0 then Some ErrOutboxClaimLimitInvalid
      else if IsZero (ClaimedAt r) then Some ErrOutboxPublishTimeRequired
      else if cr_LockDuration r \<le> 0 then Some ErrOutboxLockDurationInvalid
      else None)"

section \<open>Retry delay\<close>

lemma go_div_pos: "0 < b \<Longrightarrow> 0 \<le> a \<Longrightarrow> go_div a b = a div b"
  by (cases "a = 0") (simp_all add: go_div_def)

definition valid_policy :: "OutboxRetryPolicy \<Rightarrow> bool" where
  "valid_policy p \<longleftrightarrow> 0 < BaseDelay p \<and> BaseDelay p \<le> MaxDelay p \<and> MaxDelay p \<le> max_int64 \<and> Multiplier p \<noteq> 0"

lemma retry_Validate_iff:
  "retry_Validate p = None \<longleftrightarrow> 0 < BaseDelay p \<and> BaseDelay p \<le> MaxDelay p \<and> Multiplier p \<noteq> 0"
  by (auto simp: retry_Validate_def word_less_1)

lemma multiplier_pos: "Multiplier p \<noteq> 0 \<Longrightarrow> 1 \<le> uint (Multiplier p)"
  using unsigned_eq_0_iff [of "Multiplier p", where 'a = int] uint_ge_0 [of "Multiplier p"] by linarith

text \<open>As long as the loop continues the product stays below the cap, so nothing wraps around.\<close>

lemma Delay_loop_step:
  assumes "valid_policy p" "0 < d" "d < MaxDelay p div uint (Multiplier p)"
  shows "d * uint (Multiplier p) < MaxDelay p" "wrap64 (d * uint (Multiplier p)) = d * uint (Multiplier p)"
proof -
  let ?m = "uint (Multiplier p)"
  have m: "1 \<le> ?m" using assms(1) by (intro multiplier_pos) (simp add: valid_policy_def)
  have "(d + 1) * ?m \<le> MaxDelay p div ?m * ?m"
    using assms(3) m by (intro mult_right_mono) auto
  also have "\<dots> \<le> MaxDelay p" using m by (simp add: minus_mod_eq_div_mult [symmetric])
  finally show less: "d * ?m < MaxDelay p" using m by (simp add: distrib_right)
  have "0 < d * ?m" using assms(2) m by simp
  then show "wrap64 (d * ?m) = d * ?m"
    using less assms(1) by (intro wrap64_id) (simp_all add: valid_policy_def min_int64_def max_int64_def)
qed

lemma Delay_loop_bounds:
  assumes "valid_policy p" "0 < d" "d \<le> MaxDelay p"
  shows "\<exists>r. Delay_loop p n d = Some r \<and> d \<le> r \<and> r \<le> MaxDelay p"
  using assms(2,3)
proof (induction n arbitrary: d)
  case (Suc n)
  let ?m = "uint (Multiplier p)"
  have m: "1 \<le> ?m" "Multiplier p \<noteq> 0"
    using assms(1) by (auto simp: valid_policy_def multiplier_pos)
  have g: "go_div (MaxDelay p) ?m = MaxDelay p div ?m"
    using m Suc.prems by (intro go_div_pos) auto
  show ?case
  proof (cases "d \<ge> MaxDelay p div ?m")
    case True
    then show ?thesis using m g Suc.prems by simp
  next
    case False
    note step = Delay_loop_step [OF assms(1) Suc.prems(1)]
    have "d \<le> d * ?m" using Suc.prems m by simp
    moreover obtain r where "Delay_loop p n (d * ?m) = Some r" "d * ?m \<le> r" "r \<le> MaxDelay p"
      using Suc.IH [of "d * ?m"] step False Suc.prems m by auto
    ultimately show ?thesis using False m g step by auto
  qed
qed simp

lemma Delay_loop_exact:
  assumes "valid_policy p" "0 < d" "d \<le> MaxDelay p" "uint (Multiplier p) dvd MaxDelay p"
  shows "Delay_loop p n d = Some (min (d * uint (Multiplier p) ^ n) (MaxDelay p))"
  using assms(2,3)
proof (induction n arbitrary: d)
  case (Suc n)
  let ?m = "uint (Multiplier p)"
  have m: "1 \<le> ?m" "Multiplier p \<noteq> 0"
    using assms(1) by (auto simp: valid_policy_def multiplier_pos)
  have g: "go_div (MaxDelay p) ?m = MaxDelay p div ?m"
    using m Suc.prems by (intro go_div_pos) auto
  show ?case
  proof (cases "d \<ge> MaxDelay p div ?m")
    case True
    have "MaxDelay p = MaxDelay p div ?m * ?m" using assms(4) by simp
    also have "\<dots> \<le> d * ?m" using True m by (intro mult_right_mono) auto
    also have "\<dots> \<le> d * ?m * ?m ^ n" 
      using mult_left_mono [of 1 "?m ^ n" "d * ?m"] Suc.prems m by simp
    finally show ?thesis using True m g by (simp add: mult.assoc)
  next
    case False
    note step = Delay_loop_step [OF assms(1) Suc.prems(1)]
    then show ?thesis
      using Suc.IH [of "d * ?m"] False Suc.prems m g by (simp add: mult.assoc)
  qed
qed simp

section \<open>The record as a machine\<close>

text \<open>The methods that change a record.\<close>

datatype outbox_command =
    OStart string time int
  | OPublished string time
  | OFailure string string time OutboxRetryPolicy

primrec outbox_exec :: "outbox_command \<Rightarrow> OutboxRecord \<Rightarrow> OutboxRecord \<times> outbox_error option" where
  "outbox_exec (OStart w at d) = StartPublishing w at d"
| "outbox_exec (OPublished w at) = MarkPublished w at"
| "outbox_exec (OFailure w reason at p) = RegisterFailure w reason at p"

text \<open>
  The invariant: a record is normalised, is locked exactly while it is being published, and
  carries the time its status requires.
\<close>

definition outbox_ok :: "OutboxRecord \<Rightarrow> bool" where
  "outbox_ok r \<longleftrightarrow> outbox_IsValid (ob_Status r) \<and> MaxAttempts r \<noteq> 0 \<and>
     TrimSpace (LockOwner r) = LockOwner r \<and> TrimSpace (LastError r) = LastError r \<and>
     (ob_Status r = OutboxStatusPublishing \<longleftrightarrow> LockOwner r \<noteq> []) \<and>
     (LockOwner r \<noteq> [] \<longleftrightarrow> LockUntil r \<noteq> None) \<and>
     (ob_Status r = OutboxStatusRetryScheduled \<longrightarrow> NextAttemptAt r \<noteq> None) \<and>
     (ob_Status r = OutboxStatusPublished \<longrightarrow> PublishedAt r \<noteq> None) \<and>
     (ob_Status r = OutboxStatusDeadLettered \<longrightarrow>
        DeadLetteredAt r \<noteq> None \<and> MaxAttempts r \<le> Attempts r)"

definition same_event :: "OutboxRecord \<Rightarrow> OutboxRecord \<Rightarrow> bool" where
  "same_event r r' \<longleftrightarrow> ob_ID r' = ob_ID r \<and> AggregateType r' = AggregateType r \<and>
     AggregateID r' = AggregateID r \<and> ob_SessionID r' = ob_SessionID r \<and>
     AggregateVersion r' = AggregateVersion r \<and> EventType r' = EventType r \<and>
     Payload r' = Payload r \<and> OccurredAt r' = OccurredAt r \<and> ob_CreatedAt r' = ob_CreatedAt r"

definition outbox_le :: "OutboxRecord \<Rightarrow> OutboxRecord \<Rightarrow> bool" where
  "outbox_le r r' \<longleftrightarrow> same_event r r' \<and> (outbox_IsTerminal (ob_Status r) \<longrightarrow> r' = r)"

lemma normalizeOutboxRecord_ok: "outbox_ok r \<Longrightarrow> normalizeOutboxRecord r = r"
  by (auto simp: outbox_ok_def normalizeOutboxRecord_def outbox_IsValid_def split: OutboxStatus.splits)

lemma NewOutboxRecord_ok: "NewOutboxRecord marshal u ev at = Ok r \<Longrightarrow> outbox_ok r"
  by (auto simp: NewOutboxRecord_def normalizeOutboxRecord_def outbox_ok_def outbox_IsValid_def
      DefaultOutboxMaxAttempts_def Let_def split: option.splits if_splits sum.splits)

lemma StartPublishing_ok: "outbox_ok r \<Longrightarrow> outbox_ok (fst (StartPublishing w at d r))"
  using normalizeOutboxRecord_ok [of r]
  by (auto simp: StartPublishing_def Let_def outbox_ok_def outbox_IsValid_def)

lemma MarkPublished_ok: "outbox_ok r \<Longrightarrow> outbox_ok (fst (MarkPublished w at r))"
  by (auto simp: MarkPublished_def Let_def outbox_ok_def outbox_IsValid_def)

lemma Delay_total: "retry_Validate p = None \<Longrightarrow> \<exists>d. Delay p a = Some d"
proof -
  assume "retry_Validate p = None"
  then have "Multiplier p \<noteq> 0" by (simp add: retry_Validate_iff)
  then have "\<exists>d. Delay_loop p n x = Some d" for n x
    by (induction n arbitrary: x) auto
  then show ?thesis by (simp add: Delay_def)
qed

lemma RegisterFailure_cases:
  obtains (error) err where "RegisterFailure w reason at p r = (r, Some err)" "err \<noteq> PanicDivideByZero"
  | (dead) "MaxAttempts r \<le> Attempts r" "TrimSpace reason \<noteq> []"
      "RegisterFailure w reason at p r = (r\<lparr>LastError := TrimSpace reason, LastAttemptAt := Some (UTC at),
         LockOwner := [], LockUntil := None, ob_Status := OutboxStatusDeadLettered,
         DeadLetteredAt := Some (UTC at), NextAttemptAt := None\<rparr>, None)"
      "\<not> outbox_IsTerminal (ob_Status r)" "LockOwner r = TrimSpace w"
  | (retry) d where "Attempts r < MaxAttempts r" "TrimSpace reason \<noteq> []" "Delay p (Attempts r) = Some d"
      "RegisterFailure w reason at p r = (r\<lparr>LastError := TrimSpace reason, LastAttemptAt := Some (UTC at),
         LockOwner := [], LockUntil := None, ob_Status := OutboxStatusRetryScheduled,
         NextAttemptAt := Some (time_Add (UTC at) d)\<rparr>, None)"
      "\<not> outbox_IsTerminal (ob_Status r)" "LockOwner r = TrimSpace w" "retry_Validate p = None"
proof -
  have v: "err = ErrOutboxInvalidRetrySchedule" if "retry_Validate p = Some err" for err
    using that by (simp add: retry_Validate_def split: if_splits)
  show thesis
  proof (cases "RegisterFailure w reason at p r")
    case (Pair r' err)
    show thesis
    proof (cases err)
      case None
      then show thesis
        using Pair dead retry Delay_total [of p "Attempts r"]
        by (auto simp: RegisterFailure_def Let_def outbox_IsTerminal_def not_le split: if_splits option.splits)
    next
      case (Some x)
      then show thesis
        using Pair error Delay_total [of p "Attempts r"] v
        by (auto simp: RegisterFailure_def Let_def split: if_splits option.splits)
    qed
  qed
qed

lemma RegisterFailure_ok: "outbox_ok r \<Longrightarrow> outbox_ok (fst (RegisterFailure w reason at p r))"
  by (rule RegisterFailure_cases [of w reason at p r]) (auto simp: outbox_ok_def outbox_IsValid_def)

lemma StartPublishing_le: "outbox_ok r \<Longrightarrow> outbox_le r (fst (StartPublishing w at d r))"
  by (simp add: StartPublishing_def normalizeOutboxRecord_ok Let_def outbox_le_def same_event_def
      outbox_IsTerminal_def)

lemma terminal_unlocked: "outbox_ok r \<Longrightarrow> outbox_IsTerminal (ob_Status r) \<Longrightarrow> LockOwner r = []"
  by (auto simp: outbox_ok_def outbox_IsTerminal_def)

lemma MarkPublished_le: "outbox_ok r \<Longrightarrow> outbox_le r (fst (MarkPublished w at r))"
  using terminal_unlocked [of r] by (auto simp: MarkPublished_def outbox_le_def same_event_def)

lemma RegisterFailure_le: "outbox_le r (fst (RegisterFailure w reason at p r))"
  by (rule RegisterFailure_cases [of w reason at p r]) (simp_all add: outbox_le_def same_event_def)

lemma outbox_exec_le: "outbox_ok r \<Longrightarrow> outbox_le r (fst (outbox_exec c r))"
  by (cases c) (simp_all add: StartPublishing_le MarkPublished_le RegisterFailure_le)

lemma outbox_exec_ok: "outbox_ok r \<Longrightarrow> outbox_ok (fst (outbox_exec c r))"
  by (cases c) (simp_all add: StartPublishing_ok MarkPublished_ok RegisterFailure_ok)

interpretation outbox: ordered_machine outbox_exec outbox_ok outbox_le
proof unfold_locales
  show "outbox_le r s \<Longrightarrow> outbox_le s t \<Longrightarrow> outbox_le r t" for r s t
    by (simp add: outbox_le_def same_event_def)
qed (simp_all add: outbox_exec_ok outbox_exec_le, simp add: outbox_le_def same_event_def)

end
