(* ===== verification/Outbox_Repository.thy ===== *)
theory Outbox_Repository
  imports Outbox
begin

text \<open>
  The outbox table: the SQL statements of \<open>src/persistence/postgres/outbox_repository.go\<close> and
  \<open>store.go\<close> as functions on the rows, and what each of them leaves of the rows.

  A table is the list of its rows; \<open>event_id\<close> is the primary key. What the database decides is an
  argument: the rows other transactions hold locked (\<open>SKIP LOCKED\<close>) and, as a rank of the keys, the
  order in which an \<open>UPDATE ... RETURNING\<close> delivers its rows. The rounding of timestamps to microseconds, the
  32-bit range of the \<open>attempts\<close> column and connection failures are not modelled.
\<close>

section \<open>The table\<close>

type_synonym outbox_table = "OutboxRecord list"

definition row :: "outbox_table \<Rightarrow> uuid \<Rightarrow> OutboxRecord option" where
  "row t i = find (\<lambda>r. ob_ID r = i) t"

text \<open>A \<open>TIMESTAMPTZ\<close> column holds an instant: what is read from it is in UTC
  (\<open>nullTimePointer\<close>).\<close>

definition nullTimePointer :: "time option \<Rightarrow> time option" where
  "nullTimePointer t = map_option UTC t"

definition scan_times :: "OutboxRecord \<Rightarrow> OutboxRecord" where
  "scan_times r = r\<lparr>PublishingStartedAt := nullTimePointer (PublishingStartedAt r),
     PublishedAt := nullTimePointer (PublishedAt r), NextAttemptAt := nullTimePointer (NextAttemptAt r),
     LastAttemptAt := nullTimePointer (LastAttemptAt r),
     DeadLetteredAt := nullTimePointer (DeadLetteredAt r), LockUntil := nullTimePointer (LockUntil r)\<rparr>"

text \<open>What every table satisfies: the key is unique and the nullable times are in UTC.\<close>

definition stored :: "outbox_table \<Rightarrow> bool" where
  "stored t \<longleftrightarrow> distinct (map ob_ID t) \<and> (\<forall>r\<in>set t. scan_times r = r)"

text \<open>\<open>UPDATE ... SET ... WHERE\<close>: the new table and the number of rows affected.\<close>

definition sql_update ::
  "(OutboxRecord \<Rightarrow> bool) \<Rightarrow> (OutboxRecord \<Rightarrow> OutboxRecord) \<Rightarrow> outbox_table \<Rightarrow> outbox_table \<times> nat" where
  "sql_update cond set1 t = (map (\<lambda>r. if cond r then set1 r else r) t, length (filter cond t))"

definition validateOutboxRecord :: "(string \<Rightarrow> bool) \<Rightarrow> OutboxRecord \<Rightarrow> outbox_error option" where
  "validateOutboxRecord json_Valid r =
     (if ob_ID r = Nil_uuid \<or> AggregateID r = Nil_uuid \<or> ob_SessionID r = Nil_uuid
      then Some ErrInvalidOutboxRecord
      else if AggregateType r = [] \<or> AggregateVersion r = 0 \<or> EventType r = []
      then Some ErrInvalidOutboxRecord
      else if \<not> outbox_IsValid (ob_Status r) \<or> IsZero (OccurredAt r) \<or> IsZero (ob_CreatedAt r) \<or>
              \<not> json_Valid (Payload r)
      then Some ErrInvalidOutboxRecord
      else None)"

text \<open>Columns the \<open>INSERT\<close> does not name take their defaults; a duplicate key or a \<open>max_attempts\<close> that
  is not positive fails, and with it the transaction, so that the table stays as it was.\<close>

definition inserted_row :: "OutboxRecord \<Rightarrow> OutboxRecord" where
  "inserted_row r = r\<lparr>PublishingStartedAt := None, PublishedAt := None, NextAttemptAt := None,
     LastAttemptAt := None, DeadLetteredAt := None, LastError := [], LockOwner := [], LockUntil := None\<rparr>"

fun insertOutboxRecords ::
  "(string \<Rightarrow> bool) \<Rightarrow> OutboxRecord list \<Rightarrow> outbox_table \<Rightarrow> outbox_error + outbox_table" where
  "insertOutboxRecords json_Valid [] t = Ok t"
| "insertOutboxRecords json_Valid (r # rs) t =
     (case validateOutboxRecord json_Valid r of
        Some err \<Rightarrow> Err err
      | None \<Rightarrow>
          if ob_ID r \<in> set (map ob_ID t) \<or> MaxAttempts r = 0 then Err ErrInsertOutboxRecord
          else insertOutboxRecords json_Valid rs (t @ [inserted_row r]))"

definition scanOutboxRecord :: "(string \<Rightarrow> bool) \<Rightarrow> OutboxRecord \<Rightarrow> outbox_error + OutboxRecord" where
  "scanOutboxRecord json_Valid r =
     (let r = scan_times r in
      case validateOutboxRecord json_Valid r of Some err \<Rightarrow> Err err | None \<Rightarrow> Ok r)"

text \<open>The loop over the returned rows: the first row that does not scan ends it.\<close>

fun scan_rows :: "(string \<Rightarrow> bool) \<Rightarrow> OutboxRecord list \<Rightarrow> outbox_error + OutboxRecord list" where
  "scan_rows json_Valid [] = Ok []"
| "scan_rows json_Valid (r # rs) =
     (case scanOutboxRecord json_Valid r of
        Inl err \<Rightarrow> Err err
      | Inr rec \<Rightarrow> (case scan_rows json_Valid rs of Inl err \<Rightarrow> Err err | Inr recs \<Rightarrow> Ok (rec # recs)))"

definition claimable :: "time \<Rightarrow> OutboxRecord \<Rightarrow> bool" where
  "claimable at r \<longleftrightarrow>
     (ob_Status r = OutboxStatusPending \<or>
      ob_Status r = OutboxStatusRetryScheduled \<and>
        (case NextAttemptAt r of None \<Rightarrow> False | Some t \<Rightarrow> \<not> After t at)) \<and>
     (case LockUntil r of None \<Rightarrow> True | Some t \<Rightarrow> \<not> After t at)"

definition claim_row :: "string \<Rightarrow> time \<Rightarrow> time \<Rightarrow> OutboxRecord \<Rightarrow> OutboxRecord" where
  "claim_row workerID at until r =
     r\<lparr>ob_Status := OutboxStatusPublishing, PublishingStartedAt := Some at, LastAttemptAt := Some at,
       Attempts := Attempts r + 1, LockOwner := workerID, LockUntil := Some until\<rparr>"

text \<open>\<open>ORDER BY occurred_at, event_id ... LIMIT\<close>.\<close>

definition claimed_ids :: "(uuid \<Rightarrow> bool) \<Rightarrow> OutboxClaimRequest \<Rightarrow> outbox_table \<Rightarrow> uuid list" where
  "claimed_ids locked request t =
     take (nat (Limit request))
       (map ob_ID (sort_key (\<lambda>r. instant (OccurredAt r)) (sort_key ob_ID
          (filter (\<lambda>r. claimable (UTC (ClaimedAt request)) r \<and> \<not> locked (ob_ID r)) t))))"

definition ClaimReady ::
  "(string \<Rightarrow> bool) \<Rightarrow> (uuid \<Rightarrow> bool) \<Rightarrow> (uuid \<Rightarrow> nat) \<Rightarrow>
   OutboxClaimRequest \<Rightarrow> outbox_table \<Rightarrow> outbox_table \<times> (outbox_error + OutboxRecord list)" where
  "ClaimReady json_Valid locked rank request t =
     (case claim_Validate request of
        Some err \<Rightarrow> (t, Err err)
      | None \<Rightarrow>
          let at = UTC (ClaimedAt request);
              until = time_Add at (cr_LockDuration request);
              ids = claimed_ids locked request t;
              t' = fst (sql_update (\<lambda>r. ob_ID r \<in> set ids)
                     (claim_row (TrimSpace (cr_WorkerID request)) at until) t);
              returned = sort_key (\<lambda>r. rank (ob_ID r)) (filter (\<lambda>r. ob_ID r \<in> set ids) t')
          in case scan_rows json_Valid returned of
               Inl err \<Rightarrow> (t, Err err)
             | Inr records \<Rightarrow> (t', Ok records))"

text \<open>\<open>requireSingleOutboxUpdate\<close>.\<close>

definition single_update :: "outbox_table \<times> nat \<Rightarrow> outbox_table \<times> outbox_error option" where
  "single_update res = (fst res, if snd res \<noteq> 1 then Some ErrOutboxConcurrentModification else None)"

definition owned :: "uuid \<Rightarrow> string \<Rightarrow> OutboxRecord \<Rightarrow> bool" where
  "owned i workerID r \<longleftrightarrow> ob_ID r = i \<and> ob_Status r = OutboxStatusPublishing \<and> LockOwner r = workerID"

definition store_MarkPublished ::
  "uuid \<Rightarrow> string \<Rightarrow> time \<Rightarrow> outbox_table \<Rightarrow> outbox_table \<times> outbox_error option" where
  "store_MarkPublished i workerID at t =
     (if i = Nil_uuid then (t, Some ErrOutboxRecordNotFound)
      else let workerID = TrimSpace workerID in
        if workerID = [] then (t, Some ErrOutboxWorkerIDRequired)
        else if IsZero at then (t, Some ErrOutboxPublishTimeRequired)
        else single_update (sql_update (owned i workerID)
               (\<lambda>r. r\<lparr>ob_Status := OutboxStatusPublished, PublishedAt := Some (UTC at),
                      NextAttemptAt := None, LastError := [], LockOwner := [], LockUntil := None\<rparr>) t))"

text \<open>The columns \<open>persistFailedRecord\<close> sets.\<close>

definition persisted :: "OutboxRecord \<Rightarrow> OutboxRecord \<Rightarrow> OutboxRecord" where
  "persisted rec r = r\<lparr>ob_Status := ob_Status rec, NextAttemptAt := nullTimePointer (NextAttemptAt rec),
     LastAttemptAt := nullTimePointer (LastAttemptAt rec),
     DeadLetteredAt := nullTimePointer (DeadLetteredAt rec),
     Attempts := Attempts rec, LastError := LastError rec, LockOwner := [], LockUntil := None\<rparr>"

definition persistFailedRecord ::
  "OutboxRecord \<Rightarrow> string \<Rightarrow> outbox_table \<Rightarrow> outbox_table \<times> outbox_error option" where
  "persistFailedRecord rec workerID t =
     (let workerID = TrimSpace workerID in
      if workerID = [] then (t, Some ErrOutboxWorkerIDRequired)
      else single_update (sql_update (owned (ob_ID rec) workerID) (persisted rec) t))"

definition ScheduleRetry ::
  "OutboxRecord \<Rightarrow> string \<Rightarrow> outbox_table \<Rightarrow> outbox_table \<times> outbox_error option" where
  "ScheduleRetry rec workerID t =
     (if ob_Status rec \<noteq> OutboxStatusRetryScheduled \<or> NextAttemptAt rec = None
      then (t, Some ErrOutboxInvalidRetrySchedule)
      else persistFailedRecord rec workerID t)"

definition MarkDeadLettered ::
  "OutboxRecord \<Rightarrow> string \<Rightarrow> outbox_table \<Rightarrow> outbox_table \<times> outbox_error option" where
  "MarkDeadLettered rec workerID t =
     (if ob_Status rec \<noteq> OutboxStatusDeadLettered \<or> DeadLetteredAt rec = None
      then (t, Some ErrOutboxAlreadyDeadLettered)
      else persistFailedRecord rec workerID t)"

definition expired_lock :: "time \<Rightarrow> OutboxRecord \<Rightarrow> bool" where
  "expired_lock at r \<longleftrightarrow> ob_Status r = OutboxStatusPublishing \<and>
     (case LockUntil r of None \<Rightarrow> False | Some t \<Rightarrow> \<not> After t at)"

definition ReleaseExpiredLocks ::
  "time \<Rightarrow> outbox_table \<Rightarrow> outbox_table \<times> (outbox_error + nat)" where
  "ReleaseExpiredLocks at t =
     (if IsZero at then (t, Err ErrOutboxFailureTimeRequired)
      else let res = sql_update (expired_lock at)
             (\<lambda>r. r\<lparr>ob_Status := OutboxStatusRetryScheduled, NextAttemptAt := Some (UTC at),
                    LockOwner := [], LockUntil := None\<rparr>) t
           in (fst res, Ok (snd res)))"

definition FindByID :: "(string \<Rightarrow> bool) \<Rightarrow> uuid \<Rightarrow> outbox_table \<Rightarrow> outbox_error + OutboxRecord" where
  "FindByID json_Valid i t =
     (if i = Nil_uuid then Err ErrOutboxRecordNotFound
      else case row t i of
             None \<Rightarrow> Err ErrOutboxRecordNotFound
           | Some r \<Rightarrow> scanOutboxRecord json_Valid r)"

section \<open>What the statements leave of the rows\<close>

lemma row_key: "row t i = Some r \<Longrightarrow> r \<in> set t \<and> ob_ID r = i"
  by (auto simp: row_def find_Some_iff)

lemma row_in_table: "distinct (map ob_ID t) \<Longrightarrow> r \<in> set t \<Longrightarrow> row t (ob_ID r) = Some r"
  by (induction t) (auto simp: row_def)

lemma row_Some_iff: "stored t \<Longrightarrow> row t i = Some r \<longleftrightarrow> r \<in> set t \<and> ob_ID r = i"
  using row_key [of t i r] row_in_table [of t r] by (auto simp: stored_def)

lemma row_None_iff: "row t i = None \<longleftrightarrow> i \<notin> ob_ID ` set t"
  by (auto simp: row_def find_None_iff)

lemma row_map: "(\<And>r. ob_ID (f r) = ob_ID r) \<Longrightarrow> row (map f t) i = map_option f (row t i)"
  by (induction t) (simp_all add: row_def)

lemma stored_map:
  assumes "stored t" "\<And>r. ob_ID (f r) = ob_ID r" "\<And>r. scan_times r = r \<Longrightarrow> scan_times (f r) = f r"
  shows "stored (map f t)"
proof -
  have "map ob_ID (map f t) = map ob_ID t" using assms(2) by simp
  then show ?thesis using assms(1,3) by (simp add: stored_def del: map_map)
qed

lemma filter_key:
  "distinct (map ob_ID t) \<Longrightarrow>
   filter (\<lambda>r. ob_ID r = i) t = (case row t i of None \<Rightarrow> [] | Some r \<Rightarrow> [r])"
proof (induction t)
  case (Cons r t)
  have "filter (\<lambda>r. ob_ID r = i) t = []" if "ob_ID r = i"
    using Cons.prems that by (auto simp: filter_empty_conv) (metis image_eqI)
  then show ?case using Cons by (auto simp: row_def)
qed (simp add: row_def)

lemma filter_owned:
  assumes "stored t"
  shows "filter (owned i w) t =
    (case row t i of None \<Rightarrow> [] | Some r \<Rightarrow> if owned i w r then [r] else [])"
proof -
  have "filter (owned i w) t = filter (owned i w) (filter (\<lambda>r. ob_ID r = i) t)"
    by (simp add: filter_filter owned_def) (rule filter_cong; auto simp: owned_def)
  also have "\<dots> = filter (owned i w) (case row t i of None \<Rightarrow> [] | Some r \<Rightarrow> [r])"
    using assms filter_key [of t i] by (simp add: stored_def)
  finally show ?thesis by (simp split: option.split)
qed

text \<open>An \<open>UPDATE\<close> of the row a worker holds either changes exactly that row or nothing.\<close>

lemma owned_update:
  assumes "stored t" "\<And>r. ob_ID (f r) = ob_ID r" "\<And>r. scan_times r = r \<Longrightarrow> scan_times (f r) = f r"
    and "single_update (sql_update (owned i w) f t) = (t', err)"
  shows "err = None \<and> stored t' \<and>
      (\<exists>r. row t i = Some r \<and> owned i w r \<and> row t' = (row t)(i \<mapsto> f r)) \<or>
    err = Some ErrOutboxConcurrentModification \<and> t' = t \<and> (\<forall>r. row t i = Some r \<longrightarrow> \<not> owned i w r)"
proof -
  let ?f = "\<lambda>r. if owned i w r then f r else r"
  have t': "t' = map ?f t" using assms(4) by (simp add: single_update_def sql_update_def)
  have keep: "ob_ID (?f r) = ob_ID r" for r using assms(2) by simp
  have st: "stored t'" unfolding t' by (rule stored_map) (use assms(1-3) in auto)
  have rows: "row t' j = map_option ?f (row t j)" for j unfolding t' by (rule row_map) (rule keep)
  note filter = filter_owned [OF assms(1), of i w]
  show ?thesis
  proof (cases "\<exists>r. row t i = Some r \<and> owned i w r")
    case True
    then obtain r where r: "row t i = Some r" "owned i w r" by blast
    then have "err = None" using filter assms(4) by (simp add: single_update_def sql_update_def)
    moreover have "row t' = (row t)(i \<mapsto> f r)"
    proof
      fix j
      have "map_option ?f (row t j) = row t j" if "j \<noteq> i"
        using that row_key [of t j] by (cases "row t j") (auto simp: owned_def)
      then show "row t' j = ((row t)(i \<mapsto> f r)) j" using rows r by simp
    qed
    ultimately show ?thesis using r st by blast
  next
    case False
    then have empty: "filter (owned i w) t = []" using filter by (auto split: option.split)
    then have "t' = t" unfolding t' by (intro map_idI) (simp add: filter_empty_conv)
    then show ?thesis using False empty assms(4) by (auto simp: single_update_def sql_update_def)
  qed
qed

lemma nullTimePointer_idem [simp]: "nullTimePointer (nullTimePointer t) = nullTimePointer t"
  by (cases t) (simp_all add: nullTimePointer_def)

lemma nullTimePointer_simps [simp]:
  "nullTimePointer None = None" "nullTimePointer (Some t) = Some (UTC t)"
  by (simp_all add: nullTimePointer_def)

lemma store_MarkPublished_row:
  assumes "stored t" "store_MarkPublished i w at t = (t', err)"
  shows "err = None \<and> stored t' \<and> \<not> IsZero at \<and> TrimSpace w \<noteq> [] \<and>
      (\<exists>r. row t i = Some r \<and> owned i (TrimSpace w) r \<and> row t' = (row t)(i \<mapsto> fst (MarkPublished w at r))) \<or>
    err \<noteq> None \<and> t' = t"
proof (cases "i = Nil_uuid \<or> TrimSpace w = [] \<or> IsZero at")
  case True
  then show ?thesis using assms(2) by (auto simp: store_MarkPublished_def Let_def split: if_splits)
next
  case False
  let ?f = "\<lambda>r. r\<lparr>ob_Status := OutboxStatusPublished, PublishedAt := Some (UTC at),
                      NextAttemptAt := None, LastError := [], LockOwner := [], LockUntil := None\<rparr>"
  have "single_update (sql_update (owned i (TrimSpace w)) ?f t) = (t', err)"
    using False assms(2) by (simp add: store_MarkPublished_def)
  note upd = owned_update [OF assms(1) _ _ this]
  have eq: "?f r = fst (MarkPublished w at r)" if "owned i (TrimSpace w) r" for r
    using that False by (simp add: MarkPublished_def owned_def)
  show ?thesis
  proof (rule disjE [OF upd])
    show "ob_ID (?f r) = ob_ID r" for r by simp
    show "scan_times r = r \<Longrightarrow> scan_times (?f r) = ?f r" for r
      by (cases r) (simp add: scan_times_def)
  qed (use False eq in auto)
qed

lemma store_MarkPublished_live:
  assumes "stored t" "row t i = Some r" "owned i (TrimSpace w) r" "TrimSpace w \<noteq> []" "i \<noteq> Nil_uuid" "\<not> IsZero at"
  shows "snd (store_MarkPublished i w at t) = None"
  using assms filter_owned [OF assms(1), of i "TrimSpace w"]
  by (simp add: store_MarkPublished_def single_update_def sql_update_def)

lemma persistFailedRecord_live:
  assumes "stored t" "row t (ob_ID rec) = Some r" "owned (ob_ID rec) (TrimSpace w) r" "TrimSpace w \<noteq> []"
  shows "snd (persistFailedRecord rec w t) = None"
  using assms filter_owned [OF assms(1), of "ob_ID rec" "TrimSpace w"]
  by (simp add: persistFailedRecord_def single_update_def sql_update_def)

lemma persistFailedRecord_row:
  assumes "stored t" "persistFailedRecord rec w t = (t', err)"
  shows "err = None \<and> stored t' \<and> TrimSpace w \<noteq> [] \<and>
      (\<exists>r. row t (ob_ID rec) = Some r \<and> owned (ob_ID rec) (TrimSpace w) r \<and>
         row t' = (row t)(ob_ID rec \<mapsto> persisted rec r)) \<or>
    err \<noteq> None \<and> t' = t"
proof (cases "TrimSpace w = []")
  case False
  then have "single_update (sql_update (owned (ob_ID rec) (TrimSpace w)) (persisted rec) t) = (t', err)"
    using assms(2) by (simp add: persistFailedRecord_def)
  note upd = owned_update [OF assms(1) _ _ this]
  show ?thesis
  proof (rule disjE [OF upd])
    show "ob_ID (persisted rec r) = ob_ID r" for r by (simp add: persisted_def)
    show "scan_times r = r \<Longrightarrow> scan_times (persisted rec r) = persisted rec r" for r
      by (cases r) (simp add: scan_times_def persisted_def)
  qed (use False in auto)
qed (use assms(2) in \<open>auto simp: persistFailedRecord_def\<close>)

lemma scan_rows_Ok:
  "scan_rows json_Valid rs = Ok recs \<Longrightarrow> \<forall>r\<in>set rs. scan_times r = r \<Longrightarrow>
   recs = rs \<and> (\<forall>r\<in>set rs. validateOutboxRecord json_Valid r = None)"
proof (induction rs arbitrary: recs)
  case (Cons r rs)
  then show ?case by (auto simp: scanOutboxRecord_def split: sum.splits option.splits)
qed simp

lemma validated_ID: "validateOutboxRecord json_Valid r = None \<Longrightarrow> ob_ID r \<noteq> Nil_uuid"
  by (simp add: validateOutboxRecord_def split: if_splits)

lemma claim_row_ID [simp]: "ob_ID (claim_row w at until r) = ob_ID r"
  by (simp add: claim_row_def)

lemma claim_row_scan:
  "scan_times r = r \<Longrightarrow> UTC at = at \<Longrightarrow> UTC until = until \<Longrightarrow>
   scan_times (claim_row w at until r) = claim_row w at until r"
  by (cases r) (simp add: claim_row_def scan_times_def)

lemma ReleaseExpiredLocks_row:
  assumes "stored t" "ReleaseExpiredLocks at t = (t', res)"
  shows "stored t' \<and> (\<forall>i. row t' i = (case row t i of None \<Rightarrow> None | Some r \<Rightarrow>
      Some (if \<not> IsZero at \<and> expired_lock at r
            then r\<lparr>ob_Status := OutboxStatusRetryScheduled, NextAttemptAt := Some (UTC at),
                   LockOwner := [], LockUntil := None\<rparr> else r)))"
proof (cases "IsZero at")
  case True
  then show ?thesis using assms by (auto simp: ReleaseExpiredLocks_def split: option.split)
next
  case False
  let ?f = "\<lambda>r. if expired_lock at r then r\<lparr>ob_Status := OutboxStatusRetryScheduled,
              NextAttemptAt := Some (UTC at), LockOwner := [], LockUntil := None\<rparr> else r"
  have t': "t' = map ?f t" using assms(2) False by (simp add: ReleaseExpiredLocks_def sql_update_def)
  have "stored t'" unfolding t'
  proof (rule stored_map [OF assms(1)])
    show "scan_times r = r \<Longrightarrow> scan_times (?f r) = ?f r" for r by (cases r) (simp add: scan_times_def)
  qed simp
  moreover have "row t' i = map_option ?f (row t i)" for i unfolding t' by (rule row_map) simp
  ultimately show ?thesis using False by (simp split: option.split)
qed

lemma distinct_sorted_filter: "distinct (map f xs) \<Longrightarrow> distinct (map f (sort_key k (filter P xs)))"
  by (auto simp: distinct_map intro: inj_on_subset)

lemma claimed_ids_claimable:
  assumes "i \<in> set (claimed_ids locked rq t)"
  shows "\<exists>r\<in>set t. ob_ID r = i \<and> claimable (UTC (ClaimedAt rq)) r \<and> \<not> locked i"
  using in_set_takeD [OF assms [unfolded claimed_ids_def]] by auto

lemma ClaimReady_row:
  assumes "stored t" "ClaimReady json_Valid locked rank rq t = (t', Ok rs)"
  defines "claim \<equiv> claim_row (TrimSpace (cr_WorkerID rq)) (UTC (ClaimedAt rq))
                      (time_Add (UTC (ClaimedAt rq)) (cr_LockDuration rq))"
  shows "stored t' \<and> claim_Validate rq = None \<and> distinct (map ob_ID rs) \<and>
    ob_ID ` set rs = set (claimed_ids locked rq t) \<and>
    (\<forall>i. row t' i = map_option (\<lambda>r. if i \<in> ob_ID ` set rs then claim r else r) (row t i)) \<and>
    (\<forall>r\<in>set rs. row t' (ob_ID r) = Some r \<and> ob_ID r \<noteq> Nil_uuid)"
proof -
  let ?ids = "claimed_ids locked rq t"
  let ?f = "\<lambda>r. if ob_ID r \<in> set ?ids then claim r else r"
  let ?ret = "sort_key (\<lambda>r. rank (ob_ID r)) (filter (\<lambda>r. ob_ID r \<in> set ?ids) t')"
  have v: "claim_Validate rq = None" and t': "t' = map ?f t" and scan: "scan_rows json_Valid ?ret = Ok rs"
    using assms(2) unfolding claim_def
    by (auto simp: ClaimReady_def Let_def sql_update_def split: option.splits sum.splits)
  have ID: "ob_ID (claim r) = ob_ID r" for r by (simp add: claim_def)
  have st: "stored t'"
    unfolding t'
  proof (rule stored_map [OF assms(1)])
    show "scan_times r = r \<Longrightarrow> scan_times (?f r) = ?f r" for r
      by (simp add: claim_def claim_row_scan)
  qed (simp add: ID)
  have "rs = ?ret \<and> (\<forall>r\<in>set ?ret. validateOutboxRecord json_Valid r = None)"
    by (rule scan_rows_Ok [OF scan]) (use st in \<open>simp add: stored_def\<close>)
  then have rs: "rs = ?ret" and valid: "\<forall>r\<in>set rs. ob_ID r \<noteq> Nil_uuid" using validated_ID by blast+
  have set_rs: "set rs = {r \<in> set t'. ob_ID r \<in> set ?ids}" unfolding rs by simp
  have dist: "distinct (map ob_ID rs)"
    unfolding rs by (rule distinct_sorted_filter) (use st in \<open>simp add: stored_def\<close>)
  have ids: "ob_ID ` set rs = set ?ids"
  proof
    show "set ?ids \<subseteq> ob_ID ` set rs"
    proof
      fix i
      assume i: "i \<in> set ?ids"
      then obtain r where "r \<in> set t" "ob_ID r = i" using claimed_ids_claimable by blast
      then have "?f r \<in> set rs" and e: "ob_ID (?f r) = i" using i unfolding set_rs t' by (auto simp: ID)
      from imageI [OF this(1), of ob_ID] show "i \<in> ob_ID ` set rs" unfolding e .
    qed
  qed (auto simp: set_rs)
  have "row t' i = map_option ?f (row t i)" for i unfolding t' by (rule row_map) (simp add: ID)
  then have "row t' i = map_option (\<lambda>r. if i \<in> ob_ID ` set rs then claim r else r) (row t i)" for i
    using row_key [of t i] by (cases "row t i") (simp_all add: ids)
  moreover have "row t' (ob_ID r) = Some r" if "r \<in> set rs" for r
    using row_in_table [of t' r] st that by (simp add: set_rs stored_def)
  ultimately show ?thesis using st v dist ids valid by blast
qed

end
