(* ===== verification/Outbox_Publisher.thy ===== *)
theory Outbox_Publisher
  imports Outbox_Repository
begin

text \<open>
  The outbox publisher (\<open>src/evaluation/publisher.go\<close>): its configuration, \<open>PublishOnce\<close> and the
  worker loop, against the repository interface it uses. The interface is a locale; the lemmas about
  the publisher are proved from its laws, and the PostgreSQL repository is an interpretation of it.
\<close>

section \<open>The publisher\<close>

record BrokerMessage =
  bm_ID :: string
  bm_Topic :: string
  bm_Key :: string
  bm_Headers :: "(string \<times> string) list"
  bm_Payload :: string
  bm_OccurredAt :: time

record OutboxPublisherConfig =
  pc_WorkerID :: string
  pc_Topic :: string
  pc_BatchSize :: int
  pc_PollInterval :: int
  pc_LockDuration :: int
  pc_PublishTimeout :: int
  pc_MaxParallelPublications :: int
  pc_RetryPolicy :: OutboxRetryPolicy
  pc_ExpiredLockCleanupInterval :: int

definition DefaultOutboxPublisherConfig :: "string \<Rightarrow> OutboxPublisherConfig" where
  "DefaultOutboxPublisherConfig workerID =
     \<lparr>pc_WorkerID = workerID, pc_Topic = ''cargoos.evaluation.events.v1'', pc_BatchSize = 100,
      pc_PollInterval = 500 * 1000000, pc_LockDuration = 30 * 1000000000,
      pc_PublishTimeout = 10 * 1000000000, pc_MaxParallelPublications = 8,
      pc_RetryPolicy = DefaultOutboxRetryPolicy, pc_ExpiredLockCleanupInterval = 30 * 1000000000\<rparr>"

definition publisher_Validate :: "OutboxPublisherConfig \<Rightarrow> outbox_error option" where
  "publisher_Validate c =
     (if TrimSpace (pc_WorkerID c) = [] then Some ErrOutboxWorkerIDRequired
      else if TrimSpace (pc_Topic c) = [] \<or> pc_PollInterval c \<le> 0 \<or> pc_LockDuration c \<le> 0 \<or>
              pc_PublishTimeout c \<le> 0 \<or> pc_MaxParallelPublications c \<le> 0 \<or>
              pc_ExpiredLockCleanupInterval c \<le> 0
      then Some ErrOutboxPublisherConfigInvalid
      else if pc_BatchSize c \<le> 0 then Some ErrOutboxClaimLimitInvalid
      else if pc_PublishTimeout c \<ge> pc_LockDuration c then Some ErrOutboxPublisherConfigInvalid
      else retry_Validate (pc_RetryPolicy c))"

text \<open>The interface \<open>OutboxPublisherRepository\<close>, on a repository state \<open>'s\<close>.\<close>

record 's outbox_repo =
  repo_ClaimReady :: "OutboxClaimRequest \<Rightarrow> 's \<Rightarrow> 's \<times> (outbox_error + OutboxRecord list)"
  repo_MarkPublished :: "uuid \<Rightarrow> string \<Rightarrow> time \<Rightarrow> 's \<Rightarrow> 's \<times> outbox_error option"
  repo_ScheduleRetry :: "OutboxRecord \<Rightarrow> string \<Rightarrow> 's \<Rightarrow> 's \<times> outbox_error option"
  repo_MarkDeadLettered :: "OutboxRecord \<Rightarrow> string \<Rightarrow> 's \<Rightarrow> 's \<times> outbox_error option"
  repo_ReleaseExpiredLocks :: "time \<Rightarrow> 's \<Rightarrow> 's \<times> (outbox_error + nat)"

definition broker_message :: "OutboxPublisherConfig \<Rightarrow> OutboxRecord \<Rightarrow> BrokerMessage" where
  "broker_message c r =
     \<lparr>bm_ID = uuid_String (ob_ID r), bm_Topic = pc_Topic c, bm_Key = uuid_String (AggregateID r),
      bm_Headers = [(''event_type'', EventType r), (''aggregate_version'', decimal (unat (AggregateVersion r)))],
      bm_Payload = Payload r, bm_OccurredAt = OccurredAt r\<rparr>"

text \<open>
  The loop of \<open>PublishOnce\<close>. The broker is the function \<open>send\<close>: for the \<open>k\<close>-th message it gives
  \<open>None\<close> for success or the text of the error; \<open>sent\<close> is the list of the messages it accepted. The
  clock after the \<open>k\<close>-th message is \<open>now k\<close>.
\<close>

fun PublishOnce_loop ::
  "'s outbox_repo \<Rightarrow> (nat \<Rightarrow> BrokerMessage \<Rightarrow> string option) \<Rightarrow> OutboxPublisherConfig \<Rightarrow> (nat \<Rightarrow> time) \<Rightarrow>
   OutboxRecord list \<Rightarrow> nat \<Rightarrow> 's \<Rightarrow> BrokerMessage list \<Rightarrow> nat \<Rightarrow>
   's \<times> BrokerMessage list \<times> nat \<times> outbox_error option" where
  "PublishOnce_loop repo send c now [] k s sent published = (s, sent, published, None)"
| "PublishOnce_loop repo send c now (r # rs) k s sent published =
     (case send k (broker_message c r) of
        None \<Rightarrow>
          (case repo_MarkPublished repo (ob_ID r) (pc_WorkerID c) (UTC (now k)) s of
             (s', Some err) \<Rightarrow> (s', sent @ [broker_message c r], published, Some err)
           | (s', None) \<Rightarrow>
               PublishOnce_loop repo send c now rs (Suc k) s' (sent @ [broker_message c r]) (published + 1))
      | Some reason \<Rightarrow>
          (case RegisterFailure (pc_WorkerID c) reason (UTC (now k)) (pc_RetryPolicy c) r of
             (r', Some ferr) \<Rightarrow> (s, sent, published, Some ferr)
           | (r', None) \<Rightarrow>
               (case (if ob_Status r' = OutboxStatusDeadLettered
                      then repo_MarkDeadLettered repo r' (pc_WorkerID c) s
                      else repo_ScheduleRetry repo r' (pc_WorkerID c) s) of
                  (s', Some err) \<Rightarrow> (s', sent, published, Some err)
                | (s', None) \<Rightarrow> PublishOnce_loop repo send c now rs (Suc k) s' sent published)))"

definition PublishOnce ::
  "'s outbox_repo \<Rightarrow> (nat \<Rightarrow> BrokerMessage \<Rightarrow> string option) \<Rightarrow> OutboxPublisherConfig \<Rightarrow> time \<Rightarrow>
   (nat \<Rightarrow> time) \<Rightarrow> 's \<Rightarrow> 's \<times> BrokerMessage list \<times> nat \<times> outbox_error option" where
  "PublishOnce repo send c claimTime now s =
     (case repo_ClaimReady repo \<lparr>cr_WorkerID = pc_WorkerID c, Limit = pc_BatchSize c,
             ClaimedAt = UTC claimTime, cr_LockDuration = pc_LockDuration c\<rparr> s of
        (s', Inl err) \<Rightarrow> (s', [], 0, Some err)
      | (s', Inr records) \<Rightarrow> PublishOnce_loop repo send c now records 0 s' [] 0)"

text \<open>
  The publisher object. \<open>Start\<close> and \<open>Stop\<close> guard a running flag; \<open>close\<close> is the result of the broker's
  \<open>Close\<close>, which \<open>Stop\<close> returns after the worker has ended.
\<close>

record 's OutboxPublisher =
  pub_repo :: "'s outbox_repo"
  pub_config :: OutboxPublisherConfig
  running :: bool

definition NewOutboxPublisher ::
  "'s outbox_repo option \<Rightarrow> 'b option \<Rightarrow> OutboxPublisherConfig \<Rightarrow> outbox_error + 's OutboxPublisher" where
  "NewOutboxPublisher repo broker c =
     (case repo of
        None \<Rightarrow> Err ErrOutboxPublisherUnavailable
      | Some repo \<Rightarrow>
          if broker = None then Err ErrOutboxBrokerUnavailable
          else case publisher_Validate c of
                 Some err \<Rightarrow> Err err
               | None \<Rightarrow> Ok \<lparr>pub_repo = repo, pub_config = c, running = False\<rparr>)"

definition publisher_Start :: "'s OutboxPublisher \<Rightarrow> 's OutboxPublisher \<times> outbox_error option" where
  "publisher_Start p =
     (if running p then (p, Some ErrOutboxPublisherAlreadyRunning) else (p\<lparr>running := True\<rparr>, None))"

definition publisher_Stop ::
  "outbox_error option \<Rightarrow> 's OutboxPublisher \<Rightarrow> 's OutboxPublisher \<times> outbox_error option" where
  "publisher_Stop close p =
     (if \<not> running p then (p, Some ErrOutboxPublisherNotRunning) else (p\<lparr>running := False\<rparr>, close))"

text \<open>
  The worker goroutine of \<open>Start\<close>: a sequence of ticks, each a pass of the publisher or a clean-up of
  expired locks, whose results are dropped. A poll tick carries what that pass meets: the broker's
  answers and the clock.
\<close>

datatype publisher_tick =
    PollTick "nat \<Rightarrow> BrokerMessage \<Rightarrow> string option" time "nat \<Rightarrow> time"
  | CleanupTick time

fun publisher_run ::
  "'s outbox_repo \<Rightarrow> OutboxPublisherConfig \<Rightarrow> publisher_tick list \<Rightarrow> 's \<Rightarrow> BrokerMessage list \<Rightarrow>
   's \<times> BrokerMessage list" where
  "publisher_run repo c [] s sent = (s, sent)"
| "publisher_run repo c (PollTick send claimTime now # ticks) s sent =
     (case PublishOnce repo send c claimTime now s of
        (s', sent', _, _) \<Rightarrow> publisher_run repo c ticks s' (sent @ sent'))"
| "publisher_run repo c (CleanupTick t # ticks) s sent =
     publisher_run repo c ticks (fst (repo_ReleaseExpiredLocks repo (UTC t) s)) sent"

section \<open>The repository contract\<close>

definition held_by :: "string \<Rightarrow> OutboxRecord \<Rightarrow> bool" where
  "held_by w r \<longleftrightarrow> ob_Status r = OutboxStatusPublishing \<and> LockOwner r = TrimSpace w \<and> TrimSpace w \<noteq> []"

text \<open>
  The contract of \<open>OutboxPublisherRepository\<close>: claiming hands out records that are now locked by
  the worker and touches no others; the remaining operations change the one record they name, only
  while the worker holds it, and by the method of the record; a failed operation changes nothing.
\<close>

locale publisher_repository =
  fixes repo :: "'s outbox_repo"
    and look :: "'s \<Rightarrow> uuid \<Rightarrow> OutboxRecord option"
    and consistent :: "'s \<Rightarrow> bool"
  assumes claim_ok: "consistent s \<Longrightarrow> repo_ClaimReady repo rq s = (s', Ok rs) \<Longrightarrow>
      consistent s' \<and> distinct (map ob_ID rs) \<and>
      (\<forall>r\<in>set rs. ob_ID r \<noteq> Nil_uuid \<and> look s' (ob_ID r) = Some r \<and> held_by (cr_WorkerID rq) r) \<and>
      (\<forall>i. i \<notin> ob_ID ` set rs \<longrightarrow> look s' i = look s i) \<and>
      (\<forall>i. look s' i = None \<longleftrightarrow> look s i = None)"
    and claim_error: "repo_ClaimReady repo rq s = (s', Err err) \<Longrightarrow> s' = s"
    and mark_ok: "consistent s \<Longrightarrow> repo_MarkPublished repo i w at s = (s', None) \<Longrightarrow>
      consistent s' \<and> \<not> IsZero at \<and> (\<exists>r. look s i = Some r \<and> held_by w r \<and>
        look s' = (look s)(i \<mapsto> fst (MarkPublished w at r)))"
    and mark_error: "consistent s \<Longrightarrow> repo_MarkPublished repo i w at s = (s', Some err) \<Longrightarrow> s' = s"
    and mark_live: "consistent s \<Longrightarrow> look s i = Some r \<Longrightarrow> held_by w r \<Longrightarrow> i \<noteq> Nil_uuid \<Longrightarrow> \<not> IsZero at \<Longrightarrow>
      snd (repo_MarkPublished repo i w at s) = None"
    and retry_ok: "consistent s \<Longrightarrow> repo_ScheduleRetry repo rec w s = (s', None) \<Longrightarrow>
      consistent s' \<and> ob_Status rec = OutboxStatusRetryScheduled \<and>
      (\<exists>r. look s (ob_ID rec) = Some r \<and> held_by w r \<and> look s' = (look s)(ob_ID rec \<mapsto> persisted rec r))"
    and retry_error: "consistent s \<Longrightarrow> repo_ScheduleRetry repo rec w s = (s', Some err) \<Longrightarrow> s' = s"
    and dead_ok: "consistent s \<Longrightarrow> repo_MarkDeadLettered repo rec w s = (s', None) \<Longrightarrow>
      consistent s' \<and> ob_Status rec = OutboxStatusDeadLettered \<and>
      (\<exists>r. look s (ob_ID rec) = Some r \<and> held_by w r \<and> look s' = (look s)(ob_ID rec \<mapsto> persisted rec r))"
    and dead_error: "consistent s \<Longrightarrow> repo_MarkDeadLettered repo rec w s = (s', Some err) \<Longrightarrow> s' = s"
    and release: "consistent s \<Longrightarrow> repo_ReleaseExpiredLocks repo at s = (s', res) \<Longrightarrow>
      consistent s' \<and> (\<forall>i. look s' i = look s i \<or>
        (\<exists>r r'. look s i = Some r \<and> ob_Status r = OutboxStatusPublishing \<and>
          look s' i = Some r' \<and> ob_Status r' = OutboxStatusRetryScheduled))"
begin

text \<open>What one pass of the publisher over claimed records leaves.\<close>

definition pass_ok where
  "pass_ok c rs s s' sent sent' n n' err \<longleftrightarrow> consistent s' \<and>
     (\<exists>new. sent' = sent @ new \<and> n \<le> n' \<and> n' \<le> n + length new \<and> (err = None \<longrightarrow> n' = n + length new) \<and>
        (\<forall>i. look s' i = None \<longleftrightarrow> look s i = None) \<and>
        (\<forall>i. i \<notin> ob_ID ` set rs \<longrightarrow> look s' i = look s i) \<and>
        (\<forall>r\<in>set rs. \<forall>r'. look s' (ob_ID r) = Some r' \<and> ob_Status r' = OutboxStatusPublished \<longrightarrow>
           broker_message c r \<in> set new) \<and>
        (err = None \<longrightarrow> (\<forall>r\<in>set rs. \<exists>r'. look s' (ob_ID r) = Some r' \<and> LockOwner r' = [] \<and>
           (ob_Status r' = OutboxStatusPublished \<or> ob_Status r' = OutboxStatusRetryScheduled \<or>
            ob_Status r' = OutboxStatusDeadLettered))))"

lemma pass_ok_step:
  assumes "pass_ok c rs s1 s' (sent @ m) sent' n1 n' err" "n \<le> n1" "n1 \<le> n + length m"
    and "err = None \<longrightarrow> n1 = n + length m"
    and "look s1 = (look s)(ob_ID r \<mapsto> r1)" "look s (ob_ID r) = Some r" "ob_ID r \<notin> ob_ID ` set rs"
    and "ob_Status r1 = OutboxStatusPublished \<longrightarrow> broker_message c r \<in> set m" "LockOwner r1 = []"
    and "ob_Status r1 = OutboxStatusPublished \<or> ob_Status r1 = OutboxStatusRetryScheduled \<or>
      ob_Status r1 = OutboxStatusDeadLettered"
  shows "pass_ok c (r # rs) s s' sent sent' n n' err"
proof -
  have c: "consistent s'" using assms(1) by (simp add: pass_ok_def)
  obtain new where new: "sent' = (sent @ m) @ new" "n1 \<le> n'" "n' \<le> n1 + length new"
    "err = None \<longrightarrow> n' = n1 + length new"
    "\<forall>i. look s' i = None \<longleftrightarrow> look s1 i = None"
    "\<forall>i. i \<notin> ob_ID ` set rs \<longrightarrow> look s' i = look s1 i"
    "\<forall>r\<in>set rs. \<forall>r'. look s' (ob_ID r) = Some r' \<and> ob_Status r' = OutboxStatusPublished \<longrightarrow>
       broker_message c r \<in> set new"
    "err = None \<longrightarrow> (\<forall>r\<in>set rs. \<exists>r'. look s' (ob_ID r) = Some r' \<and> LockOwner r' = [] \<and>
       (ob_Status r' = OutboxStatusPublished \<or> ob_Status r' = OutboxStatusRetryScheduled \<or>
        ob_Status r' = OutboxStatusDeadLettered))"
    using assms(1) unfolding pass_ok_def by blast
  have r1: "look s' (ob_ID r) = Some r1" using new(6) assms(5,7) by simp
  show ?thesis
    unfolding pass_ok_def
  proof (intro conjI [OF c] exI [of _ "m @ new"] conjI)
    show "\<forall>i. look s' i = None \<longleftrightarrow> look s i = None" using new(5) assms(5,6) by simp
    show "\<forall>i. i \<notin> ob_ID ` set (r # rs) \<longrightarrow> look s' i = look s i" using new(6) assms(5) by simp
    show "\<forall>a\<in>set (r # rs). \<forall>r'. look s' (ob_ID a) = Some r' \<and> ob_Status r' = OutboxStatusPublished \<longrightarrow>
        broker_message c a \<in> set (m @ new)"
      using new(7) r1 assms(8) by auto
    show "err = None \<longrightarrow> (\<forall>a\<in>set (r # rs). \<exists>r'. look s' (ob_ID a) = Some r' \<and> LockOwner r' = [] \<and>
        (ob_Status r' = OutboxStatusPublished \<or> ob_Status r' = OutboxStatusRetryScheduled \<or>
         ob_Status r' = OutboxStatusDeadLettered))"
      using new(8) r1 assms(9,10) by auto
  qed (use new(1-4) assms(2-4) in auto)
qed

lemma pass_ok_stop:
  assumes "consistent s" "\<forall>r\<in>set rs. look s (ob_ID r) = Some r \<and> held_by w r"
  shows "pass_ok c rs s s sent (sent @ m) n n (Some err)"
  unfolding pass_ok_def
  by (intro conjI [OF assms(1)] exI [of _ m]) (use assms(2) in \<open>auto simp: held_by_def\<close>)

lemma failure_step:
  assumes s: "consistent s" and f: "RegisterFailure w reason at p r = (r', None)"
    and r: "look s (ob_ID r) = Some r"
    and op: "(if ob_Status r' = OutboxStatusDeadLettered then repo_MarkDeadLettered repo r' w s
       else repo_ScheduleRetry repo r' w s) = (s1, None)"
  shows "consistent s1 \<and> look s1 = (look s)(ob_ID r \<mapsto> persisted r' r) \<and>
    (ob_Status r' = OutboxStatusRetryScheduled \<or> ob_Status r' = OutboxStatusDeadLettered)"
proof -
  have i: "ob_ID r' = ob_ID r"
    using f RegisterFailure_le [of r w reason at p] by (simp add: outbox_le_def same_event_def)
  show ?thesis
    using retry_ok [OF s, of r' w s1] dead_ok [OF s, of r' w s1] op r i by (auto split: if_splits)
qed

lemma failure_error:
  assumes "consistent s" "(if ob_Status r' = OutboxStatusDeadLettered then repo_MarkDeadLettered repo r' w s
       else repo_ScheduleRetry repo r' w s) = (s1, Some err)"
  shows "s1 = s"
  using retry_error [OF assms(1)] dead_error [OF assms(1)] assms(2) by (auto split: if_splits)

text \<open>One record of a pass: either the pass stops at it with an error and nothing has changed, or
  the record is settled and the pass goes on with the rest.\<close>

lemma mark_step:
  assumes s: "consistent s" and r: "look s (ob_ID r) = Some r" "held_by w r"
    and mark: "repo_MarkPublished repo (ob_ID r) w at s = (s1, None)"
  shows "\<exists>r1. consistent s1 \<and> look s1 = (look s)(ob_ID r \<mapsto> r1) \<and>
    ob_Status r1 = OutboxStatusPublished \<and> LockOwner r1 = []"
proof -
  from mark_ok [OF s mark] obtain r0 where
    *: "consistent s1" "\<not> IsZero at" "look s (ob_ID r) = Some r0"
      "look s1 = (look s)(ob_ID r \<mapsto> fst (MarkPublished w at r0))" by blast
  have "r0 = r" using *(3) r(1) by simp
  moreover have "ob_Status (fst (MarkPublished w at r)) = OutboxStatusPublished"
    "LockOwner (fst (MarkPublished w at r)) = []"
    using r(2) *(2) by (simp_all add: MarkPublished_def held_by_def)
  ultimately show ?thesis using *(1,4) by blast
qed

lemma others_kept:
  assumes "\<forall>a\<in>set rs. P a \<and> look s (ob_ID a) = Some a \<and> Q a" "ob_ID r \<notin> ob_ID ` set rs"
    and "look s1 = (look s)(ob_ID r \<mapsto> r1)"
  shows "\<forall>a\<in>set rs. P a \<and> look s1 (ob_ID a) = Some a \<and> Q a"
proof
  fix a
  assume a: "a \<in> set rs"
  then have "ob_ID a \<noteq> ob_ID r" using assms(2) by (metis image_eqI)
  then show "P a \<and> look s1 (ob_ID a) = Some a \<and> Q a" using assms(1,3) a by simp
qed

lemma sent_step:
  assumes s: "consistent s" and r: "look s (ob_ID r) = Some r" "held_by (pc_WorkerID c) r"
    and send: "send k (broker_message c r) = None"
  obtains (stop) x where "PublishOnce_loop repo send c now (r # rs) k s sent n =
        (s, sent @ [broker_message c r], n, Some x)"
  | (go) s1 r1 where "PublishOnce_loop repo send c now (r # rs) k s sent n =
        PublishOnce_loop repo send c now rs (Suc k) s1 (sent @ [broker_message c r]) (n + 1)"
      "consistent s1" "look s1 = (look s)(ob_ID r \<mapsto> r1)" "ob_Status r1 = OutboxStatusPublished" "LockOwner r1 = []"
proof -
  let ?w = "pc_WorkerID c" and ?at = "UTC (now k)"
  obtain s1 e1 where mark: "repo_MarkPublished repo (ob_ID r) ?w ?at s = (s1, e1)" by force
  show thesis
  proof (cases e1)
    case (Some x)
    have "s1 = s" using mark_error [OF s mark [unfolded Some]] .
    then show thesis using stop [of x] mark Some send by simp
  next
    case None
    from mark_step [OF s r mark [unfolded None]] obtain r1 where
      r1: "consistent s1" "look s1 = (look s)(ob_ID r \<mapsto> r1)" "ob_Status r1 = OutboxStatusPublished"
        "LockOwner r1 = []" by blast
    have "PublishOnce_loop repo send c now (r # rs) k s sent n =
        PublishOnce_loop repo send c now rs (Suc k) s1 (sent @ [broker_message c r]) (n + 1)"
      using mark None send by simp
    then show thesis using go [OF _ r1] by blast
  qed
qed

lemma failed_step:
  assumes s: "consistent s" and r: "look s (ob_ID r) = Some r"
    and send: "send k (broker_message c r) = Some reason"
  obtains (stop) x where "PublishOnce_loop repo send c now (r # rs) k s sent n = (s, sent, n, Some x)"
  | (go) s1 r1 where "PublishOnce_loop repo send c now (r # rs) k s sent n =
        PublishOnce_loop repo send c now rs (Suc k) s1 sent n"
      "consistent s1" "look s1 = (look s)(ob_ID r \<mapsto> r1)" "LockOwner r1 = []"
      "ob_Status r1 = OutboxStatusRetryScheduled \<or> ob_Status r1 = OutboxStatusDeadLettered"
proof -
  let ?w = "pc_WorkerID c"
  obtain r' e1 where f: "RegisterFailure ?w reason (UTC (now k)) (pc_RetryPolicy c) r = (r', e1)" by force
  show thesis
  proof (cases e1)
    case (Some x)
    then show thesis using stop [of x] f send by simp
  next
    case e1: None
    let ?op = "if ob_Status r' = OutboxStatusDeadLettered then repo_MarkDeadLettered repo r' ?w s
       else repo_ScheduleRetry repo r' ?w s"
    obtain s1 e2 where op: "?op = (s1, e2)" by force
    have eq: "PublishOnce_loop repo send c now (r # rs) k s sent n =
        (case e2 of Some x \<Rightarrow> (s1, sent, n, Some x)
         | None \<Rightarrow> PublishOnce_loop repo send c now rs (Suc k) s1 sent n)"
      by (simp only: PublishOnce_loop.simps send f e1 op option.case prod.case)
    show thesis
    proof (cases e2)
      case (Some x)
      have "s1 = s" using failure_error [OF s op [unfolded Some]] .
      then show thesis using stop [of x] eq Some by simp
    next
      case e2: None
      note step = failure_step [OF s f [unfolded e1] r op [unfolded e2]]
      show thesis
        by (rule go [of s1 "persisted r' r"]) (use step eq e2 in \<open>simp_all add: persisted_def\<close>)
    qed
  qed
qed

lemma PublishOnce_loop_pass:
  assumes "consistent s" "distinct (map ob_ID rs)"
    and "\<forall>r\<in>set rs. look s (ob_ID r) = Some r \<and> held_by (pc_WorkerID c) r"
    and "PublishOnce_loop repo send c now rs k s sent n = (s', sent', n', err)"
  shows "pass_ok c rs s s' sent sent' n n' err"
  using assms
proof (induction rs arbitrary: k s sent n)
  case Nil
  then show ?case by (simp add: pass_ok_def)
next
  case (Cons r rs)
  let ?w = "pc_WorkerID c" and ?m = "broker_message c r"
  have r: "look s (ob_ID r) = Some r" "held_by ?w r" and new: "ob_ID r \<notin> ob_ID ` set rs"
    using Cons.prems(2,3) by simp_all
  have rest: "pass_ok c rs s1 s' sent1 sent' n1 n' err"
    if "consistent s1" "look s1 = (look s)(ob_ID r \<mapsto> r1)"
      "PublishOnce_loop repo send c now rs (Suc k) s1 sent1 n1 = (s', sent', n', err)" for s1 r1 sent1 n1
  proof (rule Cons.IH [OF that(1) _ _ that(3)])
    show "distinct (map ob_ID rs)" using Cons.prems(2) by simp
    show "\<forall>a\<in>set rs. look s1 (ob_ID a) = Some a \<and> held_by ?w a"
      using others_kept [OF _ new that(2), of "\<lambda>_. True" "held_by ?w"] Cons.prems(3) by simp
  qed
  show ?case
  proof (cases "send k ?m")
    case None
    show ?thesis
    proof (rule sent_step [where send = send and k = k and now = now and rs = rs and sent = sent and n = n, OF Cons.prems(1) r None])
      fix x
      assume "PublishOnce_loop repo send c now (r # rs) k s sent n = (s, sent @ [?m], n, Some x)"
      then show ?thesis using pass_ok_stop [OF Cons.prems(1,3), of c sent "[?m]" n x] Cons.prems(4) by simp
    next
      fix s1 r1
      assume go: "PublishOnce_loop repo send c now (r # rs) k s sent n =
            PublishOnce_loop repo send c now rs (Suc k) s1 (sent @ [?m]) (n + 1)"
        and s1: "consistent s1" "look s1 = (look s)(ob_ID r \<mapsto> r1)"
        and r1: "ob_Status r1 = OutboxStatusPublished" "LockOwner r1 = []"
      show ?thesis
        by (rule pass_ok_step [OF rest [OF s1 go [symmetric, unfolded Cons.prems(4)]] _ _ _ s1(2) r(1) new])
          (simp_all add: r1)
    qed
  next
    case (Some reason)
    show ?thesis
    proof (rule failed_step [where send = send and k = k and now = now and rs = rs and sent = sent and n = n, OF Cons.prems(1) r(1) Some])
      fix x
      assume "PublishOnce_loop repo send c now (r # rs) k s sent n = (s, sent, n, Some x)"
      then show ?thesis using pass_ok_stop [OF Cons.prems(1,3), of c sent "[]" n x] Cons.prems(4) by simp
    next
      fix s1 r1
      assume go: "PublishOnce_loop repo send c now (r # rs) k s sent n =
            PublishOnce_loop repo send c now rs (Suc k) s1 sent n"
        and s1: "consistent s1" "look s1 = (look s)(ob_ID r \<mapsto> r1)"
        and r1: "LockOwner r1 = []"
          "ob_Status r1 = OutboxStatusRetryScheduled \<or> ob_Status r1 = OutboxStatusDeadLettered"
      have "pass_ok c rs s1 s' (sent @ []) sent' n n' err"
        using rest [OF s1 go [symmetric, unfolded Cons.prems(4)]] by simp
      then show ?thesis
        by (rule pass_ok_step [OF _ _ _ _ s1(2) r(1) new]) (use r1 in auto)
    qed
  qed
qed

text \<open>One pass of the publisher: what it marks as published was accepted by the broker, and unless
  it stops with an error no record it claimed stays locked.\<close>

lemma PublishOnce_delivers:
  assumes "consistent s" "PublishOnce repo send c claimTime now s = (s', sent, n, err)"
  shows "consistent s' \<and> n \<le> length sent \<and> (err = None \<longrightarrow> n = length sent) \<and>
    (\<forall>i. look s' i = None \<longleftrightarrow> look s i = None) \<and>
    (\<forall>i r'. look s' i = Some r' \<and> ob_Status r' = OutboxStatusPublished \<longrightarrow>
       look s i = Some r' \<or> (\<exists>m\<in>set sent. bm_ID m = uuid_String i)) \<and>
    (err = None \<longrightarrow> (\<forall>i r'. look s' i = Some r' \<and> ob_Status r' = OutboxStatusPublishing \<longrightarrow> look s i = Some r'))"
proof -
  obtain s1 res where cl: "repo_ClaimReady repo \<lparr>cr_WorkerID = pc_WorkerID c, Limit = pc_BatchSize c,
             ClaimedAt = UTC claimTime, cr_LockDuration = pc_LockDuration c\<rparr> s = (s1, res)" by force
  show ?thesis
  proof (cases res)
    case (Inl x)
    then show ?thesis using claim_error [OF cl [unfolded Inl]] assms cl by (simp add: PublishOnce_def)
  next
    case (Inr rs)
    have claim: "consistent s1" "distinct (map ob_ID rs)"
      "\<forall>r\<in>set rs. look s1 (ob_ID r) = Some r \<and> held_by (pc_WorkerID c) r"
      and same: "\<forall>i. i \<notin> ob_ID ` set rs \<longrightarrow> look s1 i = look s i" "\<forall>i. look s1 i = None \<longleftrightarrow> look s i = None"
      using claim_ok [OF assms(1) cl [unfolded Inr]] unfolding OutboxClaimRequest.simps by blast+
    have "PublishOnce_loop repo send c now rs 0 s1 [] 0 = (s', sent, n, err)"
      using assms(2) cl Inr by (simp add: PublishOnce_def)
    then have "pass_ok c rs s1 s' [] sent 0 n err"
      by (rule PublishOnce_loop_pass [OF claim])
    then obtain frame: "\<forall>i. look s' i = None \<longleftrightarrow> look s1 i = None"
        "\<forall>i. i \<notin> ob_ID ` set rs \<longrightarrow> look s' i = look s1 i"
      and deliv: "\<forall>r\<in>set rs. \<forall>r'. look s' (ob_ID r) = Some r' \<and> ob_Status r' = OutboxStatusPublished \<longrightarrow>
        broker_message c r \<in> set sent"
      and done1: "err = None \<longrightarrow> (\<forall>r\<in>set rs. \<exists>r'. look s' (ob_ID r) = Some r' \<and> LockOwner r' = [] \<and>
        (ob_Status r' = OutboxStatusPublished \<or> ob_Status r' = OutboxStatusRetryScheduled \<or>
         ob_Status r' = OutboxStatusDeadLettered))"
      and c: "consistent s'" and count: "n \<le> length sent" "err = None \<longrightarrow> n = length sent"
      unfolding pass_ok_def by (elim exE conjE) simp
    have other: "look s' i = look s i" if "i \<notin> ob_ID ` set rs" for i
      using frame(2) same(1) that by simp
    have pub: "look s i = Some r' \<or> (\<exists>m\<in>set sent. bm_ID m = uuid_String i)"
      if r': "look s' i = Some r'" "ob_Status r' = OutboxStatusPublished" for i r'
    proof (cases "i \<in> ob_ID ` set rs")
      case True
      then obtain r where r: "r \<in> set rs" "i = ob_ID r" by blast
      then have "broker_message c r \<in> set sent" using deliv r' by blast
      then show ?thesis using r by (intro disjI2 bexI [of _ "broker_message c r"]) (simp_all add: broker_message_def)
    qed (use other r' in simp)
    have lock: "look s i = Some r'"
      if r': "look s' i = Some r'" "ob_Status r' = OutboxStatusPublishing" "err = None" for i r'
    proof (cases "i \<in> ob_ID ` set rs")
      case True
      then obtain r where r: "r \<in> set rs" "i = ob_ID r" by blast
      then obtain r2 where "look s' (ob_ID r) = Some r2" "ob_Status r2 = OutboxStatusPublished \<or>
          ob_Status r2 = OutboxStatusRetryScheduled \<or> ob_Status r2 = OutboxStatusDeadLettered"
        using done1 r'(3) by blast
      then show ?thesis using r' r by simp
    qed (use other r' in simp)
    have "consistent s' \<and> n \<le> length sent \<and> (err = None \<longrightarrow> n = length sent) \<and> (\<forall>i. look s' i = None \<longleftrightarrow> look s i = None)"
      using c count frame(1) same(2) by blast
    moreover have "\<forall>i r'. look s' i = Some r' \<and> ob_Status r' = OutboxStatusPublished \<longrightarrow>
       look s i = Some r' \<or> (\<exists>m\<in>set sent. bm_ID m = uuid_String i)"
      by (intro allI impI, elim conjE) (rule pub)
    moreover have "err = None \<longrightarrow> (\<forall>i r'. look s' i = Some r' \<and> ob_Status r' = OutboxStatusPublishing \<longrightarrow>
       look s i = Some r')"
      by (intro allI impI, elim conjE) (rule lock)
    ultimately show ?thesis by blast
  qed
qed

text \<open>When the broker accepts every message a pass publishes all it claimed.\<close>

lemma PublishOnce_loop_drains:
  assumes "consistent s" "distinct (map ob_ID rs)" "\<forall>k m. send k m = None" "\<forall>k. \<not> IsZero (now k)"
    and "\<forall>r\<in>set rs. ob_ID r \<noteq> Nil_uuid \<and> look s (ob_ID r) = Some r \<and> held_by (pc_WorkerID c) r"
  shows "\<exists>s'. PublishOnce_loop repo send c now rs k s sent n =
      (s', sent @ map (broker_message c) rs, n + length rs, None) \<and>
    (\<forall>r\<in>set rs. \<exists>r'. look s' (ob_ID r) = Some r' \<and> ob_Status r' = OutboxStatusPublished) \<and>
    (\<forall>i. i \<notin> ob_ID ` set rs \<longrightarrow> look s' i = look s i)"
  using assms(1,2,5)
proof (induction rs arbitrary: k s sent n)
  case (Cons r rs)
  have r: "look s (ob_ID r) = Some r" "held_by (pc_WorkerID c) r" "ob_ID r \<noteq> Nil_uuid"
    and new: "ob_ID r \<notin> ob_ID ` set rs" using Cons.prems by simp_all
  obtain s1 where mark: "repo_MarkPublished repo (ob_ID r) (pc_WorkerID c) (UTC (now k)) s = (s1, None)"
    using mark_live [OF Cons.prems(1) r, of "UTC (now k)"] assms(4) by (metis eq_snd_iff time_UTC(1))
  obtain r1 where s1: "consistent s1" "look s1 = (look s)(ob_ID r \<mapsto> r1)" "ob_Status r1 = OutboxStatusPublished"
    using mark_step [OF Cons.prems(1) r(1,2) mark] by blast
  have "\<forall>a\<in>set rs. ob_ID a \<noteq> Nil_uuid \<and> look s1 (ob_ID a) = Some a \<and> held_by (pc_WorkerID c) a"
    by (rule others_kept [OF _ new s1(2)]) (use Cons.prems(3) in simp)
  from Cons.IH [OF s1(1) _ this, of "Suc k" "sent @ [broker_message c r]" "n + 1"] Cons.prems(2)
  obtain s' where s': "PublishOnce_loop repo send c now rs (Suc k) s1 (sent @ [broker_message c r]) (n + 1) =
      (s', (sent @ [broker_message c r]) @ map (broker_message c) rs, n + 1 + length rs, None)"
    "\<forall>r\<in>set rs. \<exists>r'. look s' (ob_ID r) = Some r' \<and> ob_Status r' = OutboxStatusPublished"
    "\<forall>i. i \<notin> ob_ID ` set rs \<longrightarrow> look s' i = look s1 i" by auto
  have "look s' (ob_ID r) = Some r1" using s'(3) new s1(2) by simp
  moreover have "look s' i = look s i" if "i \<notin> ob_ID ` set (r # rs)" for i
    using s'(3) s1(2) that by simp
  moreover have "PublishOnce_loop repo send c now (r # rs) k s sent n =
      (s', sent @ map (broker_message c) (r # rs), n + length (r # rs), None)"
    using mark s'(1) assms(3) by simp
  ultimately show ?case using s'(2) s1(3) by (intro exI [of _ s']) simp
qed simp

text \<open>The worker, over any sequence of ticks.\<close>

definition delivered where
  "delivered s s' sent \<longleftrightarrow> consistent s' \<and> (\<forall>i. look s' i = None \<longleftrightarrow> look s i = None) \<and>
     (\<forall>i r'. look s' i = Some r' \<and> ob_Status r' = OutboxStatusPublished \<longrightarrow>
        look s i = Some r' \<or> (\<exists>m\<in>set sent. bm_ID m = uuid_String i))"

lemma delivered_trans:
  assumes "delivered s s1 new" "delivered s1 s' sent" "set new \<subseteq> set sent"
  shows "delivered s s' sent"
proof -
  have "look s i = Some r' \<or> (\<exists>m\<in>set sent. bm_ID m = uuid_String i)"
    if "look s' i = Some r'" "ob_Status r' = OutboxStatusPublished" for i r'
    using assms that unfolding delivered_def by blast
  then show ?thesis using assms(1,2) by (simp add: delivered_def)
qed

lemma release_delivered: "consistent s \<Longrightarrow> delivered s (fst (repo_ReleaseExpiredLocks repo at s)) []"
proof -
  assume s: "consistent s"
  obtain s1 res where e: "repo_ReleaseExpiredLocks repo at s = (s1, res)" by force
  have c: "consistent s1" and rel: "look s1 i = look s i \<or> (\<exists>r r'. look s i = Some r \<and>
      look s1 i = Some r' \<and> ob_Status r' = OutboxStatusRetryScheduled)" for i
    using release [OF s e] by blast+
  have "(look s1 i = None) = (look s i = None)" for i using rel [of i] by auto
  moreover have "look s i = Some r'" if "look s1 i = Some r'" "ob_Status r' = OutboxStatusPublished" for i r'
    using rel [of i] that by auto
  ultimately show ?thesis using c e by (simp add: delivered_def)
qed

lemma publisher_run_delivers:
  assumes "consistent s" "publisher_run repo c ticks s sent = (s', sent')"
  shows "set sent \<subseteq> set sent' \<and> delivered s s' sent'"
  using assms
proof (induction ticks arbitrary: s sent)
  case Nil
  then show ?case by (simp add: delivered_def)
next
  case (Cons tick ticks)
  show ?case
  proof (cases tick)
    case (PollTick send claimTime now)
    obtain s1 new n err where once: "PublishOnce repo send c claimTime now s = (s1, new, n, err)"
      by (cases "PublishOnce repo send c claimTime now s") auto
    have d: "delivered s s1 new"
      using PublishOnce_delivers [OF Cons.prems(1) once] by (simp add: delivered_def)
    then have "consistent s1" by (simp add: delivered_def)
    then have "set (sent @ new) \<subseteq> set sent' \<and> delivered s1 s' sent'"
      by (rule Cons.IH) (use Cons.prems(2) PollTick once in simp)
    then show ?thesis using delivered_trans [OF d] by simp
  next
    case (CleanupTick t)
    note d = release_delivered [OF Cons.prems(1), of "UTC t"]
    then have "consistent (fst (repo_ReleaseExpiredLocks repo (UTC t) s))" by (simp add: delivered_def)
    then have "set sent \<subseteq> set sent' \<and> delivered (fst (repo_ReleaseExpiredLocks repo (UTC t) s)) s' sent'"
      by (rule Cons.IH) (use Cons.prems(2) CleanupTick in simp)
    then show ?thesis using delivered_trans [OF d] by auto
  qed
qed

end

section \<open>The PostgreSQL repository\<close>

definition sql_repo :: "(string \<Rightarrow> bool) \<Rightarrow> (uuid \<Rightarrow> bool) \<Rightarrow> (uuid \<Rightarrow> nat) \<Rightarrow> outbox_table outbox_repo" where
  "sql_repo json_Valid locked rank =
     \<lparr>repo_ClaimReady = ClaimReady json_Valid locked rank, repo_MarkPublished = store_MarkPublished,
      repo_ScheduleRetry = ScheduleRetry, repo_MarkDeadLettered = MarkDeadLettered,
      repo_ReleaseExpiredLocks = ReleaseExpiredLocks\<rparr>"

lemma claim_row_held:
  "claim_Validate rq = None \<Longrightarrow> held_by (cr_WorkerID rq) (claim_row (TrimSpace (cr_WorkerID rq)) at until r)"
  by (simp add: held_by_def claim_row_def claim_Validate_def split: if_splits)

lemma sql_claim_ok:
  assumes "stored t" "ClaimReady json_Valid locked rank rq t = (t', Ok rs)"
  shows "stored t' \<and> distinct (map ob_ID rs) \<and>
    (\<forall>r\<in>set rs. ob_ID r \<noteq> Nil_uuid \<and> row t' (ob_ID r) = Some r \<and> held_by (cr_WorkerID rq) r) \<and>
    (\<forall>i. i \<notin> ob_ID ` set rs \<longrightarrow> row t' i = row t i) \<and> (\<forall>i. row t' i = None \<longleftrightarrow> row t i = None)"
proof -
  note cl = ClaimReady_row [OF assms]
  have "held_by (cr_WorkerID rq) r" if "r \<in> set rs" for r
  proof -
    have "row t' (ob_ID r) = Some r" using cl that by blast
    moreover have "ob_ID r \<in> ob_ID ` set rs" using that by blast
    ultimately show ?thesis using cl claim_row_held [of rq] by (cases "row t (ob_ID r)") auto
  qed
  moreover have "row t' i = row t i" if "i \<notin> ob_ID ` set rs" for i
    using cl that by (simp add: option.map_ident)
  moreover have "row t' i = None \<longleftrightarrow> row t i = None" for i using cl by simp
  moreover have "ob_ID r \<noteq> Nil_uuid" if "r \<in> set rs" for r using cl that by blast
  ultimately show ?thesis using cl by blast
qed

lemma owned_held: "owned i (TrimSpace w) r \<Longrightarrow> TrimSpace w \<noteq> [] \<Longrightarrow> held_by w r"
  by (simp add: owned_def held_by_def)

lemma sql_persist_ok:
  assumes "stored t" "persistFailedRecord rec w t = (t', None)"
  shows "stored t' \<and> (\<exists>r. row t (ob_ID rec) = Some r \<and> held_by w r \<and>
    row t' = (row t)(ob_ID rec \<mapsto> persisted rec r))"
  using persistFailedRecord_row [OF assms] owned_held by blast

interpretation pg: publisher_repository "sql_repo json_Valid locked rank" row stored
  for json_Valid locked rank
proof (unfold_locales, goal_cases)
  case (1 s rq s' rs)
  then show ?case by (intro sql_claim_ok [of s json_Valid locked rank]) (simp_all add: sql_repo_def)
next
  case (2 rq s s' err)
  then show ?case
    by (auto simp: sql_repo_def ClaimReady_def Let_def split: option.splits sum.splits)
next
  case (3 s i w at s')
  then show ?case
    using store_MarkPublished_row [of s i w at s' None] owned_held by (simp add: sql_repo_def) blast
next
  case (4 s i w at s' err)
  then show ?case using store_MarkPublished_row [of s i w at s' "Some err"] by (simp add: sql_repo_def)
next
  case (5 s i r w at)
  then show ?case
    using store_MarkPublished_live [of s i r w at] row_key [of s i r] by (simp add: sql_repo_def held_by_def owned_def)
next
  case (6 s rec w s')
  then show ?case
    using sql_persist_ok [of s rec w s'] by (simp add: sql_repo_def ScheduleRetry_def split: if_splits)
next
  case (7 s rec w s' err)
  then show ?case
    using persistFailedRecord_row [of s rec w s' "Some err"]
    by (simp add: sql_repo_def ScheduleRetry_def split: if_splits)
next
  case (8 s rec w s')
  then show ?case
    using sql_persist_ok [of s rec w s'] by (simp add: sql_repo_def MarkDeadLettered_def split: if_splits)
next
  case (9 s rec w s' err)
  then show ?case
    using persistFailedRecord_row [of s rec w s' "Some err"]
    by (simp add: sql_repo_def MarkDeadLettered_def split: if_splits)
next
  case (10 s at s' res)
  then show ?case
    using ReleaseExpiredLocks_row [of s at s' res]
    by (auto simp: sql_repo_def expired_lock_def split: option.split)
qed

end
