(* ===== verification/Outbox_Properties.thy ===== *)
theory Outbox_Properties
  imports Outbox_Publisher
begin

text \<open>
  The properties of the outbox: the record's life cycle and retry schedule, that the SQL statements
  implement the methods of the record, that a lock excludes other workers, and what the publisher
  guarantees about delivery.
\<close>

section \<open>A sample record\<close>

definition sample_event :: DomainEvent where
  "sample_event = EvaluationCreatedEvent 1 2 (Time 10 0) 1"

definition sample_record :: OutboxRecord where
  "sample_record =
     \<lparr>ob_ID = 7, AggregateType = ''evaluation'', AggregateID = 1, ob_SessionID = 2, AggregateVersion = 1,
      EventType = ''EvaluationCreatedEvent'', Payload = ''{}'', ob_Status = OutboxStatusPending,
      OccurredAt = Time 10 0, ob_CreatedAt = Time 20 0, PublishingStartedAt = None, PublishedAt = None,
      NextAttemptAt = None, LastAttemptAt = None, DeadLetteredAt = None, Attempts = 0, MaxAttempts = 1,
      LastError = [], LockOwner = [], LockUntil = None\<rparr>"

definition sample_locked :: OutboxRecord where
  "sample_locked = claim_row ''w1'' (Time 30 0) (Time 60 0) sample_record"

definition sample_claim :: OutboxClaimRequest where
  "sample_claim = \<lparr>cr_WorkerID = ''w1'', Limit = 5, ClaimedAt = Time 30 0, cr_LockDuration = 30\<rparr>"

lemmas sample_outbox = sample_event_def sample_record_def sample_locked_def sample_claim_def claim_row_def


lemma sample_stored: "stored [sample_record]" "stored [sample_locked]"
  by (simp_all add: sample_outbox stored_def scan_times_def UTC_def)

lemma sample_held: "held_by ''w1'' sample_locked"
  by (simp add: sample_outbox held_by_def graphic_def)

section \<open>Retry schedule\<close>



section \<open>Life cycle of a record\<close>

text \<open>
  C16. A record built from a domain event stays well formed under every sequence of publication
  attempts, publications and failures, whatever their outcome: it keeps the event it carries, is locked exactly while it is being published,
  and once it is published or dead-lettered nothing changes it any more.
\<close>

theorem outbox_lifecycle:
  assumes "NewOutboxRecord marshal u ev at = Ok r"
  shows "outbox_ok (run outbox_exec cs r) \<and> same_event r (run outbox_exec cs r) \<and>
    (outbox_IsTerminal (ob_Status (run outbox_exec cs r)) \<longrightarrow>
       run outbox_exec (cs @ ds) r = run outbox_exec cs r)"
proof -
  have ok: "outbox_ok r" by (rule NewOutboxRecord_ok [OF assms])
  then have ok': "outbox_ok (run outbox_exec cs r)" by (rule outbox.run_inv)
  show ?thesis
    using ok' outbox.run_le [OF ok, of cs] outbox.run_le [OF ok', of ds] by (simp add: outbox_le_def)
qed

theorem outbox_lifecycle_witness:
  "\<exists>r. NewOutboxRecord (\<lambda>_. Inr ''{}'') 7 (Some sample_event) (Time 20 0) = Ok r \<and>
     (let r' = run outbox_exec [OStart ''w1'' (Time 30 0) 30, OPublished ''w1'' (Time 40 0)] r in
      outbox_IsTerminal (ob_Status r') \<and> run outbox_exec [OStart ''w2'' (Time 50 0) 30] r' = r')"
proof -
  let ?cs = "[OStart ''w1'' (Time 30 0) 30, OPublished ''w1'' (Time 40 0)]"
  obtain r where r: "NewOutboxRecord (\<lambda>_. Inr ''{}'') 7 (Some sample_event) (Time 20 0) = Ok r"
    and shape: "ob_Status r = OutboxStatusPending" "MaxAttempts r = 10" "LockOwner r = []" "LastError r = []"
    by (simp add: NewOutboxRecord_def sample_event_def IsZero_def normalizeOutboxRecord_def
        DefaultOutboxMaxAttempts_def graphic_def)
  have "ob_Status (run outbox_exec ?cs r) = OutboxStatusPublished"
    using shape by (simp add: StartPublishing_def MarkPublished_def normalizeOutboxRecord_def IsZero_def
        graphic_def Let_def)
  then have "outbox_IsTerminal (ob_Status (run outbox_exec ?cs r))" by (simp add: outbox_IsTerminal_def)
  then show ?thesis
    using outbox_lifecycle [OF r, of ?cs "[OStart ''w2'' (Time 50 0) 30]"] r
    unfolding run_append Let_def by blast
qed

text \<open>
  A reported failure of the worker that holds the lock always releases it; the record is
  dead-lettered exactly when its attempts are used up, and otherwise scheduled again after the policy's
  delay.
\<close>

lemma failure_releases_lock:
  assumes "held_by w r" "\<not> IsZero at" "TrimSpace reason \<noteq> []" "retry_Validate p = None"
  shows "\<exists>r'. RegisterFailure w reason at p r = (r', None) \<and> LockOwner r' = [] \<and> LockUntil r' = None \<and>
    LastError r' = TrimSpace reason \<and> Attempts r' = Attempts r \<and>
    (if MaxAttempts r \<le> Attempts r
     then ob_Status r' = OutboxStatusDeadLettered \<and> DeadLetteredAt r' = Some (UTC at)
     else ob_Status r' = OutboxStatusRetryScheduled \<and>
       (\<exists>d. Delay p (Attempts r) = Some d \<and> NextAttemptAt r' = Some (time_Add (UTC at) d)))"
proof -
  have "snd (RegisterFailure w reason at p r) = None"
    using assms Delay_total [OF assms(4), of "Attempts r"]
    by (auto simp: RegisterFailure_def held_by_def Let_def)
  then show ?thesis
    by (cases rule: RegisterFailure_cases [of w reason at p r]) auto
qed

section \<open>The SQL statements implement the record\<close>






section \<open>Exclusion\<close>

text \<open>The statements other processes may run on the table while a worker holds a record.\<close>

datatype outbox_statement =
    SInsert "OutboxRecord list"
  | SClaim OutboxClaimRequest "uuid \<Rightarrow> bool" "uuid \<Rightarrow> nat"
  | SMark uuid string time
  | SRetry OutboxRecord string
  | SDead OutboxRecord string
  | SRelease time

fun statement :: "(string \<Rightarrow> bool) \<Rightarrow> outbox_statement \<Rightarrow> outbox_table \<Rightarrow> outbox_table" where
  "statement jv (SInsert rs) t = (case insertOutboxRecords jv rs t of Inl _ \<Rightarrow> t | Inr t' \<Rightarrow> t')"
| "statement jv (SClaim rq locked rank) t = fst (ClaimReady jv locked rank rq t)"
| "statement jv (SMark i w at) t = fst (store_MarkPublished i w at t)"
| "statement jv (SRetry rec w) t = fst (ScheduleRetry rec w t)"
| "statement jv (SDead rec w) t = fst (MarkDeadLettered rec w t)"
| "statement jv (SRelease at) t = fst (ReleaseExpiredLocks at t)"

text \<open>Statements of another worker, and clean-ups before the lock has run out.\<close>

fun foreign :: "string \<Rightarrow> time \<Rightarrow> outbox_statement \<Rightarrow> bool" where
  "foreign w until (SMark _ w' _) = (TrimSpace w' \<noteq> TrimSpace w)"
| "foreign w until (SRetry _ w') = (TrimSpace w' \<noteq> TrimSpace w)"
| "foreign w until (SDead _ w') = (TrimSpace w' \<noteq> TrimSpace w)"
| "foreign w until (SRelease at) = After until at"
| "foreign w until _ = True"

lemma insert_keeps:
  "insertOutboxRecords jv rs t = Ok t' \<Longrightarrow> stored t \<Longrightarrow>
   stored t' \<and> (\<forall>i r. row t i = Some r \<longrightarrow> row t' i = Some r)"
proof (induction rs arbitrary: t)
  case (Cons a rs)
  let ?t = "t @ [inserted_row a]"
  have ok: "ob_ID a \<notin> ob_ID ` set t" "insertOutboxRecords jv rs ?t = Ok t'"
    using Cons.prems(1) by (auto split: option.splits if_splits)
  then have "stored ?t" using Cons.prems(2) by (auto simp: stored_def inserted_row_def scan_times_def)
  moreover have "row t i = Some r \<Longrightarrow> row ?t i = Some r" for i r
    by (induction t) (simp_all add: row_def split: if_splits)
  ultimately show ?case using Cons.IH [OF ok(2)] by blast
qed simp

lemma claim_keeps_held:
  assumes "stored t" "row t i = Some r" "ob_Status r = OutboxStatusPublishing"
    and "ClaimReady jv locked rank rq t = (t', res)"
  shows "stored t' \<and> row t' i = Some r"
proof (cases res)
  case (Inl x)
  then show ?thesis using pg.claim_error [of jv locked rank rq t t' x] assms by (simp add: sql_repo_def)
next
  case (Inr rs)
  note cl = ClaimReady_row [OF assms(1), of jv locked rank rq t' rs]
  have "i \<notin> set (claimed_ids locked rq t)"
  proof
    assume "i \<in> set (claimed_ids locked rq t)"
    then obtain r0 where "r0 \<in> set t" "ob_ID r0 = i" "claimable (UTC (ClaimedAt rq)) r0"
      using claimed_ids_claimable by blast
    moreover from this have "r0 = r" using row_Some_iff [OF assms(1), of i r0] assms(2) by simp
    ultimately show False using assms(3) by (simp add: claimable_def)
  qed
  then show ?thesis using cl assms(2,4) Inr by simp
qed

lemma other_update_keeps:
  assumes "stored t" "row t i = Some r" "held_by w r" "TrimSpace w' \<noteq> TrimSpace w"
    and "err = None \<and> stored t' \<and> (\<exists>r0. row t j = Some r0 \<and> owned j (TrimSpace w') r0 \<and> row t' = (row t)(j \<mapsto> f r0)) \<or>
      err \<noteq> None \<and> t' = t"
  shows "stored t' \<and> row t' i = Some r"
  using assms by (cases "j = i") (auto simp: held_by_def owned_def)

lemma foreign_keeps:
  assumes "stored t" "row t i = Some r" "held_by w r" "LockUntil r = Some until" "foreign w until c"
  shows "stored (statement jv c t) \<and> row (statement jv c t) i = Some r"
proof (cases c)
  case (SInsert rs)
  then show ?thesis using insert_keeps [of jv rs t] assms(1,2) by (auto split: sum.split)
next
  case (SClaim rq locked rank)
  then show ?thesis
    using claim_keeps_held [OF assms(1,2), of jv locked rank rq] assms(3)
    by (cases "ClaimReady jv locked rank rq t") (auto simp: held_by_def)
next
  case (SMark j w' at)
  obtain t' err where e: "store_MarkPublished j w' at t = (t', err)" by force
  show ?thesis
    using other_update_keeps [OF assms(1-3), of w' err t' j "\<lambda>r. fst (MarkPublished w' at r)"]
      store_MarkPublished_row [OF assms(1) e] assms(5) SMark e by auto
next
  case (SRetry rec w')
  obtain t' err where e: "persistFailedRecord rec w' t = (t', err)" by force
  show ?thesis
    using other_update_keeps [OF assms(1-3), of w' err t' "ob_ID rec" "persisted rec"]
      persistFailedRecord_row [OF assms(1) e] assms(1,2,5) SRetry e by (auto simp: ScheduleRetry_def)
next
  case (SDead rec w')
  obtain t' err where e: "persistFailedRecord rec w' t = (t', err)" by force
  show ?thesis
    using other_update_keeps [OF assms(1-3), of w' err t' "ob_ID rec" "persisted rec"]
      persistFailedRecord_row [OF assms(1) e] assms(1,2,5) SDead e by (auto simp: MarkDeadLettered_def)
next
  case (SRelease at)
  obtain t' res where e: "ReleaseExpiredLocks at t = (t', res)" by force
  show ?thesis
    using ReleaseExpiredLocks_row [OF assms(1) e] assms(2,4,5) SRelease e by (simp add: expired_lock_def)
qed

text \<open>
  C20. As long as a worker holds a record and its lock has not run out, no sequence of statements of other workers, of claims by
  anyone, of insertions and of clean-ups changes the record: two workers never publish it at the same time, and the worker still
  can settle it.
\<close>

theorem lock_excludes_others:
  assumes "stored t" "row t i = Some r" "held_by w r" "LockUntil r = Some until"
    and "\<forall>c\<in>set cs. foreign w until c"
  shows "row (fold (statement json_Valid) cs t) i = Some r"
proof -
  have "stored (fold (statement json_Valid) cs t) \<and> row (fold (statement json_Valid) cs t) i = Some r"
    using assms(1,2,5)
  proof (induction cs arbitrary: t)
    case (Cons c cs)
    then show ?case using foreign_keeps [OF Cons.prems(1,2) assms(3,4), of c json_Valid] by simp
  qed simp
  then show ?thesis ..
qed

theorem lock_excludes_others_witness:
  "row (fold (statement (\<lambda>_. True)) [SMark 7 ''w2'' (Time 35 0), SRelease (Time 50 0),
      SClaim sample_claim (\<lambda>_. False) (\<lambda>_. 0)] [sample_locked]) 7 = Some sample_locked"
  by (rule lock_excludes_others [where w = "''w1''" and until = "Time 60 0", OF sample_stored(2) _ sample_held])
    (simp_all add: row_def sample_outbox graphic_def After_def)

section \<open>Delivery\<close>

text \<open>
  C21. Over any run of the publisher's worker against the PostgreSQL repository, with any broker and any interleaving of polls and
  clean-ups, no record disappears, and a record that is published at the end was published before the run or its
  message was accepted by the broker during it.
\<close>

theorem published_was_delivered:
  assumes "stored t" "publisher_run (sql_repo json_Valid locked rank) c ticks t [] = (t', sent)"
  shows "stored t' \<and> (\<forall>i. row t' i = None \<longleftrightarrow> row t i = None) \<and>
    (\<forall>i r'. row t' i = Some r' \<and> ob_Status r' = OutboxStatusPublished \<longrightarrow>
       row t i = Some r' \<or> (\<exists>m\<in>set sent. bm_ID m = uuid_String i))"
  using pg.publisher_run_delivers [OF assms] unfolding pg.delivered_def by blast

definition sample_published :: OutboxRecord where
  "sample_published = (claim_row ''w1'' (Time 30 0) (Time 30000000030 0) sample_record)\<lparr>ob_Status := OutboxStatusPublished,
       PublishedAt := Some (Time 40 0), LockOwner := [], LockUntil := None\<rparr>"

lemma sample_run:
  "publisher_run (sql_repo (\<lambda>_. True) (\<lambda>_. False) (\<lambda>_. 0)) (DefaultOutboxPublisherConfig ''w1'')
     [PollTick (\<lambda>_ _. None) (Time 30 0) (\<lambda>_. Time 40 0)] [sample_record] [] =
   ([sample_published],
    [broker_message (DefaultOutboxPublisherConfig ''w1'') sample_record])"
  by (simp add: sql_repo_def PublishOnce_def DefaultOutboxPublisherConfig_def ClaimReady_def sample_outbox
      claim_Validate_def claimed_ids_def claimable_def sql_update_def scanOutboxRecord_def scan_times_def
      validateOutboxRecord_def outbox_IsValid_def IsZero_def UTC_def time_Add_def graphic_def Let_def
      store_MarkPublished_def single_update_def owned_def broker_message_def sample_published_def)

theorem published_was_delivered_witness:
  "\<exists>t' sent. publisher_run (sql_repo (\<lambda>_. True) (\<lambda>_. False) (\<lambda>_. 0)) (DefaultOutboxPublisherConfig ''w1'')
     [PollTick (\<lambda>_ _. None) (Time 30 0) (\<lambda>_. Time 40 0)] [sample_record] [] = (t', sent) \<and>
     (\<exists>m\<in>set sent. bm_ID m = uuid_String 7)"
proof -
  have "row [sample_published] 7 = Some sample_published" "ob_Status sample_published = OutboxStatusPublished"
    "row [sample_record] 7 \<noteq> Some sample_published"
    by (simp_all add: row_def sample_outbox sample_published_def)
  then have "\<exists>m\<in>set [broker_message (DefaultOutboxPublisherConfig ''w1'') sample_record]. bm_ID m = uuid_String 7"
    using published_was_delivered [OF sample_stored(1) sample_run] by blast
  then show ?thesis using sample_run by blast
qed

text \<open>
  C22. If the broker accepts every message, a pass that claims records publishes all of them: it sends exactly their messages, in the order of
  the claim, reports their number and no error, and leaves every one of them published.
\<close>

theorem publisher_drains:
  assumes "stored t" "\<forall>k m. send k m = None" "\<forall>k. \<not> IsZero (now k)"
    and "ClaimReady json_Valid locked rank \<lparr>cr_WorkerID = pc_WorkerID c, Limit = pc_BatchSize c,
           ClaimedAt = UTC claimTime, cr_LockDuration = pc_LockDuration c\<rparr> t = (t1, Ok rs)"
  shows "\<exists>t'. PublishOnce (sql_repo json_Valid locked rank) send c claimTime now t =
      (t', map (broker_message c) rs, length rs, None) \<and>
    (\<forall>r\<in>set rs. \<exists>r'. row t' (ob_ID r) = Some r' \<and> ob_Status r' = OutboxStatusPublished) \<and>
    (\<forall>i. i \<notin> ob_ID ` set rs \<longrightarrow> row t' i = row t i)"
proof -
  note cl = sql_claim_ok [OF assms(1,4)]
  have "\<forall>r\<in>set rs. ob_ID r \<noteq> Nil_uuid \<and> row t1 (ob_ID r) = Some r \<and> held_by (pc_WorkerID c) r"
    using cl by simp
  moreover have "stored t1" "distinct (map ob_ID rs)" using cl by blast+
  ultimately obtain t' where
    "PublishOnce_loop (sql_repo json_Valid locked rank) send c now rs 0 t1 [] 0 =
       (t', [] @ map (broker_message c) rs, 0 + length rs, None)"
    "\<forall>r\<in>set rs. \<exists>r'. row t' (ob_ID r) = Some r' \<and> ob_Status r' = OutboxStatusPublished"
    "\<forall>i. i \<notin> ob_ID ` set rs \<longrightarrow> row t' i = row t1 i"
    using pg.PublishOnce_loop_drains [of t1 rs send now c json_Valid locked rank 0 "[]" 0] assms(2,3) by blast
  moreover have "repo_ClaimReady (sql_repo json_Valid locked rank) = ClaimReady json_Valid locked rank"
    by (simp add: sql_repo_def)
  ultimately show ?thesis using cl assms(4) by (intro exI [of _ t']) (simp add: PublishOnce_def)
qed

theorem publisher_drains_witness:
  "\<exists>t'. PublishOnce (sql_repo (\<lambda>_. True) (\<lambda>_. False) (\<lambda>_. 0)) (\<lambda>_ _. None) (DefaultOutboxPublisherConfig ''w1'')
     (Time 30 0) (\<lambda>_. Time 40 0) [sample_record] =
     (t', [broker_message (DefaultOutboxPublisherConfig ''w1'')
             (claim_row ''w1'' (Time 30 0) (Time 30000000030 0) sample_record)], 1, None)"
proof -
  let ?c = "DefaultOutboxPublisherConfig ''w1''" and ?r = "claim_row ''w1'' (Time 30 0) (Time 30000000030 0) sample_record"
  have "ClaimReady (\<lambda>_. True) (\<lambda>_. False) (\<lambda>_. 0) \<lparr>cr_WorkerID = pc_WorkerID ?c, Limit = pc_BatchSize ?c,
           ClaimedAt = UTC (Time 30 0), cr_LockDuration = pc_LockDuration ?c\<rparr> [sample_record] = ([?r], Ok [?r])"
    by (simp add: DefaultOutboxPublisherConfig_def ClaimReady_def sample_outbox
      claim_Validate_def claimed_ids_def claimable_def sql_update_def scanOutboxRecord_def scan_times_def
      validateOutboxRecord_def outbox_IsValid_def IsZero_def UTC_def time_Add_def graphic_def Let_def)
  from publisher_drains [OF sample_stored(1) _ _ this, of "\<lambda>_ _. None" "\<lambda>_. Time 40 0"]
  show ?thesis by (auto simp: IsZero_def)
qed

end
