(* ===== verification/Sha256.thy ===== *)
theory Sha256
  imports Go_Prelude
begin

text \<open>
  The parts of Go's \<open>crypto/sha256\<close> and \<open>encoding/binary\<close> the program uses: SHA-256 on byte strings,
  big-endian encodings of fixed width, and length-prefixed strings. The round constants are computed
  from the primes they are defined by. The lemmas give the length of a digest and that the encodings can be
  read back, which is what makes the hashed preimages unambiguous.
\<close>

unbundle bit_operations_syntax

type_synonym byte = "8 word"
type_synonym bytes = "byte list"
type_synonym w32 = "32 word"

section \<open>Encodings\<close>

definition bytes_of :: "string \<Rightarrow> bytes" where
  "bytes_of s = map (\<lambda>c. word_of_int (of_char c)) s"

text \<open>The \<open>n\<close> low bytes of a number, most significant first (\<open>binary.BigEndian\<close>).\<close>

fun big_endian :: "nat \<Rightarrow> int \<Rightarrow> bytes" where
  "big_endian 0 x = []"
| "big_endian (Suc n) x = big_endian n (x div 256) @ [word_of_int (x mod 256)]"

definition PutUint64 :: "u64 \<Rightarrow> bytes" where
  "PutUint64 x = big_endian 8 (uint x)"

definition PutUint32 :: "u32 \<Rightarrow> bytes" where
  "PutUint32 x = big_endian 4 (uint x)"

text \<open>A string with its length in front.\<close>

definition sized :: "string \<Rightarrow> bytes" where
  "sized s = big_endian 8 (int (length s)) @ bytes_of s"

text \<open>
  \<open>uint64(t.UnixMicro())\<close>, the microseconds since 1970, rounded down. Times for which the 64 bits
  do not wrap around, which includes all a \<open>TIMESTAMPTZ\<close> column can hold, are \<open>micro_range\<close>.
\<close>

definition unix_epoch :: int where "unix_epoch = 62135596800 * 1000000"

definition UnixMicro :: "time \<Rightarrow> u64" where
  "UnixMicro t = word_of_int (instant t div 1000 - unix_epoch)"

definition micro_range :: "time \<Rightarrow> bool" where
  "micro_range t \<longleftrightarrow> - (2 ^ 63) \<le> instant t div 1000 - unix_epoch \<and> instant t div 1000 - unix_epoch < 2 ^ 63"

definition read_be :: "bytes \<Rightarrow> int" where
  "read_be bs = foldl (\<lambda>n b. n * 256 + uint b) 0 bs"

lemma length_big_endian [simp]: "length (big_endian n x) = n"
  by (induction n arbitrary: x) simp_all

lemma length_bytes_of [simp]: "length (bytes_of s) = length s"
  by (simp add: bytes_of_def)

lemma length_Put [simp]: "length (PutUint64 x) = 8" "length (PutUint32 y) = 4"
  by (simp_all add: PutUint64_def PutUint32_def)

lemma bytes_of_inject [simp]: "bytes_of s = bytes_of t \<longleftrightarrow> s = t"
proof
  have "inj (\<lambda>c. word_of_int (of_char c) :: byte)"
  proof (rule injI)
    fix c d :: char
    assume "(word_of_int (of_char c) :: byte) = word_of_int (of_char d)"
    then have "uint (word_of_int (of_char c) :: byte) = uint (word_of_int (of_char d) :: byte)" by simp
    then have "(of_char c :: int) = of_char d" by (simp add: uint_word_of_int)
    then show "c = d" by simp
  qed
  then show "bytes_of s = bytes_of t \<Longrightarrow> s = t" by (simp add: bytes_of_def inj_map_eq_map)
qed simp

lemma read_be_big_endian [simp]: "read_be (big_endian n x) = x mod 256 ^ n"
proof (induction n arbitrary: x)
  case (Suc n)
  have "read_be (big_endian (Suc n) x) = x div 256 mod 256 ^ n * 256 + x mod 256"
    using Suc [of "x div 256"] by (simp add: read_be_def uint_word_of_int)
  then show ?case by (simp add: zmod_zmult2_eq mult.commute)
qed (simp add: read_be_def)

lemma big_endian_inject:
  "0 \<le> x \<Longrightarrow> x < 256 ^ n \<Longrightarrow> 0 \<le> y \<Longrightarrow> y < 256 ^ n \<Longrightarrow> big_endian n x = big_endian n y \<longleftrightarrow> x = y"
  by (metis read_be_big_endian mod_pos_pos_trivial)

lemma PutUint64_inject [simp]: "PutUint64 x = PutUint64 y \<longleftrightarrow> x = y"
  using big_endian_inject [of "uint x" 8 "uint y"] unsigned_less [where 'a = int, of x]
    unsigned_less [where 'a = int, of y]
  by (simp add: PutUint64_def word_eq_iff_unsigned [where 'a = int])

lemma PutUint32_inject [simp]: "PutUint32 x = PutUint32 y \<longleftrightarrow> x = y"
  using big_endian_inject [of "uint x" 4 "uint y"] unsigned_less [where 'a = int, of x]
    unsigned_less [where 'a = int, of y]
  by (simp add: PutUint32_def word_eq_iff_unsigned [where 'a = int])

lemma int64_word_inject:
  assumes "(word_of_int a :: u64) = word_of_int b" "- (2 ^ 63) \<le> a" "a < 2 ^ 63" "- (2 ^ 63) \<le> b" "b < 2 ^ 63"
  shows "a = b"
proof -
  have "signed_take_bit 63 a = signed_take_bit 63 b"
    using assms(1) by (simp add: word_of_int_eq_iff signed_take_bit_eq_iff_take_bit_eq)
  then show ?thesis using assms(2-5) by (simp add: signed_take_bit_int_eq_self)
qed

lemma UnixMicro_inject:
  "micro_range t \<Longrightarrow> micro_range u \<Longrightarrow> UnixMicro t = UnixMicro u \<longleftrightarrow> instant t div 1000 = instant u div 1000"
  using int64_word_inject [of "instant t div 1000 - unix_epoch" "instant u div 1000 - unix_epoch"]
  by (auto simp: UnixMicro_def micro_range_def)

lemma UnixMicro_truncate: "UnixMicro (truncate_micro t) = UnixMicro t"
  by (simp add: UnixMicro_def truncate_micro_def minus_mod_eq_div_mult)

text \<open>A length-prefixed string can be split off the front of what follows it.\<close>

lemma sized_append_inject:
  assumes "length s < 2 ^ 64" "length t < 2 ^ 64"
  shows "sized s @ xs = sized t @ ys \<longleftrightarrow> s = t \<and> xs = ys"
proof
  assume eq: "sized s @ xs = sized t @ ys"
  then have "big_endian 8 (int (length s)) = big_endian 8 (int (length t))"
    by (simp add: sized_def)
  then have "length s = length t" using assms by (subst (asm) big_endian_inject) simp_all
  then show "s = t \<and> xs = ys" using eq by (simp add: sized_def)
qed simp

section \<open>The hash function\<close>

text \<open>\<open>iroot_digits k n b 0\<close>: the integer \<open>k\<close>-th root, one binary digit at a time from \<open>2 ^ b\<close> down.\<close>

fun iroot_digits :: "nat \<Rightarrow> int \<Rightarrow> nat \<Rightarrow> int \<Rightarrow> int" where
  "iroot_digits k n 0 r = r"
| "iroot_digits k n (Suc b) r = iroot_digits k n b (if (r + 2 ^ b) ^ k \<le> n then r + 2 ^ b else r)"

definition primes64 :: "int list" where
  "primes64 = filter (\<lambda>p. \<forall>d\<in>set [2..p - 1]. \<not> d dvd p) [2..311]"

text \<open>The first 32 bits of the fractional part of the square and cube roots of the primes.\<close>

definition sha_H0 :: "w32 list" where
  "sha_H0 = map (\<lambda>p. word_of_int (iroot_digits 2 (p * 2 ^ 64) 40 0)) (take 8 primes64)"

definition sha_K :: "w32 list" where
  "sha_K = map (\<lambda>p. word_of_int (iroot_digits 3 (p * 2 ^ 96) 40 0)) primes64"

definition rotr :: "nat \<Rightarrow> w32 \<Rightarrow> w32" where
  "rotr n x = drop_bit n x OR push_bit (32 - n) x"

definition Ch :: "w32 \<Rightarrow> w32 \<Rightarrow> w32 \<Rightarrow> w32" where "Ch x y z = (x AND y) XOR (NOT x AND z)"
definition Maj :: "w32 \<Rightarrow> w32 \<Rightarrow> w32 \<Rightarrow> w32" where "Maj x y z = (x AND y) XOR (x AND z) XOR (y AND z)"
definition Sum0 :: "w32 \<Rightarrow> w32" where "Sum0 x = rotr 2 x XOR rotr 13 x XOR rotr 22 x"
definition Sum1 :: "w32 \<Rightarrow> w32" where "Sum1 x = rotr 6 x XOR rotr 11 x XOR rotr 25 x"
definition sig0 :: "w32 \<Rightarrow> w32" where "sig0 x = rotr 7 x XOR rotr 18 x XOR drop_bit 3 x"
definition sig1 :: "w32 \<Rightarrow> w32" where "sig1 x = rotr 17 x XOR rotr 19 x XOR drop_bit 10 x"

text \<open>The message schedule, kept with its latest word in front.\<close>

fun sha_extend :: "nat \<Rightarrow> w32 list \<Rightarrow> w32 list" where
  "sha_extend 0 ws = ws"
| "sha_extend (Suc n) ws = sha_extend n ((sig1 (ws ! 1) + ws ! 6 + sig0 (ws ! 14) + ws ! 15) # ws)"

definition sha_schedule :: "w32 list \<Rightarrow> w32 list" where
  "sha_schedule block = rev (sha_extend 48 (rev block))"

text \<open>The working variables \<open>a\<close> to \<open>h\<close>.\<close>

datatype sha_state = Sha w32 w32 w32 w32 w32 w32 w32 w32

fun sha_round :: "w32 \<times> w32 \<Rightarrow> sha_state \<Rightarrow> sha_state" where
  "sha_round (k, w) (Sha a b c d e f g h) =
     (let t1 = h + Sum1 e + Ch e f g + k + w; t2 = Sum0 a + Maj a b c
      in Sha (t1 + t2) a b c (d + t1) e f g)"

fun sha_add :: "sha_state \<Rightarrow> sha_state \<Rightarrow> sha_state" where
  "sha_add (Sha a b c d e f g h) (Sha a' b' c' d' e' f' g' h') =
     Sha (a + a') (b + b') (c + c') (d + d') (e + e') (f + f') (g + g') (h + h')"

definition sha_block :: "w32 list \<Rightarrow> sha_state \<Rightarrow> sha_state" where
  "sha_block block s = sha_add s (fold sha_round (zip sha_K (sha_schedule block)) s)"

definition sha_pad :: "bytes \<Rightarrow> bytes" where
  "sha_pad m = m @ [128] @ replicate ((119 - length m mod 64) mod 64) 0 @ big_endian 8 (8 * int (length m))"

fun words_of :: "bytes \<Rightarrow> w32 list" where
  "words_of (a # b # c # d # bs) = word_of_int (read_be [a, b, c, d]) # words_of bs"
| "words_of _ = []"

fun sha_blocks :: "nat \<Rightarrow> w32 list \<Rightarrow> sha_state \<Rightarrow> sha_state" where
  "sha_blocks 0 ws s = s"
| "sha_blocks (Suc n) ws s = sha_blocks n (drop 16 ws) (sha_block (take 16 ws) s)"

fun sha_bytes :: "sha_state \<Rightarrow> bytes" where
  "sha_bytes (Sha a b c d e f g h) = concat (map PutUint32 [a, b, c, d, e, f, g, h])"

definition sha_init :: sha_state where
  "sha_init = Sha (sha_H0 ! 0) (sha_H0 ! 1) (sha_H0 ! 2) (sha_H0 ! 3) (sha_H0 ! 4) (sha_H0 ! 5)
     (sha_H0 ! 6) (sha_H0 ! 7)"

definition sha256 :: "bytes \<Rightarrow> bytes" where
  "sha256 m = (let p = sha_pad m in sha_bytes (sha_blocks (length p div 64) (words_of p) sha_init))"

lemma length_sha256 [simp]: "length (sha256 m) = 32"
proof -
  have "length (sha_bytes s) = 32" for s by (cases s) simp
  then show ?thesis by (simp add: sha256_def Let_def)
qed

end
