(* ===== verification/Audit_Ledger.thy ===== *)
theory Audit_Ledger
  imports Sha256 "HOL-Library.Sublist"
begin

text \<open>
  The audit chain (\<open>src/audit/chain.go\<close>) and the ledger table that stores it
  (\<open>src/persistence/postgres/audit_repository.go\<close>, migration 0011). The lemmas show that the ledger is
  a gap-free chain of sealed entries under every append, and that its head root fixes all of it
  unless two of its preimages collide.

  A root is a byte list; \<open>[32]byte\<close> is the condition that it has 32 bytes. Connection failures are not
  modelled; the exclusive table lock makes every append one step.
\<close>

section \<open>Definitions\<close>

datatype audit_error =
    ErrKindInvalid
  | ErrSequenceInvalid
  | ErrRecordRootMissing
  | ErrOccurredAtMissing
  | ErrEntryNotCanonical
  | ErrLedgerEmpty
  | ErrLedgerConflict
  | ErrAppendAuditEntry

type_synonym RecordKind = byte

definition RecordEvaluation :: RecordKind where "RecordEvaluation = 1"
definition RecordEstimator :: RecordKind where "RecordEstimator = 2"
definition RecordResponsibilityHandover :: RecordKind where "RecordResponsibilityHandover = 3"
definition RecordEvidenceBundle :: RecordKind where "RecordEvidenceBundle = 4"

definition kind_IsValid :: "RecordKind \<Rightarrow> bool" where
  "kind_IsValid kind \<longleftrightarrow> RecordEvaluation \<le> kind \<and> kind \<le> RecordEvidenceBundle"

record Entry =
  Sequence :: u64
  Kind :: RecordKind
  PreviousRoot :: bytes
  RecordRoot :: bytes
  en_OccurredAt :: time
  Root :: bytes

definition zero_root :: bytes where "zero_root = replicate 32 0"

definition chainDomain :: string where "chainDomain = ''cargoos:audit-chain:v1''"

definition preimage :: "Entry \<Rightarrow> bytes" where
  "preimage entry = bytes_of chainDomain @ [Kind entry] @ PutUint64 (Sequence entry) @
     PreviousRoot entry @ RecordRoot entry @ PutUint64 (UnixMicro (en_OccurredAt entry))"

definition calculateRoot :: "Entry \<Rightarrow> bytes" where
  "calculateRoot entry = sha256 (preimage entry)"

definition NewEntry :: "u64 \<Rightarrow> RecordKind \<Rightarrow> bytes \<Rightarrow> bytes \<Rightarrow> time \<Rightarrow> audit_error + Entry" where
  "NewEntry sequence kind previousRoot recordRoot occurredAt =
     (if \<not> kind_IsValid kind then Err ErrKindInvalid
      else if sequence = 0 \<or> (sequence = 1) \<noteq> (previousRoot = zero_root) then Err ErrSequenceInvalid
      else if recordRoot = zero_root then Err ErrRecordRootMissing
      else if IsZero occurredAt then Err ErrOccurredAtMissing
      else let entry = \<lparr>Sequence = sequence, Kind = kind, PreviousRoot = previousRoot,
                 RecordRoot = recordRoot, en_OccurredAt = truncate_micro (UTC occurredAt), Root = zero_root\<rparr>
           in Ok (entry\<lparr>Root := calculateRoot entry\<rparr>))"

definition entry_Validate :: "Entry \<Rightarrow> audit_error option" where
  "entry_Validate entry =
     (case NewEntry (Sequence entry) (Kind entry) (PreviousRoot entry) (RecordRoot entry) (en_OccurredAt entry) of
        Inl err \<Rightarrow> Some err
      | Inr normalized \<Rightarrow> if normalized \<noteq> entry then Some ErrEntryNotCanonical else None)"

subsection \<open>The ledger table\<close>

type_synonym ledger = "Entry list"

definition max_sequence :: u64 where "max_sequence = 2 ^ 63 - 1"

text \<open>\<open>ORDER BY sequence DESC LIMIT 1\<close>; the table holds at most one row for a sequence.\<close>

fun head_row :: "ledger \<Rightarrow> Entry option" where
  "head_row [] = None"
| "head_row (e # l) = (case head_row l of
     None \<Rightarrow> Some e | Some h \<Rightarrow> if Sequence e \<le> Sequence h then Some h else Some e)"

definition auditHeadLocked :: "ledger \<Rightarrow> audit_error + u64 \<times> bytes" where
  "auditHeadLocked l =
     (case head_row l of
        None \<Rightarrow> Err ErrLedgerEmpty
      | Some h \<Rightarrow> if length (Root h) \<noteq> 32 then Err ErrEntryNotCanonical else Ok (Sequence h, Root h))"

definition nextAuditEntryLocked ::
  "RecordKind \<Rightarrow> bytes \<Rightarrow> time \<Rightarrow> ledger \<Rightarrow> audit_error + Entry" where
  "nextAuditEntryLocked kind recordRoot occurredAt l =
     (case auditHeadLocked l of
        Inl ErrLedgerEmpty \<Rightarrow> NewEntry 1 kind zero_root recordRoot occurredAt
      | Inl err \<Rightarrow> Err err
      | Inr (sequence, previousRoot) \<Rightarrow>
          if sequence \<ge> max_sequence then Err ErrSequenceInvalid
          else NewEntry (sequence + 1) kind previousRoot recordRoot occurredAt)"

text \<open>The column constraints and the trigger \<open>cargoos_validate_audit_append\<close> of the table.\<close>

definition ledger_admits :: "Entry \<Rightarrow> ledger \<Rightarrow> bool" where
  "ledger_admits entry l \<longleftrightarrow>
     0 < Sequence entry \<and> Sequence entry \<le> max_sequence \<and> kind_IsValid (Kind entry) \<and>
     length (PreviousRoot entry) = 32 \<and> length (RecordRoot entry) = 32 \<and> length (Root entry) = 32 \<and>
     Root entry \<notin> Root ` set l \<and> Sequence entry \<notin> Sequence ` set l \<and>
     ((Sequence entry = 1) = (PreviousRoot entry = zero_root)) \<and>
     (case head_row l of
        None \<Rightarrow> Sequence entry = 1 \<and> PreviousRoot entry = zero_root
      | Some h \<Rightarrow> Sequence entry = Sequence h + 1 \<and> PreviousRoot entry = Root h)"

definition insertAuditEntry :: "Entry \<Rightarrow> ledger \<Rightarrow> audit_error + ledger" where
  "insertAuditEntry entry l = (if ledger_admits entry l then Ok (l @ [entry]) else Err ErrAppendAuditEntry)"

definition AppendAuditEntry :: "Entry \<Rightarrow> ledger \<Rightarrow> ledger \<times> audit_error option" where
  "AppendAuditEntry entry l =
     (if entry_Validate entry \<noteq> None \<or> Sequence entry > max_sequence then (l, Some ErrEntryNotCanonical)
      else
        let guard = (case auditHeadLocked l of
              Inl ErrLedgerEmpty \<Rightarrow>
                if Sequence entry \<noteq> 1 \<or> PreviousRoot entry \<noteq> zero_root then Some ErrLedgerConflict else None
            | Inl err \<Rightarrow> Some err
            | Inr (sequence, root) \<Rightarrow>
                if Sequence entry \<noteq> sequence + 1 \<or> PreviousRoot entry \<noteq> root
                then Some ErrLedgerConflict else None)
        in case guard of
             Some err \<Rightarrow> (l, Some err)
           | None \<Rightarrow> (case insertAuditEntry entry l of Inl err \<Rightarrow> (l, Some err) | Inr l' \<Rightarrow> (l', None)))"

text \<open>The append every other transaction performs: \<open>nextAuditEntryLocked\<close> and \<open>insertAuditEntry\<close>.\<close>

definition append_next :: "RecordKind \<Rightarrow> bytes \<Rightarrow> time \<Rightarrow> ledger \<Rightarrow> audit_error + Entry \<times> ledger" where
  "append_next kind recordRoot occurredAt l =
     (case nextAuditEntryLocked kind recordRoot occurredAt l of
        Inl err \<Rightarrow> Err err
      | Inr entry \<Rightarrow> (case insertAuditEntry entry l of Inl err \<Rightarrow> Err err | Inr l' \<Rightarrow> Ok (entry, l')))"

definition FindAuditHead :: "ledger \<Rightarrow> audit_error + Entry" where
  "FindAuditHead l =
     (case head_row l of
        None \<Rightarrow> Err ErrLedgerEmpty
      | Some h \<Rightarrow>
          if length (PreviousRoot h) \<noteq> 32 \<or> length (RecordRoot h) \<noteq> 32 \<or> length (Root h) \<noteq> 32
          then Err ErrEntryNotCanonical
          else let entry = h\<lparr>en_OccurredAt := UTC (en_OccurredAt h)\<rparr>
               in case entry_Validate entry of Some err \<Rightarrow> Err err | None \<Rightarrow> Ok entry)"

section \<open>Sealed entries\<close>

lemma preimage_Root [simp]: "preimage (e\<lparr>Root := r\<rparr>) = preimage e"
  by (simp add: preimage_def)

lemma calculateRoot_Root [simp]: "calculateRoot (e\<lparr>Root := r\<rparr>) = calculateRoot e"
  by (simp add: calculateRoot_def)

text \<open>
  What \<open>NewEntry\<close> produces. Its time is not zero before it is truncated to microseconds; truncation
  may make it zero, and then \<open>Validate\<close> rejects the entry.
\<close>

definition sealed :: "Entry \<Rightarrow> bool" where
  "sealed e \<longleftrightarrow> kind_IsValid (Kind e) \<and> Sequence e \<noteq> 0 \<and>
     (Sequence e = 1) = (PreviousRoot e = zero_root) \<and> RecordRoot e \<noteq> zero_root \<and>
     truncate_micro (UTC (en_OccurredAt e)) = en_OccurredAt e \<and> Root e = calculateRoot e"

lemma entry_Validate_iff: "entry_Validate e = None \<longleftrightarrow> sealed e \<and> \<not> IsZero (en_OccurredAt e)"
proof -
  let ?n = "e\<lparr>en_OccurredAt := truncate_micro (UTC (en_OccurredAt e)), Root := zero_root\<rparr>"
  have e: "\<lparr>Sequence = Sequence e, Kind = Kind e, PreviousRoot = PreviousRoot e, RecordRoot = RecordRoot e,
      en_OccurredAt = truncate_micro (UTC (en_OccurredAt e)), Root = zero_root\<rparr> = ?n" by (cases e) simp
  have "?n\<lparr>Root := calculateRoot ?n\<rparr> = e \<longleftrightarrow>
      truncate_micro (UTC (en_OccurredAt e)) = en_OccurredAt e \<and> Root e = calculateRoot e"
  proof
    assume n: "?n\<lparr>Root := calculateRoot ?n\<rparr> = e"
    then have at: "truncate_micro (UTC (en_OccurredAt e)) = en_OccurredAt e" by (cases e) simp
    from arg_cong [OF n, of Root] have "Root e = calculateRoot ?n" by simp
    also have "?n = e\<lparr>Root := zero_root\<rparr>" using at by (cases e) simp
    finally show "truncate_micro (UTC (en_OccurredAt e)) = en_OccurredAt e \<and> Root e = calculateRoot e"
      using at by simp
  next
    assume a: "truncate_micro (UTC (en_OccurredAt e)) = en_OccurredAt e \<and> Root e = calculateRoot e"
    then have n: "?n = e\<lparr>Root := zero_root\<rparr>" by (cases e) simp
    show "?n\<lparr>Root := calculateRoot ?n\<rparr> = e"
      unfolding n calculateRoot_Root using a [THEN conjunct2, symmetric] by simp
  qed
  then show ?thesis
    by (auto simp: entry_Validate_def NewEntry_def sealed_def Let_def e)
qed

lemma NewEntry_sealed:
  assumes "NewEntry n k p r at = Ok e"
  shows "sealed e \<and> Sequence e = n \<and> Kind e = k \<and> PreviousRoot e = p \<and> RecordRoot e = r"
proof -
  have "UTC (truncate_micro (UTC at)) = truncate_micro (UTC at)" by (simp add: truncate_micro_def UTC_def)
  then show ?thesis
    using assms by (auto simp: NewEntry_def sealed_def Let_def calculateRoot_def preimage_def split: if_splits)
qed

text \<open>The preimage determines the entry.\<close>

lemma preimage_inject:
  assumes "sealed e" "sealed e'" "micro_range (en_OccurredAt e)" "micro_range (en_OccurredAt e')"
    and "length (PreviousRoot e) = 32" "length (PreviousRoot e') = 32"
    and "length (RecordRoot e) = 32" "length (RecordRoot e') = 32"
    and "preimage e = preimage e'"
  shows "e = e'"
proof -
  have eq: "Kind e = Kind e'" "Sequence e = Sequence e'" "PreviousRoot e = PreviousRoot e'"
    "RecordRoot e = RecordRoot e'" "UnixMicro (en_OccurredAt e) = UnixMicro (en_OccurredAt e')"
    using assms(5-9) by (auto simp: preimage_def)
  have "instant (en_OccurredAt e) div 1000 = instant (en_OccurredAt e') div 1000"
    using eq(5) UnixMicro_inject [OF assms(3,4)] by simp
  moreover have t: "x = Time (instant x div 1000 * 1000) 0" if "truncate_micro (UTC x) = x" for x
    using arg_cong [OF that, of instant] arg_cong [OF that, of location]
    by (cases x) (simp add: truncate_micro_def minus_mod_eq_div_mult)
  ultimately have at: "en_OccurredAt e = en_OccurredAt e'"
    using assms(1,2) t [of "en_OccurredAt e"] t [of "en_OccurredAt e'"] by (simp add: sealed_def)
  have "Root e = Root e'" using assms(1,2,9) by (simp add: sealed_def calculateRoot_def)
  with eq at show ?thesis by (cases e, cases e') simp
qed

section \<open>The chain\<close>

text \<open>The ledger, latest entry first.\<close>

fun chained_rev :: "Entry list \<Rightarrow> bool" where
  "chained_rev [] \<longleftrightarrow> True"
| "chained_rev (e # l) \<longleftrightarrow> sealed e \<and> length (PreviousRoot e) = 32 \<and> length (RecordRoot e) = 32 \<and>
     Sequence e = of_nat (length l + 1) \<and> length l + 1 < 2 ^ 63 \<and>
     PreviousRoot e = (case l of [] \<Rightarrow> zero_root | h # _ \<Rightarrow> Root h) \<and> chained_rev l"

definition chained :: "ledger \<Rightarrow> bool" where
  "chained l \<longleftrightarrow> chained_rev (rev l)"

lemma chained_Nil [simp]: "chained []"
  by (simp add: chained_def)

lemma chained_snoc:
  "chained (l @ [e]) \<longleftrightarrow> sealed e \<and> length (PreviousRoot e) = 32 \<and> length (RecordRoot e) = 32 \<and>
     Sequence e = of_nat (length l + 1) \<and> length l + 1 < 2 ^ 63 \<and>
     PreviousRoot e = (if l = [] then zero_root else Root (last l)) \<and> chained l"
proof -
  have "(case rev l of [] \<Rightarrow> zero_root | h # _ \<Rightarrow> Root h) = (if l = [] then zero_root else Root (last l))"
    by (cases l rule: rev_cases) simp_all
  then show ?thesis by (simp add: chained_def)
qed

lemma unat_u64: "n < 2 ^ 64 \<Longrightarrow> unat (of_nat n :: u64) = n"
  by (simp add: unat_of_nat)

lemma unat_small: "n < 2 ^ 63 \<Longrightarrow> unat (of_nat n :: u64) = n"
  by (simp add: unat_of_nat)

lemma chained_sequences: "chained l \<Longrightarrow> e \<in> set l \<Longrightarrow> Sequence e \<le> of_nat (length l)"
proof (induction l rule: rev_induct)
  case (snoc x l)
  then have x: "chained l" "Sequence x = of_nat (length l + 1)" "length l + 1 < 2 ^ 63"
    by (simp_all add: chained_snoc)
  have "(of_nat (length l) :: u64) \<le> of_nat (length l + 1)"
    unfolding word_le_nat_alt using x(3) unat_small [of "length l"] unat_small [of "length l + 1"] by simp
  then show ?case using snoc x by (auto intro: order_trans)
qed simp

lemma find_sequence: "chained l \<Longrightarrow> e \<in> set l \<Longrightarrow> find (\<lambda>x. Sequence x = Sequence e) l = Some e"
proof (induction l rule: rev_induct)
  case (snoc x l)
  then have x: "chained l" "Sequence x = of_nat (length l + 1)" "length l + 1 < 2 ^ 63"
    by (simp_all add: chained_snoc)
  have new: "Sequence y \<noteq> Sequence x" if "y \<in> set l" for y
  proof
    assume "Sequence y = Sequence x"
    then have "unat (of_nat (length l + 1) :: u64) \<le> unat (of_nat (length l) :: u64)"
      using chained_sequences [OF x(1) that] x(2) by (simp add: word_le_nat_alt)
    then show False unfolding unat_small [OF x(3)] using unat_small [of "length l"] x(3) by simp
  qed
  show ?case
  proof (cases "e = x")
    case True
    have "find (\<lambda>y. Sequence y = Sequence x) l = None" using new by (simp add: find_None_iff)
    then show ?thesis using True by (simp add: find_append)
  next
    case False
    then show ?thesis using snoc x(1) by (simp add: find_append)
  qed
qed simp

lemma head_row_snoc: "\<forall>x\<in>set l. Sequence x \<le> Sequence e \<Longrightarrow> head_row (l @ [e]) = Some e"
  by (induction l) simp_all

lemma head_row_chained: "chained l \<Longrightarrow> head_row l = (if l = [] then None else Some (last l))"
proof (cases l rule: rev_cases)
  case (snoc l' e)
  moreover assume "chained l"
  ultimately have c: "chained (l' @ [e])" by simp
  then have "Sequence e = of_nat (length l' + 1)" by (simp add: chained_snoc)
  then have "\<forall>x\<in>set l'. Sequence x \<le> Sequence e"
    using chained_sequences [OF c] by simp
  then show ?thesis using snoc head_row_snoc by simp
qed simp

lemma chained_last:
  "chained l \<Longrightarrow> l \<noteq> [] \<Longrightarrow> Sequence (last l) = of_nat (length l) \<and> length l < 2 ^ 63 \<and>
   length (Root (last l)) = 32 \<and> sealed (last l)"
proof (cases l rule: rev_cases)
  case (snoc m e)
  moreover assume "chained l"
  ultimately have "sealed e" "Sequence e = of_nat (length m + 1)" "length m + 1 < 2 ^ 63"
    unfolding snoc chained_snoc by blast+
  then show ?thesis using snoc by (simp add: sealed_def calculateRoot_def)
qed simp

lemma admitted_chained:
  assumes "chained l" "sealed e" "ledger_admits e l"
  shows "chained (l @ [e])"
proof -
  have seq: "Sequence e = of_nat (length l + 1)" "PreviousRoot e = (if l = [] then zero_root else Root (last l))"
  proof -
    have head: "case head_row l of None \<Rightarrow> Sequence e = 1 \<and> PreviousRoot e = zero_root
        | Some h \<Rightarrow> Sequence e = Sequence h + 1 \<and> PreviousRoot e = Root h"
      using assms(3) by (simp add: ledger_admits_def)
    show "Sequence e = of_nat (length l + 1)" "PreviousRoot e = (if l = [] then zero_root else Root (last l))"
      using head head_row_chained [OF assms(1)] chained_last [OF assms(1)] by (cases "l = []"; simp)+
  qed
  have len: "length l < 2 ^ 63" using chained_last [OF assms(1)] by (cases "l = []") simp_all
  have "unat (Sequence e) \<le> 2 ^ 63 - 1"
    using assms(3) by (simp add: ledger_admits_def max_sequence_def word_le_nat_alt)
  moreover have "unat (Sequence e) = length l + 1" unfolding seq(1) by (rule unat_u64) (use len in simp)
  ultimately have "length l + 1 < 2 ^ 63" by linarith
  then show ?thesis using assms seq by (simp add: chained_snoc ledger_admits_def)
qed

text \<open>The two ways an entry enters the ledger.\<close>

datatype ledger_command = LAppend Entry | LNext RecordKind bytes time

fun ledger_exec :: "ledger_command \<Rightarrow> ledger \<Rightarrow> ledger \<times> audit_error option" where
  "ledger_exec (LAppend entry) l = AppendAuditEntry entry l"
| "ledger_exec (LNext kind root at) l =
     (case append_next kind root at l of Inl err \<Rightarrow> (l, Some err) | Inr (_, l') \<Rightarrow> (l', None))"

lemma AppendAuditEntry_cases:
  assumes "chained l"
  obtains err where "AppendAuditEntry e l = (l, Some err)"
  | "AppendAuditEntry e l = (l @ [e], None)" "chained (l @ [e])" "sealed e"
proof (cases "AppendAuditEntry e l")
  case (Pair l' err)
  show thesis
  proof (cases err)
    case (Some x)
    then show thesis using Pair that(1)
      by (auto simp: AppendAuditEntry_def Let_def split: if_splits option.splits sum.splits audit_error.splits)
  next
    case None
    then have *: "entry_Validate e = None" "ledger_admits e l" "l' = l @ [e]"
      using Pair by (auto simp: AppendAuditEntry_def insertAuditEntry_def Let_def
          split: if_splits option.splits sum.splits audit_error.splits)
    then have sealed: "sealed e" by (simp add: entry_Validate_iff)
    show thesis
    proof (rule that(2))
      show "AppendAuditEntry e l = (l @ [e], None)" using Pair None *(3) by simp
      show "chained (l @ [e])" by (rule admitted_chained [OF assms sealed *(2)])
    qed (rule sealed)
  qed
qed

lemma append_next_ok:
  assumes "chained l" "append_next kind root at l = Ok (e, l')"
  shows "l' = l @ [e] \<and> chained l' \<and> sealed e \<and> Kind e = kind \<and> RecordRoot e = root \<and>
    Sequence e = of_nat (length l + 1)"
proof -
  have e: "nextAuditEntryLocked kind root at l = Ok e" "ledger_admits e l" "l' = l @ [e]"
    using assms(2) by (auto simp: append_next_def insertAuditEntry_def split: sum.splits if_splits)
  have "sealed e \<and> Kind e = kind \<and> RecordRoot e = root"
    using e(1) NewEntry_sealed
    by (auto simp: nextAuditEntryLocked_def split: sum.splits if_splits audit_error.splits)
  moreover from this have c: "chained (l @ [e])" using admitted_chained [OF assms(1) _ e(2)] by blast
  moreover have "Sequence e = of_nat (length l + 1)" using c unfolding chained_snoc by blast
  ultimately show ?thesis using e(3) by blast
qed

lemma ledger_exec_grows:
  assumes "chained l"
  shows "chained (fst (ledger_exec c l)) \<and> prefix l (fst (ledger_exec c l))"
proof (cases c)
  case (LAppend e)
  then show ?thesis by (cases rule: AppendAuditEntry_cases [OF assms, of e]) (simp_all add: assms)
next
  case (LNext kind root at)
  then show ?thesis using append_next_ok [OF assms, of kind root at] assms by (auto split: sum.split)
qed

interpretation ledger: ordered_machine ledger_exec chained prefix
  by unfold_locales (simp_all add: ledger_exec_grows)

section \<open>Tamper evidence\<close>

definition storable :: "ledger \<Rightarrow> bool" where
  "storable l \<longleftrightarrow> (\<forall>e\<in>set l. micro_range (en_OccurredAt e))"

definition collision_free :: "bytes set \<Rightarrow> bool" where
  "collision_free M \<longleftrightarrow> inj_on sha256 M"

lemma chained_rev_determined:
  assumes "chained_rev l" "chained_rev l'" "storable l" "storable l'"
    and "collision_free (preimage ` (set l \<union> set l'))"
    and "l \<noteq> []" "l' \<noteq> []" "Root (hd l) = Root (hd l')"
  shows "l = l'"
  using assms
proof (induction l arbitrary: l')
  case (Cons e l)
  from Cons.prems(7) obtain e' m' where l': "l' = e' # m'" by (cases l') auto
  have s: "sealed e" "sealed e'" "length (PreviousRoot e) = 32" "length (PreviousRoot e') = 32"
    "length (RecordRoot e) = 32" "length (RecordRoot e') = 32"
    "Sequence e = of_nat (length l + 1)" "Sequence e' = of_nat (length m' + 1)"
    "length l + 1 < 2 ^ 63" "length m' + 1 < 2 ^ 63" "chained_rev l" "chained_rev m'"
    "PreviousRoot e = (case l of [] \<Rightarrow> zero_root | h # _ \<Rightarrow> Root h)"
    "PreviousRoot e' = (case m' of [] \<Rightarrow> zero_root | h # _ \<Rightarrow> Root h)"
    using Cons.prems(1,2) unfolding l' chained_rev.simps by blast+
  have "sha256 (preimage e) = sha256 (preimage e')"
    using Cons.prems(8) s(1,2) l' by (simp add: sealed_def calculateRoot_def)
  moreover have "preimage e \<in> preimage ` (set (e # l) \<union> set l')" "preimage e' \<in> preimage ` (set (e # l) \<union> set l')"
    unfolding l' by simp_all
  ultimately have "preimage e = preimage e'"
    by (rule inj_onD [OF Cons.prems(5) [unfolded collision_free_def]])
  then have e: "e = e'"
    using preimage_inject [OF s(1,2) _ _ s(3-6)] Cons.prems(3,4) l' by (simp add: storable_def)
  from arg_cong [OF this, of "\<lambda>x. unat (Sequence x)"] have len: "length l = length m'"
    unfolding s(7,8) unat_small [OF s(9)] unat_small [OF s(10)] by simp
  from arg_cong [OF e, of PreviousRoot] have prev: "(case l of [] \<Rightarrow> zero_root | h # _ \<Rightarrow> Root h) =
      (case m' of [] \<Rightarrow> zero_root | h # _ \<Rightarrow> Root h)" unfolding s(13,14) .
  have "l = m'" if "l \<noteq> []"
  proof (rule Cons.IH)
    show ne: "m' \<noteq> []" using that len by auto
    show "Root (hd l) = Root (hd m')" using prev that ne by (cases l; cases m') simp_all
    show "collision_free (preimage ` (set l \<union> set m'))"
      using Cons.prems(5) unfolding l' collision_free_def by (rule inj_on_subset) auto
    show "storable l" "storable m'" using Cons.prems(3,4) unfolding l' storable_def by simp_all
  qed (fact s(11) s(12) that)+
  then show ?case using e l' len by (cases "l = []") simp_all
qed simp

end
