(* ===== verification/Responsibility.thy ===== *)
theory Responsibility
  imports Audit_Ledger
begin

text \<open>
  Responsibility for physical objects (\<open>src/responsibility\<close>): the aggregate and its transfer, the
  transfer's canonical root, the repository interface with its in-memory implementation, and the
  service. The repository interface is a locale; what the service guarantees is proved from its laws.

  Nil receivers and contexts are not modelled; the mutex of the in-memory repository makes each of its
  operations one step.
\<close>

section \<open>The aggregate\<close>

datatype responsibility_error =
    ErrObjectIDRequired
  | ErrParticipantIDRequired
  | ErrAssignmentTime
  | ErrInvalidSnapshot
  | ErrSameParticipant
  | ErrTransferTime
  | ErrTransferEventInvalid
  | ErrTransferAuditInvalid
  | ErrNotFound
  | ErrConcurrentModification
  | ErrInvalidVersionTransition
  | ErrInvalidTransferCommit
  | ErrTransferNotFound
  | ErrRepositoryRequired
  | ErrClaimLimitInvalid
  | ErrWorkerIDRequired
  | ErrLockDurationInvalid
  | ErrClaimTimeRequired
  | ErrPublicationTimeRequired
  | ErrDeliveryConflict
  | ErrAudit audit_error
  | ErrResponsibilityStatement
  | resp_Errorf responsibility_error string

text \<open>\<open>errors.Is\<close> looks through the wrapping of \<open>fmt.Errorf\<close>.\<close>

fun resp_Is :: "responsibility_error \<Rightarrow> responsibility_error \<Rightarrow> bool" where
  "resp_Is (resp_Errorf e s) target \<longleftrightarrow> resp_Errorf e s = target \<or> resp_Is e target"
| "resp_Is e target \<longleftrightarrow> e = target"

type_synonym PhysicalObjectID = string
type_synonym ParticipantID = string

definition NewPhysicalObjectID :: "string \<Rightarrow> responsibility_error + PhysicalObjectID" where
  "NewPhysicalObjectID value =
     (if TrimSpace value = [] then Err ErrObjectIDRequired else Ok (TrimSpace value))"

definition NewParticipantID :: "string \<Rightarrow> responsibility_error + ParticipantID" where
  "NewParticipantID value =
     (if TrimSpace value = [] then Err ErrParticipantIDRequired else Ok (TrimSpace value))"

record resp_Snapshot =
  rs_ObjectID :: PhysicalObjectID
  rs_ParticipantID :: ParticipantID
  rs_Version :: u64
  rs_AssignedAt :: time

record TransferredEvent =
  tr_ObjectID :: PhysicalObjectID
  tr_FromParticipantID :: ParticipantID
  tr_ToParticipantID :: ParticipantID
  tr_TransferredAt :: time
  tr_Version :: u64

definition validateObjectID :: "PhysicalObjectID \<Rightarrow> responsibility_error option" where
  "validateObjectID i =
     (if i = [] \<or> i \<noteq> TrimSpace i then Some (resp_Errorf ErrObjectIDRequired i) else None)"

definition validateParticipantID :: "ParticipantID \<Rightarrow> responsibility_error option" where
  "validateParticipantID i =
     (if i = [] \<or> i \<noteq> TrimSpace i then Some (resp_Errorf ErrParticipantIDRequired i) else None)"

definition validateSnapshot :: "resp_Snapshot \<Rightarrow> responsibility_error option" where
  "validateSnapshot s =
     (if rs_Version s = 0 then Some ErrInvalidSnapshot
      else case validateObjectID (rs_ObjectID s) of
        Some err \<Rightarrow> Some err
      | None \<Rightarrow> (case validateParticipantID (rs_ParticipantID s) of
          Some err \<Rightarrow> Some err
        | None \<Rightarrow> if IsZero (rs_AssignedAt s) then Some ErrAssignmentTime else None))"

definition validateTransferredEvent :: "TransferredEvent \<Rightarrow> responsibility_error option" where
  "validateTransferredEvent ev =
     (if tr_Version ev < 2 \<or> tr_FromParticipantID ev = tr_ToParticipantID ev \<or> IsZero (tr_TransferredAt ev)
      then Some ErrTransferEventInvalid
      else if validateObjectID (tr_ObjectID ev) \<noteq> None then Some ErrTransferEventInvalid
      else if validateParticipantID (tr_FromParticipantID ev) \<noteq> None then Some ErrTransferEventInvalid
      else if validateParticipantID (tr_ToParticipantID ev) \<noteq> None then Some ErrTransferEventInvalid
      else None)"

definition transferRootDomain :: string where
  "transferRootDomain = ''cargoos:responsibility-transfer:v1''"

text \<open>\<open>writeRootString\<close> is \<^const>\<open>sized\<close>.\<close>

definition transfer_preimage :: "TransferredEvent \<Rightarrow> bytes" where
  "transfer_preimage ev = bytes_of transferRootDomain @ sized (tr_ObjectID ev) @
     sized (tr_FromParticipantID ev) @ sized (tr_ToParticipantID ev) @
     PutUint64 (tr_Version ev) @ PutUint64 (UnixMicro (tr_TransferredAt ev))"

definition TransferredEventRoot :: "TransferredEvent \<Rightarrow> responsibility_error + bytes" where
  "TransferredEventRoot ev =
     (case validateTransferredEvent ev of
        Some err \<Rightarrow> Err err
      | None \<Rightarrow> Ok (sha256 (transfer_preimage ev)))"

record resp_Aggregate =
  ra_objectID :: PhysicalObjectID
  ra_participantID :: ParticipantID
  ra_version :: u64
  ra_assignedAt :: time
  ra_pendingEvent :: "TransferredEvent option"

definition resp_New ::
  "PhysicalObjectID \<Rightarrow> ParticipantID \<Rightarrow> time \<Rightarrow> responsibility_error + resp_Aggregate" where
  "resp_New objectID participantID assignedAt =
     (let s = \<lparr>rs_ObjectID = objectID, rs_ParticipantID = participantID, rs_Version = 1,
               rs_AssignedAt = UTC assignedAt\<rparr>
      in case validateSnapshot s of
           Some err \<Rightarrow> Err err
         | None \<Rightarrow> Ok \<lparr>ra_objectID = rs_ObjectID s, ra_participantID = rs_ParticipantID s,
             ra_version = rs_Version s, ra_assignedAt = rs_AssignedAt s, ra_pendingEvent = None\<rparr>)"

definition resp_Rehydrate :: "resp_Snapshot \<Rightarrow> responsibility_error + resp_Aggregate" where
  "resp_Rehydrate s =
     (let s = s\<lparr>rs_AssignedAt := UTC (rs_AssignedAt s)\<rparr>
      in case validateSnapshot s of
           Some err \<Rightarrow> Err err
         | None \<Rightarrow> Ok \<lparr>ra_objectID = rs_ObjectID s, ra_participantID = rs_ParticipantID s,
             ra_version = rs_Version s, ra_assignedAt = rs_AssignedAt s, ra_pendingEvent = None\<rparr>)"

definition agg_Transfer ::
  "ParticipantID \<Rightarrow> time \<Rightarrow> resp_Aggregate \<Rightarrow> resp_Aggregate \<times> responsibility_error option" where
  "agg_Transfer to transferredAt a =
     (case validateParticipantID to of
        Some err \<Rightarrow> (a, Some err)
      | None \<Rightarrow>
          if to = ra_participantID a then (a, Some ErrSameParticipant)
          else let transferredAt = UTC transferredAt in
            if IsZero transferredAt \<or> \<not> After transferredAt (ra_assignedAt a) then (a, Some ErrTransferTime)
            else let nextVersion = ra_version a + 1;
                     ev = \<lparr>tr_ObjectID = ra_objectID a, tr_FromParticipantID = ra_participantID a,
                           tr_ToParticipantID = to, tr_TransferredAt = transferredAt,
                           tr_Version = nextVersion\<rparr>
                 in (a\<lparr>ra_participantID := to, ra_assignedAt := transferredAt, ra_version := nextVersion,
                       ra_pendingEvent := Some ev\<rparr>, None))"

definition agg_Snapshot :: "resp_Aggregate \<Rightarrow> resp_Snapshot" where
  "agg_Snapshot a = \<lparr>rs_ObjectID = ra_objectID a, rs_ParticipantID = ra_participantID a,
     rs_Version = ra_version a, rs_AssignedAt = ra_assignedAt a\<rparr>"

definition PendingTransfer :: "resp_Aggregate \<Rightarrow> TransferredEvent option" where
  "PendingTransfer a = ra_pendingEvent a"

definition PendingEvents :: "resp_Aggregate \<Rightarrow> TransferredEvent list" where
  "PendingEvents a = (case ra_pendingEvent a of None \<Rightarrow> [] | Some ev \<Rightarrow> [ev])"

definition ClearPendingEvents :: "resp_Aggregate \<Rightarrow> resp_Aggregate" where
  "ClearPendingEvents a = a\<lparr>ra_pendingEvent := None\<rparr>"

section \<open>The repository\<close>

record MemoryRepository =
  snapshots :: "PhysicalObjectID \<rightharpoonup> resp_Snapshot"
  transfers :: "PhysicalObjectID \<times> u64 \<rightharpoonup> TransferredEvent"

definition NewMemoryRepository :: MemoryRepository where
  "NewMemoryRepository = \<lparr>snapshots = Map.empty, transfers = Map.empty\<rparr>"

definition normalizedSnapshot :: "resp_Snapshot \<Rightarrow> u64 \<Rightarrow> responsibility_error + resp_Snapshot" where
  "normalizedSnapshot s expectedVersion =
     (case resp_Rehydrate s of
        Inl err \<Rightarrow> Err err
      | Inr a \<Rightarrow>
          if expectedVersion = - 1 \<or> ra_version a \<noteq> expectedVersion + 1 then Err ErrInvalidVersionTransition
          else Ok (agg_Snapshot a))"

definition ValidateTransferCommit ::
  "resp_Snapshot \<Rightarrow> u64 \<Rightarrow> TransferredEvent \<Rightarrow> responsibility_error + resp_Snapshot" where
  "ValidateTransferCommit s expectedVersion ev =
     (case normalizedSnapshot s expectedVersion of
        Inl err \<Rightarrow> Err err
      | Inr normalized \<Rightarrow>
          if expectedVersion = 0 \<or> tr_ObjectID ev \<noteq> rs_ObjectID normalized \<or>
             tr_FromParticipantID ev = tr_ToParticipantID ev \<or>
             tr_ToParticipantID ev \<noteq> rs_ParticipantID normalized \<or>
             tr_Version ev \<noteq> rs_Version normalized \<or>
             \<not> time_Equal (tr_TransferredAt ev) (rs_AssignedAt normalized)
          then Err ErrInvalidTransferCommit
          else if validateTransferredEvent ev \<noteq> None then Err ErrInvalidTransferCommit
          else Ok normalized)"

definition mem_CommitTransfer ::
  "resp_Snapshot \<Rightarrow> u64 \<Rightarrow> TransferredEvent \<Rightarrow> MemoryRepository \<Rightarrow>
   MemoryRepository \<times> responsibility_error option" where
  "mem_CommitTransfer s expectedVersion ev m =
     (case ValidateTransferCommit s expectedVersion ev of
        Inl err \<Rightarrow> (m, Some err)
      | Inr normalized \<Rightarrow>
          (case snapshots m (rs_ObjectID normalized) of
             None \<Rightarrow> (m, Some ErrConcurrentModification)
           | Some current \<Rightarrow>
               if rs_Version current \<noteq> expectedVersion \<or>
                  rs_ParticipantID current \<noteq> tr_FromParticipantID ev \<or>
                  \<not> After (rs_AssignedAt normalized) (rs_AssignedAt current)
               then (m, Some ErrConcurrentModification)
               else let key = (rs_ObjectID normalized, rs_Version normalized) in
                 if transfers m key \<noteq> None then (m, Some ErrConcurrentModification)
                 else (m\<lparr>snapshots := (snapshots m)(rs_ObjectID normalized \<mapsto> normalized),
                         transfers := (transfers m)(key \<mapsto> ev\<lparr>tr_TransferredAt := rs_AssignedAt normalized\<rparr>)\<rparr>,
                       None)))"

definition mem_FindTransfer ::
  "PhysicalObjectID \<Rightarrow> u64 \<Rightarrow> MemoryRepository \<Rightarrow> responsibility_error + TransferredEvent" where
  "mem_FindTransfer objectID v m =
     (case validateObjectID objectID of
        Some err \<Rightarrow> Err err
      | None \<Rightarrow> (case transfers m (objectID, v) of None \<Rightarrow> Err ErrTransferNotFound | Some ev \<Rightarrow> Ok ev))"

definition mem_SaveResponsibility ::
  "resp_Snapshot \<Rightarrow> u64 \<Rightarrow> MemoryRepository \<Rightarrow> MemoryRepository \<times> responsibility_error option" where
  "mem_SaveResponsibility s expectedVersion m =
     (case normalizedSnapshot s expectedVersion of
        Inl err \<Rightarrow> (m, Some err)
      | Inr normalized \<Rightarrow>
          let current = snapshots m (rs_ObjectID normalized);
              conflict = (if expectedVersion = 0 then current \<noteq> None
                else case current of
                  None \<Rightarrow> True
                | Some c \<Rightarrow> rs_Version c \<noteq> expectedVersion \<or>
                    rs_ParticipantID c = rs_ParticipantID normalized \<or>
                    \<not> After (rs_AssignedAt normalized) (rs_AssignedAt c))
          in if conflict then (m, Some ErrConcurrentModification)
             else (m\<lparr>snapshots := (snapshots m)(rs_ObjectID normalized \<mapsto> normalized)\<rparr>, None))"

definition mem_FindResponsibility ::
  "PhysicalObjectID \<Rightarrow> MemoryRepository \<Rightarrow> responsibility_error + resp_Aggregate" where
  "mem_FindResponsibility objectID m =
     (case validateObjectID objectID of
        Some err \<Rightarrow> Err err
      | None \<Rightarrow> (case snapshots m objectID of None \<Rightarrow> Err ErrNotFound | Some s \<Rightarrow> resp_Rehydrate s))"

section \<open>The service\<close>

text \<open>The operations of the interface \<open>Repository\<close> on a repository state \<open>'s\<close>.\<close>

record 's resp_repo =
  repo_SaveResponsibility :: "resp_Snapshot \<Rightarrow> u64 \<Rightarrow> 's \<Rightarrow> 's \<times> responsibility_error option"
  repo_FindResponsibility :: "PhysicalObjectID \<Rightarrow> 's \<Rightarrow> responsibility_error + resp_Aggregate"
  repo_CommitTransfer ::
    "resp_Snapshot \<Rightarrow> u64 \<Rightarrow> TransferredEvent \<Rightarrow> 's \<Rightarrow> 's \<times> responsibility_error option"
  repo_FindTransfer :: "PhysicalObjectID \<Rightarrow> u64 \<Rightarrow> 's \<Rightarrow> responsibility_error + TransferredEvent"

definition memory_repo :: "MemoryRepository resp_repo" where
  "memory_repo = \<lparr>repo_SaveResponsibility = mem_SaveResponsibility,
     repo_FindResponsibility = mem_FindResponsibility, repo_CommitTransfer = mem_CommitTransfer,
     repo_FindTransfer = mem_FindTransfer\<rparr>"

definition transferLoaded ::
  "'s resp_repo \<Rightarrow> resp_Aggregate \<Rightarrow> ParticipantID \<Rightarrow> time \<Rightarrow> 's \<Rightarrow>
   's \<times> (responsibility_error + resp_Snapshot)" where
  "transferLoaded repo a to transferredAt s =
     (let expectedVersion = rs_Version (agg_Snapshot a) in
      case agg_Transfer to transferredAt a of
        (a', Some err) \<Rightarrow> (s, Err err)
      | (a', None) \<Rightarrow>
          (case PendingTransfer a' of
             None \<Rightarrow> (s, Err ErrInvalidTransferCommit)
           | Some ev \<Rightarrow>
               (case repo_CommitTransfer repo (agg_Snapshot a') expectedVersion ev s of
                  (s', Some err) \<Rightarrow> (s', Err err)
                | (s', None) \<Rightarrow> (s', Ok (agg_Snapshot a')))))"

definition service_Transfer ::
  "'s resp_repo \<Rightarrow> PhysicalObjectID \<Rightarrow> ParticipantID \<Rightarrow> time \<Rightarrow> 's \<Rightarrow>
   's \<times> (responsibility_error + resp_Snapshot)" where
  "service_Transfer repo objectID to transferredAt s =
     (case repo_FindResponsibility repo objectID s of
        Inl err \<Rightarrow> (s, Err err)
      | Inr a \<Rightarrow> transferLoaded repo a to transferredAt s)"

definition TransferExpected ::
  "'s resp_repo \<Rightarrow> resp_Snapshot \<Rightarrow> ParticipantID \<Rightarrow> time \<Rightarrow> 's \<Rightarrow>
   's \<times> (responsibility_error + resp_Snapshot)" where
  "TransferExpected repo expected to transferredAt s =
     (case resp_Rehydrate expected of
        Inl err \<Rightarrow> (s, Err err)
      | Inr validated \<Rightarrow>
          let expected = agg_Snapshot validated in
          (case repo_FindResponsibility repo (rs_ObjectID expected) s of
             Inl err \<Rightarrow> (s, Err err)
           | Inr a \<Rightarrow>
               if agg_Snapshot a \<noteq> expected then (s, Err ErrConcurrentModification)
               else transferLoaded repo a to transferredAt s))"

section \<open>Validation\<close>

lemma resp_Rehydrate_iff:
  "resp_Rehydrate s = Ok a \<longleftrightarrow> validateSnapshot (s\<lparr>rs_AssignedAt := UTC (rs_AssignedAt s)\<rparr>) = None \<and>
     a = \<lparr>ra_objectID = rs_ObjectID s, ra_participantID = rs_ParticipantID s, ra_version = rs_Version s,
          ra_assignedAt = UTC (rs_AssignedAt s), ra_pendingEvent = None\<rparr>"
  by (auto simp: resp_Rehydrate_def Let_def split: option.split)

lemma normalizedSnapshot_Ok:
  assumes "normalizedSnapshot s v = Ok n"
  shows "n = s\<lparr>rs_AssignedAt := UTC (rs_AssignedAt s)\<rparr> \<and> rs_Version n = v + 1 \<and> v \<noteq> - 1 \<and>
    validateSnapshot n = None"
  using assms by (cases s) (auto simp: normalizedSnapshot_def resp_Rehydrate_iff agg_Snapshot_def
      split: sum.splits if_splits)

lemma ValidateTransferCommit_Ok:
  assumes "ValidateTransferCommit s v ev = Ok n"
  shows "normalizedSnapshot s v = Ok n \<and> v \<noteq> 0 \<and> tr_ObjectID ev = rs_ObjectID n \<and>
    tr_ToParticipantID ev = rs_ParticipantID n \<and> tr_Version ev = rs_Version n \<and>
    instant (tr_TransferredAt ev) = instant (rs_AssignedAt n) \<and> validateTransferredEvent ev = None"
  using assms by (auto simp: ValidateTransferCommit_def time_Equal_def split: sum.splits if_splits)

text \<open>A transfer the aggregate accepts is one the repository's validation accepts, short of overflow.\<close>

lemma agg_Transfer_Ok:
  assumes "agg_Transfer to at a = (a', None)" "resp_Rehydrate (agg_Snapshot a) = Ok a"
  shows "\<exists>ev. PendingTransfer a' = Some ev \<and> tr_ObjectID ev = ra_objectID a \<and>
    tr_FromParticipantID ev = ra_participantID a \<and> tr_ToParticipantID ev = to \<and>
    tr_TransferredAt ev = UTC at \<and> tr_Version ev = ra_version a + 1 \<and>
    agg_Snapshot a' = \<lparr>rs_ObjectID = ra_objectID a, rs_ParticipantID = to, rs_Version = ra_version a + 1,
      rs_AssignedAt = UTC at\<rparr> \<and> After at (ra_assignedAt a) \<and> to \<noteq> ra_participantID a \<and>
    (ra_version a \<noteq> - 1 \<longrightarrow> ValidateTransferCommit (agg_Snapshot a') (ra_version a) ev = Ok (agg_Snapshot a'))"
proof -
  have a: "validateObjectID (ra_objectID a) = None" "validateParticipantID (ra_participantID a) = None"
    "ra_version a \<noteq> 0"
    using assms(2) unfolding resp_Rehydrate_iff
    by (auto simp: agg_Snapshot_def validateSnapshot_def split: if_splits option.splits)
  have to: "validateParticipantID to = None" "to \<noteq> ra_participantID a" "\<not> IsZero at"
    "After at (ra_assignedAt a)"
    and a': "a' = a\<lparr>ra_participantID := to, ra_assignedAt := UTC at, ra_version := ra_version a + 1,
        ra_pendingEvent := Some \<lparr>tr_ObjectID = ra_objectID a, tr_FromParticipantID = ra_participantID a,
          tr_ToParticipantID = to, tr_TransferredAt = UTC at, tr_Version = ra_version a + 1\<rparr>\<rparr>"
    using assms(1) by (auto simp: agg_Transfer_def Let_def split: option.splits if_splits)
  have v: "ra_version a + 1 \<noteq> 0 \<and> 2 \<le> ra_version a + 1" if "ra_version a \<noteq> - 1"
  proof -
    have nz: "1 + ra_version a \<noteq> 0" using that by (metis add.commute eq_neg_iff_add_eq_0)
    then have "unat (1 + ra_version a) = Suc (unat (ra_version a))" by (rule unatSuc)
    moreover have "0 < unat (ra_version a)" using a(3) by (simp add: unat_gt_0)
    ultimately show ?thesis using nz by (simp add: word_le_nat_alt add.commute)
  qed
  show ?thesis
    using a to a' v
    by (auto simp: PendingTransfer_def agg_Snapshot_def ValidateTransferCommit_def normalizedSnapshot_def
        resp_Rehydrate_def validateSnapshot_def validateTransferredEvent_def time_Equal_def not_le [symmetric])
qed

section \<open>The repository contract\<close>

text \<open>
  Custody of one object: its handover events are exactly those of the versions 2 up to the current
  one, each hands over what the previous one received, later than it, and the last one made the current participant
  responsible.
\<close>

definition custody :: "resp_Snapshot option \<Rightarrow> (u64 \<rightharpoonup> TransferredEvent) \<Rightarrow> bool" where
  "custody cur ev \<longleftrightarrow> (case cur of
     None \<Rightarrow> ev = Map.empty
   | Some s \<Rightarrow> rs_Version s \<noteq> 0 \<and> (\<forall>v. ev v \<noteq> None \<longleftrightarrow> 2 \<le> v \<and> v \<le> rs_Version s) \<and>
       (\<forall>v e. ev v = Some e \<longrightarrow> tr_ObjectID e = rs_ObjectID s \<and> tr_Version e = v \<and>
          tr_FromParticipantID e \<noteq> tr_ToParticipantID e) \<and>
       (\<forall>v e e'. ev v = Some e \<and> ev (v + 1) = Some e' \<longrightarrow>
          tr_FromParticipantID e' = tr_ToParticipantID e \<and> After (tr_TransferredAt e') (tr_TransferredAt e)) \<and>
       (\<forall>e. ev (rs_Version s) = Some e \<longrightarrow>
          tr_ToParticipantID e = rs_ParticipantID s \<and> tr_TransferredAt e = rs_AssignedAt s))"

lemma u64_succ:
  fixes x :: u64
  assumes "x + 1 \<noteq> 0"
  shows "v \<le> x + 1 \<longleftrightarrow> v \<le> x \<or> v = x + 1" "\<not> x + 1 \<le> x" "x \<le> x + 1"
proof -
  have s: "unat (x + 1) = Suc (unat x)" using unatSuc [of x] assms by (simp add: add.commute)
  show "v \<le> x + 1 \<longleftrightarrow> v \<le> x \<or> v = x + 1"
    by (simp add: word_le_nat_alt s le_Suc_eq word_unat_eq_iff)
  show "\<not> x + 1 \<le> x" "x \<le> x + 1" by (simp_all add: word_le_nat_alt s)
qed

lemma u64_between:
  fixes v :: u64
  assumes "2 \<le> v" "v < n"
  shows "2 \<le> v + 1 \<and> v + 1 \<le> n"
proof -
  have "v + 1 \<noteq> 0" using assms(2) by (metis add.commute add_eq_0_iff2 word_not_simps(3) eq_neg_iff_add_eq_0)
  then have "unat (v + 1) = Suc (unat v)" using unatSuc [of v] by (simp add: add.commute)
  then show ?thesis using assms by (simp add: word_le_nat_alt word_less_nat_alt)
qed

lemma custody_extend:
  assumes c: "custody (Some s) ev" and n: "rs_Version n = rs_Version s + 1" "rs_Version n \<noteq> 0" "2 \<le> rs_Version n"
    and obj: "rs_ObjectID n = rs_ObjectID s" "tr_ObjectID e = rs_ObjectID s" "tr_Version e = rs_Version n"
    and e: "tr_FromParticipantID e \<noteq> tr_ToParticipantID e" "tr_FromParticipantID e = rs_ParticipantID s"
      "tr_ToParticipantID e = rs_ParticipantID n" "tr_TransferredAt e = rs_AssignedAt n"
    and later: "After (rs_AssignedAt n) (rs_AssignedAt s)"
  shows "custody (Some n) (ev(rs_Version n \<mapsto> e))"
proof -
  let ?ev = "ev(rs_Version n \<mapsto> e)"
  have nz: "rs_Version s + 1 \<noteq> 0" using n by simp
  have dom: "ev v \<noteq> None \<longleftrightarrow> 2 \<le> v \<and> v \<le> rs_Version s" for v using c by (simp add: custody_def)
  have dom': "?ev v \<noteq> None \<longleftrightarrow> 2 \<le> v \<and> v \<le> rs_Version n" for v
    using dom [of v] n u64_succ(1) [OF nz, of v] by auto
  have event: "tr_ObjectID x = rs_ObjectID n \<and> tr_Version x = v \<and> tr_FromParticipantID x \<noteq> tr_ToParticipantID x"
    if "?ev v = Some x" for v x
    using that c obj e(1) by (auto simp: custody_def split: if_splits)
  have link: "tr_FromParticipantID x' = tr_ToParticipantID x \<and> After (tr_TransferredAt x') (tr_TransferredAt x)"
    if x: "?ev v = Some x" "?ev (v + 1) = Some x'" for v x x'
  proof (cases "v + 1 = rs_Version n")
    case True
    then have v: "v = rs_Version s" using n(1) by simp
    then have "ev (rs_Version s) = Some x" using x(1) n(1) by (simp split: if_splits)
    then show ?thesis using c e x(2) True later by (simp add: custody_def)
  next
    case False
    then have "ev (v + 1) = Some x'" using x(2) by simp
    moreover have "v \<noteq> rs_Version n"
    proof
      assume v: "v = rs_Version n"
      have "v + 1 \<le> rs_Version s" "v + 1 \<noteq> 0" using dom [of "v + 1"] calculation by auto
      moreover have "rs_Version s \<le> v" using u64_succ(3) [OF nz] v n(1) by simp
      ultimately show False using u64_succ(2) [of v] by (meson order_trans)
    qed
    ultimately show ?thesis using c x(1) by (simp add: custody_def)
  qed
  have "tr_ToParticipantID x = rs_ParticipantID n \<and> tr_TransferredAt x = rs_AssignedAt n"
    if "?ev (rs_Version n) = Some x" for x using that e(3,4) by simp
  with n(2) dom' event link show ?thesis unfolding custody_def option.case by blast
qed

lemma custody_new:
  assumes "rs_Version n = 1"
  shows "custody (Some n) Map.empty"
proof -
  have "\<not> (2 \<le> v \<and> v \<le> (1 :: u64))" for v by (auto simp: word_le_nat_alt)
  then show ?thesis using assms by (auto simp: custody_def)
qed

text \<open>The ways responsibility changes: an initial assignment and the two transfers of the service.\<close>

datatype custody_command =
    CAssign resp_Snapshot
  | CTransfer PhysicalObjectID ParticipantID time
  | CTransferExpected resp_Snapshot ParticipantID time

definition only_error :: "'s \<times> ('e + 'a) \<Rightarrow> 's \<times> 'e option" where
  "only_error res = (fst res, case snd res of Inl err \<Rightarrow> Some err | Inr _ \<Rightarrow> None)"

fun custody_exec :: "'s resp_repo \<Rightarrow> custody_command \<Rightarrow> 's \<Rightarrow> 's \<times> responsibility_error option" where
  "custody_exec repo (CAssign n) s = repo_SaveResponsibility repo n 0 s"
| "custody_exec repo (CTransfer i to at) s = only_error (service_Transfer repo i to at s)"
| "custody_exec repo (CTransferExpected n to at) s = only_error (TransferExpected repo n to at s)"

locale responsibility_repository =
  fixes repo :: "'s resp_repo"
    and current :: "'s \<Rightarrow> PhysicalObjectID \<rightharpoonup> resp_Snapshot"
    and handovers :: "'s \<Rightarrow> PhysicalObjectID \<Rightarrow> u64 \<rightharpoonup> TransferredEvent"
    and consistent :: "'s \<Rightarrow> bool"
    and stamp :: "time \<Rightarrow> time"
  assumes find_ok: "consistent s \<Longrightarrow> repo_FindResponsibility repo i s = Ok a \<Longrightarrow>
      current s i = Some (agg_Snapshot a) \<and> resp_Rehydrate (agg_Snapshot a) = Ok a"
    and keyed: "consistent s \<Longrightarrow> current s i = Some n \<Longrightarrow> rs_ObjectID n = i"
    and commit_ok: "consistent s \<Longrightarrow> repo_CommitTransfer repo n v e s = (s', None) \<Longrightarrow>
      consistent s' \<and> (\<exists>n' cur. ValidateTransferCommit n v e = Ok n' \<and>
        current s (rs_ObjectID n') = Some cur \<and> rs_Version cur = v \<and>
        rs_ParticipantID cur = tr_FromParticipantID e \<and> After (stamp (rs_AssignedAt n')) (rs_AssignedAt cur) \<and>
        current s' = (current s)(rs_ObjectID n' \<mapsto> n'\<lparr>rs_AssignedAt := stamp (rs_AssignedAt n')\<rparr>) \<and>
        handovers s' = (handovers s)(rs_ObjectID n' :=
          (handovers s (rs_ObjectID n'))(rs_Version n' \<mapsto> e\<lparr>tr_TransferredAt := stamp (rs_AssignedAt n')\<rparr>)))"
    and commit_error: "consistent s \<Longrightarrow> repo_CommitTransfer repo n v e s = (s', Some err) \<Longrightarrow> s' = s"
    and save_ok: "consistent s \<Longrightarrow> repo_SaveResponsibility repo n 0 s = (s', None) \<Longrightarrow>
      consistent s' \<and> (\<exists>n'. normalizedSnapshot n 0 = Ok n' \<and> current s (rs_ObjectID n') = None \<and>
        current s' = (current s)(rs_ObjectID n' \<mapsto> n'\<lparr>rs_AssignedAt := stamp (rs_AssignedAt n')\<rparr>) \<and>
        handovers s' = handovers s)"
    and save_error: "consistent s \<Longrightarrow> repo_SaveResponsibility repo n v s = (s', Some err) \<Longrightarrow> s' = s"
begin

definition all_custody where
  "all_custody s \<longleftrightarrow> consistent s \<and> (\<forall>i. custody (current s i) (handovers s i))"

lemma commit_custody:
  assumes "all_custody s" "repo_CommitTransfer repo n v e s = (s', None)"
  shows "all_custody s'"
proof -
  from assms(1) have s: "consistent s" and cust: "\<And>i. custody (current s i) (handovers s i)"
    by (simp_all add: all_custody_def)
  from commit_ok [OF s assms(2)] obtain n' cur where
    s': "consistent s'" and V: "ValidateTransferCommit n v e = Ok n'"
    and cur: "current s (rs_ObjectID n') = Some cur" "rs_Version cur = v"
      "rs_ParticipantID cur = tr_FromParticipantID e" "After (stamp (rs_AssignedAt n')) (rs_AssignedAt cur)"
    and upd: "current s' = (current s)(rs_ObjectID n' \<mapsto> n'\<lparr>rs_AssignedAt := stamp (rs_AssignedAt n')\<rparr>)"
      "handovers s' = (handovers s)(rs_ObjectID n' :=
          (handovers s (rs_ObjectID n'))(rs_Version n' \<mapsto> e\<lparr>tr_TransferredAt := stamp (rs_AssignedAt n')\<rparr>))"
    by blast
  note val = ValidateTransferCommit_Ok [OF V]
  have norm: "rs_Version n' = v + 1" "rs_Version n' \<noteq> 0"
    using val normalizedSnapshot_Ok [of n v n'] by (auto simp: validateSnapshot_def split: if_splits)
  have ev: "tr_FromParticipantID e \<noteq> tr_ToParticipantID e" "2 \<le> tr_Version e"
    using val by (auto simp: validateTransferredEvent_def split: if_splits)
  have "custody (current s' i) (handovers s' i)" for i
  proof (cases "i = rs_ObjectID n'")
    case True
    have "custody (Some cur) (handovers s i)" using cust [of i] cur(1) True by simp
    from custody_extend [OF this, of "n'\<lparr>rs_AssignedAt := stamp (rs_AssignedAt n')\<rparr>"
        "e\<lparr>tr_TransferredAt := stamp (rs_AssignedAt n')\<rparr>"] show ?thesis
      using True upd norm val ev cur keyed [OF s cur(1)] by simp
  next
    case False
    then show ?thesis using upd cust [of i] by simp
  qed
  then show ?thesis using s' by (simp add: all_custody_def)
qed

lemma assign_custody:
  assumes "all_custody s" "repo_SaveResponsibility repo n 0 s = (s', None)"
  shows "all_custody s'"
proof -
  from assms(1) have s: "consistent s" and cust: "\<And>i. custody (current s i) (handovers s i)"
    by (simp_all add: all_custody_def)
  from save_ok [OF s assms(2)] obtain n' where
    s': "consistent s'" and n': "normalizedSnapshot n 0 = Ok n'" "current s (rs_ObjectID n') = None"
    and upd: "current s' = (current s)(rs_ObjectID n' \<mapsto> n'\<lparr>rs_AssignedAt := stamp (rs_AssignedAt n')\<rparr>)"
      "handovers s' = handovers s" by blast
  have "rs_Version n' = 0 + 1" using normalizedSnapshot_Ok [OF n'(1)] by blast
  then have "custody (current s' i) (handovers s' i)" for i
    using upd cust [of i] n'(2) by (cases "i = rs_ObjectID n'") (simp_all add: custody_new custody_def [of None])
  then show ?thesis using s' by (simp add: all_custody_def)
qed

text \<open>What the service does with a loaded aggregate.\<close>

lemma transferLoaded_error:
  assumes "consistent s" "transferLoaded repo a to at s = (s', Err err)"
  shows "s' = s"
  using assms commit_error [OF assms(1)]
  by (auto simp: transferLoaded_def Let_def split: prod.splits option.splits)

lemma transferLoaded_commit:
  assumes "transferLoaded repo a to at s = (s', Ok n)"
  shows "\<exists>a' ev. agg_Transfer to at a = (a', None) \<and> PendingTransfer a' = Some ev \<and> n = agg_Snapshot a' \<and>
    repo_CommitTransfer repo n (ra_version a) ev s = (s', None)"
  using assms by (auto simp: transferLoaded_def Let_def agg_Snapshot_def [of a] split: prod.splits option.splits)

lemma transferLoaded_Ok:
  assumes s: "consistent s" and res: "transferLoaded repo a to at s = (s', Ok n)"
    and a: "resp_Rehydrate (agg_Snapshot a) = Ok a" "current s (ra_objectID a) = Some (agg_Snapshot a)"
  shows "consistent s' \<and> n = \<lparr>rs_ObjectID = ra_objectID a, rs_ParticipantID = to, rs_Version = ra_version a + 1,
      rs_AssignedAt = UTC at\<rparr> \<and>
    current s' = (current s)(ra_objectID a \<mapsto> n\<lparr>rs_AssignedAt := stamp (UTC at)\<rparr>) \<and>
    handovers s' (ra_objectID a) (ra_version a + 1) = Some
      \<lparr>tr_ObjectID = ra_objectID a, tr_FromParticipantID = ra_participantID a, tr_ToParticipantID = to,
       tr_TransferredAt = stamp (UTC at), tr_Version = ra_version a + 1\<rparr>"
proof -
  obtain a' ev where tr: "agg_Transfer to at a = (a', None)" "PendingTransfer a' = Some ev" "n = agg_Snapshot a'"
    and com: "repo_CommitTransfer repo n (ra_version a) ev s = (s', None)"
    using transferLoaded_commit [OF res] by blast
  from commit_ok [OF s com] obtain n' where s': "consistent s'"
    and V: "ValidateTransferCommit n (ra_version a) ev = Ok n'"
    and upd: "current s' = (current s)(rs_ObjectID n' \<mapsto> n'\<lparr>rs_AssignedAt := stamp (rs_AssignedAt n')\<rparr>)"
      "handovers s' = (handovers s)(rs_ObjectID n' :=
          (handovers s (rs_ObjectID n'))(rs_Version n' \<mapsto> ev\<lparr>tr_TransferredAt := stamp (rs_AssignedAt n')\<rparr>))"
    by blast
  note Tr = agg_Transfer_Ok [OF tr(1) a(1)]
  then have ev: "tr_ObjectID ev = ra_objectID a" "tr_FromParticipantID ev = ra_participantID a"
    "tr_ToParticipantID ev = to" "tr_TransferredAt ev = UTC at" "tr_Version ev = ra_version a + 1"
    and n: "n = \<lparr>rs_ObjectID = ra_objectID a, rs_ParticipantID = to, rs_Version = ra_version a + 1,
      rs_AssignedAt = UTC at\<rparr>" using tr(2,3) by auto
  have "n' = n" using normalizedSnapshot_Ok [of n "ra_version a" n'] ValidateTransferCommit_Ok [OF V] n by simp
  then show ?thesis using s' upd n ev by (cases ev) simp
qed

lemma find_object: "consistent s \<Longrightarrow> repo_FindResponsibility repo i s = Ok a \<Longrightarrow> ra_objectID a = i"
  using find_ok [of s i a] keyed [of s i "agg_Snapshot a"] by (simp add: agg_Snapshot_def)

lemma service_Transfer_spec:
  assumes s: "consistent s" and res: "service_Transfer repo i to at s = (s', r)"
  shows "case r of
      Inl err \<Rightarrow> s' = s
    | Inr n \<Rightarrow> (\<exists>cur. current s i = Some cur \<and> consistent s' \<and>
        n = \<lparr>rs_ObjectID = i, rs_ParticipantID = to, rs_Version = rs_Version cur + 1, rs_AssignedAt = UTC at\<rparr> \<and>
        current s' = (current s)(i \<mapsto> n\<lparr>rs_AssignedAt := stamp (UTC at)\<rparr>) \<and>
        handovers s' i (rs_Version n) = Some \<lparr>tr_ObjectID = i, tr_FromParticipantID = rs_ParticipantID cur,
          tr_ToParticipantID = to, tr_TransferredAt = stamp (UTC at), tr_Version = rs_Version n\<rparr>)"
proof (cases "repo_FindResponsibility repo i s")
  case (Inl err)
  then show ?thesis using res by (auto simp: service_Transfer_def)
next
  case (Inr a)
  note a = find_ok [OF s Inr] find_object [OF s Inr]
  have res': "transferLoaded repo a to at s = (s', r)" using res Inr by (simp add: service_Transfer_def)
  show ?thesis
  proof (cases r)
    case (Inl err)
    then show ?thesis using transferLoaded_error [OF s, of a to at s' err] res' by simp
  next
    case (Inr n)
    then show ?thesis
      using transferLoaded_Ok [OF s, of a to at s' n] a res' by (simp add: agg_Snapshot_def)
  qed
qed

lemma TransferExpected_cases:
  assumes s: "consistent s" and res: "TransferExpected repo n to at s = (s', r)"
  obtains err where "s' = s" "r = Err err"
  | "current s (rs_ObjectID n) = Some (n\<lparr>rs_AssignedAt := UTC (rs_AssignedAt n)\<rparr>)"
      "service_Transfer repo (rs_ObjectID n) to at s = (s', r)"
proof (cases "resp_Rehydrate n")
  case (Inl err)
  then show thesis using that(1) res by (auto simp: TransferExpected_def)
next
  case (Inr v)
  then have v: "agg_Snapshot v = n\<lparr>rs_AssignedAt := UTC (rs_AssignedAt n)\<rparr>"
    unfolding resp_Rehydrate_iff by (cases n) (simp add: agg_Snapshot_def)
  show thesis
  proof (cases "repo_FindResponsibility repo (rs_ObjectID n) s")
    case (Inl err)
    then show thesis using that(1) res v \<open>resp_Rehydrate n = Inr v\<close> by (auto simp: TransferExpected_def)
  next
    case (Inr a)
    show thesis
    proof (cases "agg_Snapshot a = agg_Snapshot v")
      case True
      then show thesis
        using that(2) find_ok [OF s Inr] res v \<open>resp_Rehydrate n = Inr v\<close> Inr
        by (simp add: TransferExpected_def service_Transfer_def)
    next
      case False
      then show thesis
        using that(1) res v \<open>resp_Rehydrate n = Inr v\<close> Inr by (auto simp: TransferExpected_def)
    qed
  qed
qed

lemma custody_step:
  assumes "all_custody s"
  shows "all_custody (fst (custody_exec repo c s))"
proof -
  have s: "consistent s" using assms by (simp add: all_custody_def)
  have loaded: "all_custody (fst (transferLoaded repo a to at s))" for a to at
  proof (cases "transferLoaded repo a to at s")
    case (Pair s' r)
    then show ?thesis
      using transferLoaded_error [OF s, of a to at s'] transferLoaded_commit [of a to at s s'] commit_custody [OF assms] assms
      by (cases r) fastforce+
  qed
  show ?thesis
  proof (cases c)
    case (CAssign n)
    then show ?thesis
      using assign_custody [OF assms, of n] save_error [OF s, of n 0] assms
      by (cases "repo_SaveResponsibility repo n 0 s"; cases "snd (repo_SaveResponsibility repo n 0 s)") auto
  qed (use loaded assms in \<open>simp_all add: only_error_def service_Transfer_def TransferExpected_def Let_def
      split: sum.split\<close>)
qed

end

sublocale responsibility_repository < custody: machine "custody_exec repo" all_custody
  by unfold_locales (rule custody_step)

section \<open>The in-memory repository\<close>

definition mem_handovers :: "MemoryRepository \<Rightarrow> PhysicalObjectID \<Rightarrow> u64 \<rightharpoonup> TransferredEvent" where
  "mem_handovers m i v = transfers m (i, v)"

definition mem_consistent :: "MemoryRepository \<Rightarrow> bool" where
  "mem_consistent m \<longleftrightarrow> (\<forall>i n. snapshots m i = Some n \<longrightarrow>
     rs_ObjectID n = i \<and> validateSnapshot n = None \<and> UTC (rs_AssignedAt n) = rs_AssignedAt n)"

lemma valid_snapshot_object: "validateSnapshot n = None \<Longrightarrow> validateObjectID (rs_ObjectID n) = None"
  by (simp add: validateSnapshot_def split: if_splits option.splits)

lemma valid_object_id: "validateObjectID i = None \<Longrightarrow> NewPhysicalObjectID i = Ok i"
  by (simp add: validateObjectID_def NewPhysicalObjectID_def eq_commute [of i] split: if_splits)

lemma Rehydrate_valid:
  assumes "validateSnapshot n = None" "UTC (rs_AssignedAt n) = rs_AssignedAt n"
  shows "\<exists>a. resp_Rehydrate n = Ok a \<and> agg_Snapshot a = n"
  using assms by (cases n) (simp add: resp_Rehydrate_def agg_Snapshot_def)

lemma Rehydrate_Snapshot: "resp_Rehydrate n = Ok a \<Longrightarrow> UTC (rs_AssignedAt n) = rs_AssignedAt n \<Longrightarrow>
    agg_Snapshot a = n \<and> resp_Rehydrate (agg_Snapshot a) = Ok a"
  unfolding resp_Rehydrate_iff by (cases n) (simp add: agg_Snapshot_def)

lemma normalized_UTC: "normalizedSnapshot n v = Ok n' \<Longrightarrow> UTC (rs_AssignedAt n') = rs_AssignedAt n'"
  using normalizedSnapshot_Ok [of n v n'] by (cases n) auto

lemma mem_CommitTransfer_cases:
  obtains (error) err where "mem_CommitTransfer n v e m = (m, Some err)"
  | (commit) n' cur where "ValidateTransferCommit n v e = Ok n'" "snapshots m (rs_ObjectID n') = Some cur"
      "rs_Version cur = v" "rs_ParticipantID cur = tr_FromParticipantID e"
      "After (rs_AssignedAt n') (rs_AssignedAt cur)" "transfers m (rs_ObjectID n', rs_Version n') = None"
      "mem_CommitTransfer n v e m =
        (m\<lparr>snapshots := (snapshots m)(rs_ObjectID n' \<mapsto> n'),
           transfers := (transfers m)((rs_ObjectID n', rs_Version n') \<mapsto> e\<lparr>tr_TransferredAt := rs_AssignedAt n'\<rparr>)\<rparr>,
         None)"
proof (cases "ValidateTransferCommit n v e")
  case (Inl err)
  then show thesis using error by (simp add: mem_CommitTransfer_def)
next
  case (Inr n')
  show thesis
  proof (cases "\<exists>cur. snapshots m (rs_ObjectID n') = Some cur \<and> rs_Version cur = v \<and>
      rs_ParticipantID cur = tr_FromParticipantID e \<and> After (rs_AssignedAt n') (rs_AssignedAt cur) \<and>
      transfers m (rs_ObjectID n', rs_Version n') = None")
    case True
    then obtain cur where c: "snapshots m (rs_ObjectID n') = Some cur" "rs_Version cur = v"
      "rs_ParticipantID cur = tr_FromParticipantID e" "After (rs_AssignedAt n') (rs_AssignedAt cur)"
      "transfers m (rs_ObjectID n', rs_Version n') = None" by blast
    show thesis by (rule commit [OF Inr c]) (use c Inr in \<open>simp add: mem_CommitTransfer_def\<close>)
  next
    case False
    then have "snd (mem_CommitTransfer n v e m) \<noteq> None" "fst (mem_CommitTransfer n v e m) = m"
      using Inr by (auto simp: mem_CommitTransfer_def Let_def split: option.split)
    then show thesis using error by (cases "mem_CommitTransfer n v e m") auto
  qed
qed

lemma mem_consistent_update:
  assumes "mem_consistent m" "normalizedSnapshot n v = Ok n'"
  shows "mem_consistent (m\<lparr>snapshots := (snapshots m)(rs_ObjectID n' \<mapsto> n')\<rparr>)"
    "mem_consistent (m\<lparr>snapshots := (snapshots m)(rs_ObjectID n' \<mapsto> n'), transfers := t\<rparr>)"
proof -
  have "validateSnapshot n' = None" "UTC (rs_AssignedAt n') = rs_AssignedAt n'"
    using normalizedSnapshot_Ok [OF assms(2)] normalized_UTC [OF assms(2)] by blast+
  then show "mem_consistent (m\<lparr>snapshots := (snapshots m)(rs_ObjectID n' \<mapsto> n')\<rparr>)"
    "mem_consistent (m\<lparr>snapshots := (snapshots m)(rs_ObjectID n' \<mapsto> n'), transfers := t\<rparr>)"
    using assms(1) by (simp_all add: mem_consistent_def)
qed

interpretation mem: responsibility_repository memory_repo snapshots mem_handovers mem_consistent "\<lambda>t. t"
proof (unfold_locales, goal_cases)
  case (1 m i a)
  then show ?case
    using Rehydrate_Snapshot by (fastforce simp: memory_repo_def mem_FindResponsibility_def mem_consistent_def
        split: option.splits)
next
  case (2 m i n)
  then show ?case by (simp add: mem_consistent_def)
next
  case (3 m n v e m')
  show ?case
  proof (cases rule: mem_CommitTransfer_cases [of n v e m])
    case (error err)
    then show ?thesis using 3 by (simp add: memory_repo_def)
  next
    case (commit n' cur)
    have n': "normalizedSnapshot n v = Ok n'" using ValidateTransferCommit_Ok [OF commit(1)] by blast
    have "mem_consistent m'"
      using 3(2) commit(7) mem_consistent_update(2) [OF 3(1) n'] by (auto simp: memory_repo_def)
    then show ?thesis
      using 3 commit by (auto simp: memory_repo_def mem_handovers_def fun_eq_iff)
  qed
next
  case (4 m n v e m' err)
  then show ?case by (cases rule: mem_CommitTransfer_cases [of n v e m]) (simp_all add: memory_repo_def)
next
  case (5 m n m')
  then obtain n' where n': "normalizedSnapshot n 0 = Ok n'" "snapshots m (rs_ObjectID n') = None"
    "m' = m\<lparr>snapshots := (snapshots m)(rs_ObjectID n' \<mapsto> n')\<rparr>"
    by (auto simp: memory_repo_def mem_SaveResponsibility_def Let_def split: sum.splits if_splits)
  moreover have "mem_consistent m'" unfolding n'(3) by (rule mem_consistent_update(1) [OF 5(1) n'(1)])
  ultimately show ?case by (auto simp: mem_handovers_def fun_eq_iff)
next
  case (6 m n v m' err)
  then show ?case
    by (auto simp: memory_repo_def mem_SaveResponsibility_def Let_def split: sum.splits if_splits option.splits)
qed

lemma NewMemoryRepository_custody: "mem.all_custody NewMemoryRepository"
  by (simp add: mem.all_custody_def NewMemoryRepository_def mem_consistent_def custody_def mem_handovers_def
      fun_eq_iff)

end
