(* ===== verification/Responsibility_Store.thy ===== *)
theory Responsibility_Store
  imports Responsibility
begin

text \<open>
  The PostgreSQL repository of responsibility (\<open>responsibility_repository.go\<close>,
  \<open>responsibility_handover.go\<close> and \<open>responsibility_outbox.go\<close> of \<open>src/persistence/postgres\<close>, with the
  tables of migrations 0007, 0008, 0009 and 0013). A committed transfer updates the snapshot, appends
  its root to the audit ledger and stores the handover event in one transaction; delivery of the events
  is tracked in the same rows. The store is an interpretation of the repository contract.

  The driver writes a time into a \<open>TIMESTAMPTZ\<close> column with microsecond resolution. Connection failures
  and the range of \<open>INTEGER\<close> are not modelled.
\<close>

section \<open>The tables\<close>

datatype DeliveryStatus = DeliveryPending | DeliveryPublished

record handover_row =
  hr_event :: TransferredEvent
  hr_status :: DeliveryStatus
  hr_published_at :: "time option"
  hr_attempts :: nat
  hr_lock_owner :: string
  hr_lock_until :: "time option"
  hr_audit_sequence :: u64

record resp_db =
  db_snapshots :: "PhysicalObjectID \<rightharpoonup> resp_Snapshot"
  db_handovers :: "handover_row list"
  db_ledger :: ledger

definition timestamptz :: "time \<Rightarrow> time" where
  "timestamptz t = truncate_micro (UTC t)"

definition row_key :: "handover_row \<Rightarrow> PhysicalObjectID \<times> u64" where
  "row_key r = (tr_ObjectID (hr_event r), tr_Version (hr_event r))"

definition handover_at :: "handover_row list \<Rightarrow> PhysicalObjectID \<times> u64 \<Rightarrow> handover_row option" where
  "handover_at rows k = find (\<lambda>r. row_key r = k) rows"

definition max_bigint :: u64 where "max_bigint = 2 ^ 63 - 1"

section \<open>Snapshots\<close>

definition store_SaveResponsibility ::
  "resp_Snapshot \<Rightarrow> u64 \<Rightarrow> resp_db \<Rightarrow> resp_db \<times> responsibility_error option" where
  "store_SaveResponsibility s expectedVersion db =
     (case normalizedSnapshot s expectedVersion of
        Inl err \<Rightarrow> (db, Some err)
      | Inr normalized \<Rightarrow>
          let row = normalized\<lparr>rs_AssignedAt := timestamptz (rs_AssignedAt normalized)\<rparr>;
              affected = (if expectedVersion = 0 then db_snapshots db (rs_ObjectID row) = None
                else case db_snapshots db (rs_ObjectID row) of
                  None \<Rightarrow> False
                | Some c \<Rightarrow> rs_Version c = expectedVersion \<and> rs_ParticipantID c \<noteq> rs_ParticipantID row \<and>
                    Before (rs_AssignedAt c) (rs_AssignedAt row))
          in if rs_Version row > max_bigint then (db, Some ErrResponsibilityStatement)
             else if \<not> affected then (db, Some ErrConcurrentModification)
             else (db\<lparr>db_snapshots := (db_snapshots db)(rs_ObjectID row \<mapsto> row)\<rparr>, None))"

definition store_FindResponsibility ::
  "PhysicalObjectID \<Rightarrow> resp_db \<Rightarrow> responsibility_error + resp_Aggregate" where
  "store_FindResponsibility objectID db =
     (if NewPhysicalObjectID objectID \<noteq> Ok objectID then Err ErrObjectIDRequired
      else case db_snapshots db objectID of None \<Rightarrow> Err ErrNotFound | Some s \<Rightarrow> resp_Rehydrate s)"

section \<open>Handover\<close>

definition handover_row_of :: "TransferredEvent \<Rightarrow> u64 \<Rightarrow> handover_row" where
  "handover_row_of ev sequence =
     \<lparr>hr_event = ev\<lparr>tr_TransferredAt := timestamptz (tr_TransferredAt ev)\<rparr>, hr_status = DeliveryPending,
      hr_published_at = None, hr_attempts = 0, hr_lock_owner = [], hr_lock_until = None,
      hr_audit_sequence = sequence\<rparr>"

definition store_CommitTransfer ::
  "resp_Snapshot \<Rightarrow> u64 \<Rightarrow> TransferredEvent \<Rightarrow> resp_db \<Rightarrow> resp_db \<times> responsibility_error option" where
  "store_CommitTransfer s expectedVersion ev db =
     (case ValidateTransferCommit s expectedVersion ev of
        Inl err \<Rightarrow> (db, Some err)
      | Inr normalized \<Rightarrow>
     (case TransferredEventRoot ev of
        Inl err \<Rightarrow> (db, Some err)
      | Inr recordRoot \<Rightarrow>
          let row = normalized\<lparr>rs_AssignedAt := timestamptz (rs_AssignedAt normalized)\<rparr>;
              affected = (case db_snapshots db (rs_ObjectID row) of
                  None \<Rightarrow> False
                | Some c \<Rightarrow> rs_Version c = expectedVersion \<and> rs_ParticipantID c = tr_FromParticipantID ev \<and>
                    Before (rs_AssignedAt c) (rs_AssignedAt row))
          in if rs_Version row > max_bigint then (db, Some ErrResponsibilityStatement)
             else if \<not> affected then (db, Some ErrConcurrentModification)
             else case append_next RecordResponsibilityHandover recordRoot (tr_TransferredAt ev) (db_ledger db) of
                    Inl err \<Rightarrow> (db, Some (ErrAudit err))
                  | Inr (entry, ledger') \<Rightarrow>
                      if handover_at (db_handovers db) (tr_ObjectID ev, tr_Version ev) \<noteq> None
                      then (db, Some ErrResponsibilityStatement)
                      else (db\<lparr>db_snapshots := (db_snapshots db)(rs_ObjectID row \<mapsto> row),
                               db_ledger := ledger',
                               db_handovers := db_handovers db @ [handover_row_of ev (Sequence entry)]\<rparr>,
                            None)))"

text \<open>The \<open>LEFT JOIN\<close> with the ledger and the comparison of the recorded root.\<close>

definition store_FindTransfer ::
  "PhysicalObjectID \<Rightarrow> u64 \<Rightarrow> resp_db \<Rightarrow> responsibility_error + TransferredEvent" where
  "store_FindTransfer objectID v db =
     (case handover_at (db_handovers db) (objectID, v) of
        None \<Rightarrow> Err ErrTransferNotFound
      | Some r \<Rightarrow>
          let ev = (hr_event r)\<lparr>tr_TransferredAt := UTC (tr_TransferredAt (hr_event r))\<rparr>
          in case (TransferredEventRoot ev, find (\<lambda>e. Sequence e = hr_audit_sequence r) (db_ledger db)) of
               (Inr wantRoot, Some entry) \<Rightarrow>
                 if Kind entry \<noteq> RecordResponsibilityHandover \<or> length (RecordRoot entry) \<noteq> 32 \<or>
                    wantRoot \<noteq> RecordRoot entry
                 then Err ErrTransferAuditInvalid else Ok ev
             | _ \<Rightarrow> Err ErrTransferAuditInvalid)"

definition store_repo :: "resp_db resp_repo" where
  "store_repo = \<lparr>repo_SaveResponsibility = store_SaveResponsibility,
     repo_FindResponsibility = store_FindResponsibility, repo_CommitTransfer = store_CommitTransfer,
     repo_FindTransfer = store_FindTransfer\<rparr>"

section \<open>Delivery\<close>

record DeliveryClaim =
  dc_Limit :: int
  dc_WorkerID :: string
  dc_ClaimedAt :: time
  dc_LockDuration :: int

definition MaxDeliveryClaim :: int where "MaxDeliveryClaim = 1000"

definition delivery_Validate :: "DeliveryClaim \<Rightarrow> responsibility_error option" where
  "delivery_Validate c =
     (if dc_Limit c \<le> 0 \<or> dc_Limit c > MaxDeliveryClaim then Some ErrClaimLimitInvalid
      else if TrimSpace (dc_WorkerID c) = [] then Some ErrWorkerIDRequired
      else if IsZero (dc_ClaimedAt c) then Some ErrClaimTimeRequired
      else if dc_LockDuration c \<le> 0 then Some ErrLockDurationInvalid
      else None)"

record ClaimedTransfer =
  ct_Event :: TransferredEvent
  ct_Attempts :: nat
  ct_LockOwner :: string
  ct_LockUntil :: time

definition transfer_ready :: "time \<Rightarrow> handover_row \<Rightarrow> bool" where
  "transfer_ready at r \<longleftrightarrow> hr_status r = DeliveryPending \<and> \<not> After (tr_TransferredAt (hr_event r)) at \<and>
     (case hr_lock_until r of None \<Rightarrow> True | Some t \<Rightarrow> \<not> After t at)"

text \<open>
  \<open>ORDER BY transferred_at, object_id, version ... LIMIT\<close>, skipping the rows in \<open>locked\<close>; text
  columns sort by the rank \<open>collate\<close> of the database's collation.
\<close>

definition ready_keys ::
  "(PhysicalObjectID \<Rightarrow> nat) \<Rightarrow> (PhysicalObjectID \<times> u64 \<Rightarrow> bool) \<Rightarrow> nat \<Rightarrow> time \<Rightarrow> handover_row list \<Rightarrow>
   (PhysicalObjectID \<times> u64) list" where
  "ready_keys collate locked limit at rows =
     take limit (map row_key
       (sort_key (\<lambda>r. instant (tr_TransferredAt (hr_event r)))
         (sort_key (\<lambda>r. collate (tr_ObjectID (hr_event r)))
           (sort_key (\<lambda>r. tr_Version (hr_event r))
             (filter (\<lambda>r. transfer_ready at r \<and> \<not> locked (row_key r)) rows)))))"

definition ClaimResponsibilityTransfers ::
  "(PhysicalObjectID \<Rightarrow> nat) \<Rightarrow> (PhysicalObjectID \<times> u64 \<Rightarrow> bool) \<Rightarrow> (PhysicalObjectID \<times> u64 \<Rightarrow> nat) \<Rightarrow>
   DeliveryClaim \<Rightarrow> resp_db \<Rightarrow> resp_db \<times> (responsibility_error + ClaimedTransfer list)" where
  "ClaimResponsibilityTransfers collate locked rank claim db =
     (case delivery_Validate claim of
        Some err \<Rightarrow> (db, Err err)
      | None \<Rightarrow>
          let claimedAt = UTC (dc_ClaimedAt claim);
              at = timestamptz claimedAt;
              lockUntil = timestamptz (time_Add claimedAt (dc_LockDuration claim));
              ks = set (ready_keys collate locked (nat (dc_Limit claim)) at (db_handovers db));
              rows = map (\<lambda>r. if row_key r \<in> ks
                       then r\<lparr>hr_lock_owner := TrimSpace (dc_WorkerID claim), hr_lock_until := Some lockUntil,
                              hr_attempts := hr_attempts r + 1\<rparr> else r) (db_handovers db);
              returned = sort_key (\<lambda>r. rank (row_key r)) (filter (\<lambda>r. row_key r \<in> ks) rows)
          in (db\<lparr>db_handovers := rows\<rparr>,
              Ok (map (\<lambda>r. \<lparr>ct_Event = hr_event r, ct_Attempts = hr_attempts r,
                            ct_LockOwner = hr_lock_owner r, ct_LockUntil = lockUntil\<rparr>) returned)))"

text \<open>\<open>requireResponsibilityDeliveryUpdate\<close> accepts exactly one updated row.\<close>

definition MarkResponsibilityTransferPublished ::
  "PhysicalObjectID \<Rightarrow> u64 \<Rightarrow> string \<Rightarrow> time \<Rightarrow> resp_db \<Rightarrow> resp_db \<times> responsibility_error option" where
  "MarkResponsibilityTransferPublished objectID v workerID publishedAt db =
     (let workerID = TrimSpace workerID in
      if workerID = [] then (db, Some ErrWorkerIDRequired)
      else if IsZero publishedAt then (db, Some ErrPublicationTimeRequired)
      else let at = timestamptz publishedAt;
               cond = (\<lambda>r. row_key r = (objectID, v) \<and> hr_status r = DeliveryPending \<and>
                 hr_lock_owner r = workerID \<and> \<not> After (tr_TransferredAt (hr_event r)) at);
               rows = map (\<lambda>r. if cond r
                 then r\<lparr>hr_status := DeliveryPublished, hr_published_at := Some at, hr_lock_owner := [],
                        hr_lock_until := None\<rparr> else r) (db_handovers db)
           in (db\<lparr>db_handovers := rows\<rparr>,
               if length (filter cond (db_handovers db)) \<noteq> 1 then Some ErrDeliveryConflict else None))"

definition ReleaseExpiredResponsibilityLocks ::
  "time \<Rightarrow> resp_db \<Rightarrow> resp_db \<times> (responsibility_error + nat)" where
  "ReleaseExpiredResponsibilityLocks at db =
     (if IsZero at then (db, Err ErrClaimTimeRequired)
      else let cond = (\<lambda>r. hr_status r = DeliveryPending \<and>
             (case hr_lock_until r of None \<Rightarrow> False | Some t \<Rightarrow> \<not> After t (timestamptz at)))
           in (db\<lparr>db_handovers := map (\<lambda>r. if cond r then r\<lparr>hr_lock_owner := [], hr_lock_until := None\<rparr> else r)
                    (db_handovers db)\<rparr>,
               Ok (length (filter cond (db_handovers db)))))"

section \<open>The invariant of the tables\<close>

definition db_events :: "resp_db \<Rightarrow> PhysicalObjectID \<Rightarrow> u64 \<rightharpoonup> TransferredEvent" where
  "db_events db i v = map_option hr_event (handover_at (db_handovers db) (i, v))"

text \<open>Every stored event is bound to a ledger entry that carries its root.\<close>

definition audited :: "ledger \<Rightarrow> handover_row \<Rightarrow> bool" where
  "audited l r \<longleftrightarrow> (\<exists>e\<in>set l. Sequence e = hr_audit_sequence r \<and> Kind e = RecordResponsibilityHandover \<and>
     RecordRoot e = sha256 (transfer_preimage (hr_event r)))"

definition db_consistent :: "resp_db \<Rightarrow> bool" where
  "db_consistent db \<longleftrightarrow> (\<forall>i n. db_snapshots db i = Some n \<longrightarrow>
       rs_ObjectID n = i \<and> timestamptz (rs_AssignedAt n) = rs_AssignedAt n) \<and>
     distinct (map row_key (db_handovers db)) \<and> chained (db_ledger db) \<and>
     (\<forall>r\<in>set (db_handovers db). audited (db_ledger db) r \<and> tr_Version (hr_event r) \<ge> 2 \<and>
        tr_FromParticipantID (hr_event r) \<noteq> tr_ToParticipantID (hr_event r) \<and>
        validateObjectID (tr_ObjectID (hr_event r)) = None \<and>
        validateParticipantID (tr_FromParticipantID (hr_event r)) = None \<and>
        validateParticipantID (tr_ToParticipantID (hr_event r)) = None \<and>
        timestamptz (tr_TransferredAt (hr_event r)) = tr_TransferredAt (hr_event r))"

lemma timestamptz_simps [simp]:
  "timestamptz (timestamptz t) = timestamptz t" "timestamptz (UTC t) = timestamptz t"
  "UTC (timestamptz t) = timestamptz t" "UnixMicro (timestamptz t) = UnixMicro t"
proof -
  have [simp]: "UTC (truncate_micro (UTC t)) = truncate_micro (UTC t)" by (simp add: truncate_micro_def UTC_def)
  show "timestamptz (timestamptz t) = timestamptz t" "timestamptz (UTC t) = timestamptz t"
    "UTC (timestamptz t) = timestamptz t" by (simp_all add: timestamptz_def)
  show "UnixMicro (timestamptz t) = UnixMicro t"
    by (simp add: timestamptz_def UnixMicro_truncate) (simp add: UnixMicro_def)
qed

lemma handover_at_append:
  "handover_at (rows @ [r]) k = (case handover_at rows k of None \<Rightarrow> if row_key r = k then Some r else None | Some x \<Rightarrow> Some x)"
  by (simp add: handover_at_def find_append split: option.split)

lemma handover_at_map: "(\<And>r. row_key (f r) = row_key r) \<Longrightarrow> handover_at (map f rows) k = map_option f (handover_at rows k)"
  by (induction rows) (simp_all add: handover_at_def)

lemma handover_at_row: "handover_at rows k = Some r \<Longrightarrow> r \<in> set rows \<and> row_key r = k"
  by (auto simp: handover_at_def find_Some_iff)

lemma transfer_preimage_stored [simp]:
  "transfer_preimage (ev\<lparr>tr_TransferredAt := timestamptz (tr_TransferredAt ev)\<rparr>) = transfer_preimage ev"
  by (simp add: transfer_preimage_def)

lemma audited_prefix: "audited l r \<Longrightarrow> prefix l l' \<Longrightarrow> audited l' r"
  unfolding audited_def by (meson set_mono_prefix subsetD)

lemma store_CommitTransfer_cases:
  obtains (error) err where "store_CommitTransfer n v ev db = (db, Some err)"
  | (commit) n' cur entry l where "ValidateTransferCommit n v ev = Ok n'"
      "db_snapshots db (rs_ObjectID n') = Some cur" "rs_Version cur = v"
      "rs_ParticipantID cur = tr_FromParticipantID ev"
      "Before (rs_AssignedAt cur) (timestamptz (rs_AssignedAt n'))"
      "append_next RecordResponsibilityHandover (sha256 (transfer_preimage ev)) (tr_TransferredAt ev)
         (db_ledger db) = Ok (entry, l)"
      "handover_at (db_handovers db) (tr_ObjectID ev, tr_Version ev) = None"
      "store_CommitTransfer n v ev db =
        (db\<lparr>db_snapshots := (db_snapshots db)(rs_ObjectID n' \<mapsto> n'\<lparr>rs_AssignedAt := timestamptz (rs_AssignedAt n')\<rparr>),
            db_ledger := l,
            db_handovers := db_handovers db @ [handover_row_of ev (Sequence entry)]\<rparr>, None)"
proof (cases "ValidateTransferCommit n v ev")
  case (Inl err)
  then show thesis using error by (simp add: store_CommitTransfer_def)
next
  case V: (Inr n')
  have root: "TransferredEventRoot ev = Ok (sha256 (transfer_preimage ev))"
    using ValidateTransferCommit_Ok [OF V] by (simp add: TransferredEventRoot_def)
  let ?ap = "append_next RecordResponsibilityHandover (sha256 (transfer_preimage ev)) (tr_TransferredAt ev) (db_ledger db)"
  show thesis
  proof (cases "(\<exists>cur. db_snapshots db (rs_ObjectID n') = Some cur \<and> rs_Version cur = v \<and>
      rs_ParticipantID cur = tr_FromParticipantID ev \<and>
      Before (rs_AssignedAt cur) (timestamptz (rs_AssignedAt n'))) \<and> \<not> rs_Version n' > max_bigint \<and>
      (\<exists>entry l. ?ap = Ok (entry, l)) \<and> handover_at (db_handovers db) (tr_ObjectID ev, tr_Version ev) = None")
    case True
    then obtain cur entry l where c: "db_snapshots db (rs_ObjectID n') = Some cur" "rs_Version cur = v"
      "rs_ParticipantID cur = tr_FromParticipantID ev"
      "Before (rs_AssignedAt cur) (timestamptz (rs_AssignedAt n'))" "?ap = Ok (entry, l)"
      "handover_at (db_handovers db) (tr_ObjectID ev, tr_Version ev) = None" "\<not> rs_Version n' > max_bigint"
      by blast
    show thesis
      by (rule commit [OF V c(1-6)]) (use c V root in \<open>simp add: store_CommitTransfer_def Let_def\<close>)
  next
    case False
    then have "snd (store_CommitTransfer n v ev db) \<noteq> None \<and> fst (store_CommitTransfer n v ev db) = db"
      using V root by (auto simp: store_CommitTransfer_def Let_def split: option.split sum.split)
    then show thesis using error by (cases "store_CommitTransfer n v ev db") auto
  qed
qed

lemma commit_event_valid:
  assumes "ValidateTransferCommit n v ev = Ok n'"
  shows "tr_Version ev \<ge> 2" "tr_FromParticipantID ev \<noteq> tr_ToParticipantID ev"
    "validateObjectID (tr_ObjectID ev) = None" "validateParticipantID (tr_FromParticipantID ev) = None"
    "validateParticipantID (tr_ToParticipantID ev) = None" "rs_ObjectID n' = tr_ObjectID ev"
    "rs_Version n' = tr_Version ev" "timestamptz (tr_TransferredAt ev) = timestamptz (rs_AssignedAt n')"
proof -
  note V = ValidateTransferCommit_Ok [OF assms]
  have "timestamptz t = timestamptz u" if "instant t = instant u" for t u
    using that by (simp add: timestamptz_def truncate_micro_def UTC_def)
  then show "timestamptz (tr_TransferredAt ev) = timestamptz (rs_AssignedAt n')" using V by blast
  show "tr_Version ev \<ge> 2" "tr_FromParticipantID ev \<noteq> tr_ToParticipantID ev"
    "validateObjectID (tr_ObjectID ev) = None" "validateParticipantID (tr_FromParticipantID ev) = None"
    "validateParticipantID (tr_ToParticipantID ev) = None" "rs_ObjectID n' = tr_ObjectID ev"
    "rs_Version n' = tr_Version ev"
    using V by (auto simp: validateTransferredEvent_def split: if_splits)
qed

lemma commit_consistent:
  assumes db: "db_consistent db" and V: "ValidateTransferCommit n v ev = Ok n'"
    and ap: "append_next RecordResponsibilityHandover (sha256 (transfer_preimage ev)) (tr_TransferredAt ev)
         (db_ledger db) = Ok (entry, l)"
    and free: "handover_at (db_handovers db) (tr_ObjectID ev, tr_Version ev) = None"
  shows "db_consistent (db\<lparr>db_snapshots := (db_snapshots db)(rs_ObjectID n' \<mapsto> n'\<lparr>rs_AssignedAt := timestamptz (rs_AssignedAt n')\<rparr>),
            db_ledger := l, db_handovers := db_handovers db @ [handover_row_of ev (Sequence entry)]\<rparr>)"
proof -
  have l: "l = db_ledger db @ [entry]" "chained l" "Kind entry = RecordResponsibilityHandover"
    "RecordRoot entry = sha256 (transfer_preimage ev)"
    using append_next_ok [OF _ ap] db unfolding db_consistent_def by blast+
  have "audited l (handover_row_of ev (Sequence entry))"
    using l by (auto simp: audited_def handover_row_of_def)
  moreover have "audited l r" if "r \<in> set (db_handovers db)" for r
    by (rule audited_prefix [of "db_ledger db"]) (use db that l(1) in \<open>auto simp: db_consistent_def\<close>)
  moreover have "row_key (handover_row_of ev (Sequence entry)) \<notin> row_key ` set (db_handovers db)"
    using free by (auto simp: handover_at_def find_None_iff handover_row_of_def row_key_def)
  ultimately show ?thesis
    using db l(2) commit_event_valid [OF V] by (simp add: db_consistent_def handover_row_of_def)
qed

lemma db_events_commit:
  assumes "handover_at (db_handovers db) (tr_ObjectID ev, tr_Version ev) = None"
    and "ValidateTransferCommit n v ev = Ok n'"
  shows "db_events (db\<lparr>db_snapshots := sn, db_ledger := l,
       db_handovers := db_handovers db @ [handover_row_of ev k]\<rparr>) =
     (db_events db)(rs_ObjectID n' := (db_events db (rs_ObjectID n'))
       (rs_Version n' \<mapsto> ev\<lparr>tr_TransferredAt := timestamptz (rs_AssignedAt n')\<rparr>))"
proof (intro ext)
  fix i w
  show "db_events (db\<lparr>db_snapshots := sn, db_ledger := l,
       db_handovers := db_handovers db @ [handover_row_of ev k]\<rparr>) i w =
     ((db_events db)(rs_ObjectID n' := (db_events db (rs_ObjectID n'))
       (rs_Version n' \<mapsto> ev\<lparr>tr_TransferredAt := timestamptz (rs_AssignedAt n')\<rparr>))) i w"
    using assms(1) commit_event_valid(6-8) [OF assms(2)]
    by (auto simp: db_events_def handover_at_append handover_row_of_def row_key_def split: option.split)
qed

lemma store_FindResponsibility_Ok:
  assumes "db_consistent db" "store_FindResponsibility i db = Ok a"
  shows "db_snapshots db i = Some (agg_Snapshot a) \<and> resp_Rehydrate (agg_Snapshot a) = Ok a"
proof -
  obtain n where n: "db_snapshots db i = Some n" "resp_Rehydrate n = Ok a"
    using assms(2) by (auto simp: store_FindResponsibility_def split: if_splits option.splits)
  have "timestamptz (rs_AssignedAt n) = rs_AssignedAt n" using assms(1) n(1) by (simp add: db_consistent_def)
  then have "UTC (rs_AssignedAt n) = rs_AssignedAt n" by (metis timestamptz_simps(3))
  then show ?thesis using Rehydrate_Snapshot [OF n(2)] n by simp
qed

lemma store_SaveResponsibility_cases:
  obtains (error) err where "store_SaveResponsibility n v db = (db, Some err)"
  | (save) n' where "normalizedSnapshot n v = Ok n'" "v = 0 \<longrightarrow> db_snapshots db (rs_ObjectID n') = None"
      "store_SaveResponsibility n v db = (db\<lparr>db_snapshots := (db_snapshots db)
         (rs_ObjectID n' \<mapsto> n'\<lparr>rs_AssignedAt := timestamptz (rs_AssignedAt n')\<rparr>)\<rparr>, None)"
proof (cases "store_SaveResponsibility n v db")
  case (Pair db' e)
  show thesis
  proof (cases e)
    case (Some err)
    then have "db' = db" using Pair
      by (auto simp: store_SaveResponsibility_def Let_def split: sum.splits if_splits)
    then show thesis using error Pair Some by simp
  next
    case None
    then obtain n' where "normalizedSnapshot n v = Ok n'" "v = 0 \<longrightarrow> db_snapshots db (rs_ObjectID n') = None"
      "db' = db\<lparr>db_snapshots := (db_snapshots db)
         (rs_ObjectID n' \<mapsto> n'\<lparr>rs_AssignedAt := timestamptz (rs_AssignedAt n')\<rparr>)\<rparr>"
      using Pair by (auto simp: store_SaveResponsibility_def Let_def split: sum.splits if_splits)
    then show thesis using save Pair None by blast
  qed
qed

lemma save_consistent:
  "db_consistent db \<Longrightarrow> db_consistent (db\<lparr>db_snapshots := (db_snapshots db)
     (rs_ObjectID n \<mapsto> n\<lparr>rs_AssignedAt := timestamptz t\<rparr>)\<rparr>)"
  by (simp add: db_consistent_def)

interpretation store: responsibility_repository store_repo db_snapshots db_events db_consistent timestamptz
proof (unfold_locales, goal_cases)
  case (1 db i a)
  then show ?case using store_FindResponsibility_Ok by (simp add: store_repo_def)
next
  case (2 db i n)
  then show ?case by (simp add: db_consistent_def)
next
  case (3 db n v ev db')
  show ?case
  proof (cases rule: store_CommitTransfer_cases [of n v ev db])
    case (error err)
    then show ?thesis using 3 by (simp add: store_repo_def)
  next
    case (commit n' cur entry l)
    then have "db' = db\<lparr>db_snapshots := (db_snapshots db)(rs_ObjectID n' \<mapsto> n'\<lparr>rs_AssignedAt := timestamptz (rs_AssignedAt n')\<rparr>),
            db_ledger := l, db_handovers := db_handovers db @ [handover_row_of ev (Sequence entry)]\<rparr>"
      using 3(2) by (simp add: store_repo_def)
    then show ?thesis
      using commit_consistent [OF 3(1) commit(1,6,7)] db_events_commit [OF commit(7,1)] commit(1-5)
      by (auto simp: Before_def After_def)
  qed
next
  case (4 db n v ev db' err)
  then show ?case by (cases rule: store_CommitTransfer_cases [of n v ev db]) (simp_all add: store_repo_def)
next
  case (5 db n db')
  then show ?case
  proof (cases rule: store_SaveResponsibility_cases [of n 0 db])
    case (save n')
    then show ?thesis
      using 5 save_consistent [OF 5(1), of n' "rs_AssignedAt n'"]
      by (auto simp: store_repo_def db_events_def fun_eq_iff)
  qed (simp add: store_repo_def)
next
  case (6 db n v db' err)
  then show ?case by (cases rule: store_SaveResponsibility_cases [of n v db]) (simp_all add: store_repo_def)
qed

section \<open>The store under every operation\<close>

datatype store_command =
    SCustody custody_command
  | SClaim "PhysicalObjectID \<Rightarrow> nat" "PhysicalObjectID \<times> u64 \<Rightarrow> bool" "PhysicalObjectID \<times> u64 \<Rightarrow> nat" DeliveryClaim
  | SPublished PhysicalObjectID u64 string time
  | SRelease time

fun store_exec :: "store_command \<Rightarrow> resp_db \<Rightarrow> resp_db \<times> responsibility_error option" where
  "store_exec (SCustody c) db = custody_exec store_repo c db"
| "store_exec (SClaim collate locked rank claim) db = only_error (ClaimResponsibilityTransfers collate locked rank claim db)"
| "store_exec (SPublished i v worker at) db = MarkResponsibilityTransferPublished i v worker at db"
| "store_exec (SRelease at) db = only_error (ReleaseExpiredResponsibilityLocks at db)"

text \<open>How a handover row and the tables may evolve: a published row is final.\<close>

definition row_le :: "handover_row \<Rightarrow> handover_row \<Rightarrow> bool" where
  "row_le r r' \<longleftrightarrow> hr_event r' = hr_event r \<and> hr_audit_sequence r' = hr_audit_sequence r \<and>
     hr_attempts r \<le> hr_attempts r' \<and> (hr_status r = DeliveryPublished \<longrightarrow> r' = r)"

definition db_le :: "resp_db \<Rightarrow> resp_db \<Rightarrow> bool" where
  "db_le db db' \<longleftrightarrow> prefix (db_ledger db) (db_ledger db') \<and>
     (\<exists>added. list_all2 row_le (db_handovers db @ added) (db_handovers db'))"

lemma row_le_refl [simp]: "row_le r r"
  by (simp add: row_le_def)

lemma row_le_trans: "row_le r s \<Longrightarrow> row_le s t \<Longrightarrow> row_le r t"
  by (auto simp: row_le_def)

lemma row_le_key: "row_le r r' \<Longrightarrow> row_key r' = row_key r"
  by (simp add: row_le_def row_key_def)

lemma db_le_refl: "db_le db db"
  unfolding db_le_def by (intro conjI exI [of _ "[]"]) (simp_all add: list_all2_refl)

lemma db_le_trans:
  assumes "db_le a b" "db_le b c"
  shows "db_le a c"
proof -
  obtain x y where x: "list_all2 row_le (db_handovers a @ x) (db_handovers b)"
    and y: "list_all2 row_le (db_handovers b @ y) (db_handovers c)"
    and p: "prefix (db_ledger a) (db_ledger b)" "prefix (db_ledger b) (db_ledger c)"
    using assms by (auto simp: db_le_def)
  have "list_all2 row_le ((db_handovers a @ x) @ y) (db_handovers b @ y)"
    using x by (intro list_all2_appendI) (simp_all add: list_all2_refl)
  then have "list_all2 row_le (db_handovers a @ (x @ y)) (db_handovers c)"
    using list_all2_trans [OF row_le_trans _ y] by simp
  then show ?thesis using prefix_order.trans [OF p] by (auto simp: db_le_def)
qed

lemma handover_at_le:
  "list_all2 row_le rows rows' \<Longrightarrow> rel_option row_le (handover_at rows k) (handover_at rows' k)"
  by (induction rule: list_all2_induct) (auto simp: handover_at_def row_le_key)

lemma db_le_handover:
  assumes "db_le db db'" "handover_at (db_handovers db) k = Some r"
  shows "\<exists>r'. handover_at (db_handovers db') k = Some r' \<and> row_le r r'"
proof -
  obtain added where "list_all2 row_le (db_handovers db @ added) (db_handovers db')"
    using assms(1) by (auto simp: db_le_def)
  moreover have "handover_at (db_handovers db @ added) k = Some r"
    using assms(2) by (simp add: handover_at_def find_append)
  ultimately show ?thesis using handover_at_le [of "db_handovers db @ added" "db_handovers db'" k]
    by (auto simp: option_rel_Some1)
qed

text \<open>Every delivery operation updates rows in place.\<close>

lemma list_all2_map_le: "(\<And>r. r \<in> set rows \<Longrightarrow> row_le r (f r)) \<Longrightarrow> list_all2 row_le rows (map f rows)"
  by (simp add: list_all2_conv_all_nth)

lemma rows_updated: "(\<And>r. row_le r (f r)) \<Longrightarrow> \<exists>rows. db\<lparr>db_handovers := map f (db_handovers db)\<rparr> = db\<lparr>db_handovers := rows\<rparr> \<and>
    list_all2 row_le (db_handovers db) rows"
  using list_all2_map_le [of "db_handovers db" f] by blast

lemma ready_keys_pending:
  assumes "distinct (map row_key rows)" "r \<in> set rows" "row_key r \<in> set (ready_keys collate locked n at rows)"
  shows "hr_status r = DeliveryPending"
proof -
  obtain q where q: "q \<in> set rows" "row_key q = row_key r" "transfer_ready at q"
    using in_set_takeD [OF assms(3) [unfolded ready_keys_def]] by auto
  then have "q = r" using assms(1,2) by (meson distinct_map inj_onD)
  then show ?thesis using q(3) by (simp add: transfer_ready_def)
qed

lemma Claim_rows:
  assumes "distinct (map row_key (db_handovers db))"
  shows "\<exists>rows. fst (ClaimResponsibilityTransfers collate locked rank claim db) = db\<lparr>db_handovers := rows\<rparr> \<and>
    list_all2 row_le (db_handovers db) rows"
proof (cases "delivery_Validate claim")
  case None
  have "list_all2 row_le (db_handovers db) (map (\<lambda>r. if row_key r \<in> set (ready_keys collate locked n at (db_handovers db))
       then r\<lparr>hr_lock_owner := w, hr_lock_until := t, hr_attempts := hr_attempts r + 1\<rparr> else r) (db_handovers db))"
    for n at w t
    by (rule list_all2_map_le) (use ready_keys_pending [OF assms] in \<open>auto simp: row_le_def\<close>)
  then show ?thesis using None by (simp add: ClaimResponsibilityTransfers_def Let_def) blast
next
  case (Some err)
  then show ?thesis
    by (intro exI [of _ "db_handovers db"]) (simp add: ClaimResponsibilityTransfers_def list_all2_refl)
qed

lemma Published_rows:
  "\<exists>rows. fst (MarkResponsibilityTransferPublished i v worker at db) = db\<lparr>db_handovers := rows\<rparr> \<and>
    list_all2 row_le (db_handovers db) rows"
proof (cases "TrimSpace worker = [] \<or> IsZero at")
  case True
  then show ?thesis
    by (intro exI [of _ "db_handovers db"]) (auto simp: MarkResponsibilityTransferPublished_def list_all2_refl Let_def)
next
  case False
  then show ?thesis
    by (simp add: MarkResponsibilityTransferPublished_def Let_def) (rule rows_updated, simp add: row_le_def)
qed

lemma Release_rows:
  "\<exists>rows. fst (ReleaseExpiredResponsibilityLocks at db) = db\<lparr>db_handovers := rows\<rparr> \<and>
    list_all2 row_le (db_handovers db) rows"
proof (cases "IsZero at")
  case True
  then show ?thesis
    by (intro exI [of _ "db_handovers db"]) (simp add: ReleaseExpiredResponsibilityLocks_def list_all2_refl)
next
  case False
  then show ?thesis
    by (simp add: ReleaseExpiredResponsibilityLocks_def Let_def) (rule rows_updated, simp add: row_le_def)
qed

lemma delivery_keeps:
  assumes "store.all_custody db" "list_all2 row_le (db_handovers db) rows"
  shows "store.all_custody (db\<lparr>db_handovers := rows\<rparr>)" "db_le db (db\<lparr>db_handovers := rows\<rparr>)"
proof -
  show "db_le db (db\<lparr>db_handovers := rows\<rparr>)"
    using assms(2) by (auto simp: db_le_def intro: exI [of _ "[]"])
  have keys: "map row_key rows = map row_key (db_handovers db)"
    using assms(2) by (induction rule: list_all2_induct) (simp_all add: row_le_key)
  have "db_events (db\<lparr>db_handovers := rows\<rparr>) i w = db_events db i w" for i w
    using handover_at_le [OF assms(2), of "(i, w)"]
    by (cases "handover_at (db_handovers db) (i, w)"; cases "handover_at rows (i, w)")
      (simp_all add: db_events_def row_le_def)
  then have events: "db_events (db\<lparr>db_handovers := rows\<rparr>) = db_events db" by (intro ext)
  have db: "db_consistent db" using assms(1) by (simp add: store.all_custody_def)
  have "\<exists>r\<in>set (db_handovers db). row_le r r'" if "r' \<in> set rows" for r'
    using assms(2) that by (metis list_all2_conv_all_nth in_set_conv_nth)
  then have old: "\<exists>r\<in>set (db_handovers db). hr_event r' = hr_event r \<and> hr_audit_sequence r' = hr_audit_sequence r"
    if "r' \<in> set rows" for r' using that unfolding row_le_def by blast
  have "audited (db_ledger db) r' \<and> tr_Version (hr_event r') \<ge> 2 \<and>
        tr_FromParticipantID (hr_event r') \<noteq> tr_ToParticipantID (hr_event r') \<and>
        validateObjectID (tr_ObjectID (hr_event r')) = None \<and>
        validateParticipantID (tr_FromParticipantID (hr_event r')) = None \<and>
        validateParticipantID (tr_ToParticipantID (hr_event r')) = None \<and>
        timestamptz (tr_TransferredAt (hr_event r')) = tr_TransferredAt (hr_event r')" if r': "r' \<in> set rows" for r'
  proof -
    obtain r where "r \<in> set (db_handovers db)" "hr_event r' = hr_event r" "hr_audit_sequence r' = hr_audit_sequence r"
      using old [OF r'] by blast
    then show ?thesis using db by (simp add: db_consistent_def audited_def)
  qed
  then have "db_consistent (db\<lparr>db_handovers := rows\<rparr>)"
    using db unfolding db_consistent_def by (simp add: keys)
  then show "store.all_custody (db\<lparr>db_handovers := rows\<rparr>)"
    using assms(1) by (simp add: store.all_custody_def events)
qed

lemma custody_le:
  assumes "store.all_custody db"
  shows "db_le db (fst (custody_exec store_repo c db))"
proof -
  have save: "db_le db (fst (store_SaveResponsibility n v db))" for n v
    by (cases rule: store_SaveResponsibility_cases [of n v db])
      (auto simp: db_le_refl db_le_def list_all2_refl intro: exI [of _ "[]"])
  have commit: "db_le db (fst (store_CommitTransfer n v ev db))" for n v ev
  proof (cases rule: store_CommitTransfer_cases [of n v ev db])
    case (commit n' cur entry l)
    have "l = db_ledger db @ [entry]"
      using append_next_ok [OF _ commit(6)] assms by (simp add: store.all_custody_def db_consistent_def)
    moreover have "list_all2 row_le (db_handovers db @ [r]) (db_handovers db @ [r])" for r
      by (rule list_all2_refl) simp
    ultimately show ?thesis using commit(8) by (auto simp: db_le_def)
  qed (simp add: db_le_refl)
  have "db_le db (fst (transferLoaded store_repo a to at db))" for a to at
    using commit by (auto simp: transferLoaded_def store_repo_def db_le_refl Let_def split: prod.splits option.splits)
      (metis fst_conv)+
  then show ?thesis using save
    by (cases c) (simp_all add: only_error_def service_Transfer_def TransferExpected_def Let_def db_le_refl
        store_repo_def split: sum.split)
qed

lemma store_exec_cases:
  assumes "store.all_custody db"
  obtains (custody) cc where "fst (store_exec c db) = fst (custody_exec store_repo cc db)"
  | (delivery) rows where "fst (store_exec c db) = db\<lparr>db_handovers := rows\<rparr>" "list_all2 row_le (db_handovers db) rows"
proof (cases c)
  case (SCustody cc)
  then show thesis using custody [of cc] by simp
next
  case (SClaim collate locked rank claim)
  have "distinct (map row_key (db_handovers db))" using assms by (simp add: store.all_custody_def db_consistent_def)
  from Claim_rows [OF this, of collate locked rank claim] show thesis
    using delivery SClaim by (auto simp: only_error_def)
next
  case (SPublished i v worker at)
  from Published_rows [of i v worker at db] show thesis using delivery SPublished by auto
next
  case (SRelease at)
  from Release_rows [of at db] show thesis using delivery SRelease by (auto simp: only_error_def)
qed

interpretation tables: ordered_machine store_exec store.all_custody db_le
proof (unfold_locales, goal_cases)
  case (1 db c)
  from 1 show ?case
    by (cases rule: store_exec_cases [OF 1, of c]) (simp_all add: store.custody_step delivery_keeps(1))
next
  case (4 db c)
  from 4 show ?case
    by (cases rule: store_exec_cases [OF 4, of c]) (simp_all add: custody_le delivery_keeps(2))
qed (rule db_le_refl, rule db_le_trans)

text \<open>A stored event with a time other than the zero time is found, with its root in the ledger.\<close>

lemma FindTransfer_stored:
  assumes "db_consistent db" "handover_at (db_handovers db) (i, v) = Some r" "\<not> IsZero (tr_TransferredAt (hr_event r))"
  shows "store_FindTransfer i v db = Ok (hr_event r)"
proof -
  have r: "r \<in> set (db_handovers db)" using handover_at_row [OF assms(2)] by blast
  then have ev: "validateTransferredEvent (hr_event r) = None" "audited (db_ledger db) r"
    "timestamptz (tr_TransferredAt (hr_event r)) = tr_TransferredAt (hr_event r)"
    using assms(1,3) by (simp_all add: db_consistent_def validateTransferredEvent_def not_less)
  have "UTC (tr_TransferredAt (hr_event r)) = tr_TransferredAt (hr_event r)" using ev(3) by (metis timestamptz_simps(3))
  then have utc: "(hr_event r)\<lparr>tr_TransferredAt := UTC (tr_TransferredAt (hr_event r))\<rparr> = hr_event r" by simp
  obtain e where e: "e \<in> set (db_ledger db)" "Sequence e = hr_audit_sequence r" "Kind e = RecordResponsibilityHandover"
    "RecordRoot e = sha256 (transfer_preimage (hr_event r))" using ev(2) by (auto simp: audited_def)
  have "find (\<lambda>x. Sequence x = hr_audit_sequence r) (db_ledger db) = Some e"
    using find_sequence [OF _ e(1)] assms(1) e(2) by (simp add: db_consistent_def)
  then show ?thesis
    using assms(2) ev(1) e by (simp add: store_FindTransfer_def Let_def utc TransferredEventRoot_def)
qed

definition empty_db :: resp_db where
  "empty_db = \<lparr>db_snapshots = Map.empty, db_handovers = [], db_ledger = []\<rparr>"

lemma empty_db_custody: "store.all_custody empty_db"
  by (simp add: store.all_custody_def empty_db_def db_consistent_def custody_def db_events_def handover_at_def
      fun_eq_iff)

end
