(* ===== verification/Safety.thy ===== *)
theory Safety
  imports Responsibility_Store
begin

text \<open>
  The handover safety machine (\<open>src/safety/machine.go\<close>) and its motion interlock
  (\<open>src/safety/interlock.go\<close>). The machine holds its view of the responsibility for one object and
  commits a handover through the responsibility service. The lemmas give the machine's invariant over
  every sequence of commands and what an authorised motion presupposes.

  The pair \<open>verifiedPermit\<close>, \<open>hasVerifiedPermit\<close> is an option; nil receivers are not modelled.
\<close>

section \<open>Definitions\<close>

datatype SafetyState =
  StateIdle | StateProposed | StateVerified | StateCommitted | StateRejected | StateHalt

datatype Reason =
    ReasonNone | ReasonInvalidTransition | ReasonInvalidEvidence | ReasonEvidenceExpired
  | ReasonAuthorizationBinding | ReasonConcurrentChange | ReasonCommitFailed | ReasonManualHalt
  | ReasonMotionStateBlocked | ReasonOther string

datatype safety_error =
  ErrInvalidTransition | ErrInvalidPermit | ErrServiceRequired | ErrResponsibility responsibility_error

record Permit =
  pm_ObjectID :: PhysicalObjectID
  pm_FromParticipantID :: ParticipantID
  pm_ToParticipantID :: ParticipantID
  pm_PolicyID :: string
  pm_PolicyVersion :: string
  pm_EvidenceVersion :: string
  pm_EvaluatedAt :: time
  pm_ValidUntil :: time
  pm_Admissible :: bool

record Machine =
  mc_state :: SafetyState
  mc_reason :: Reason
  mc_responsibility :: resp_Snapshot
  mc_proposed :: ParticipantID
  mc_permit :: "Permit option"

definition NewMachine :: "resp_Snapshot \<Rightarrow> responsibility_error + Machine" where
  "NewMachine current =
     (case resp_Rehydrate current of
        Inl err \<Rightarrow> Err err
      | Inr a \<Rightarrow> Ok \<lparr>mc_state = StateIdle, mc_reason = ReasonNone, mc_responsibility = agg_Snapshot a,
          mc_proposed = [], mc_permit = None\<rparr>)"

record safety_Snapshot =
  ss_State :: SafetyState
  ss_Reason :: Reason
  ss_Responsibility :: resp_Snapshot
  ss_ProposedParticipant :: ParticipantID

definition machine_Snapshot :: "Machine \<Rightarrow> safety_Snapshot" where
  "machine_Snapshot m = \<lparr>ss_State = mc_state m, ss_Reason = mc_reason m,
     ss_Responsibility = mc_responsibility m, ss_ProposedParticipant = mc_proposed m\<rparr>"

definition MotionAllowed :: "Machine \<Rightarrow> bool" where
  "MotionAllowed m \<longleftrightarrow> mc_state m = StateIdle \<or> mc_state m = StateVerified \<or> mc_state m = StateCommitted"

definition clearVerifiedPermit :: "Machine \<Rightarrow> Machine" where
  "clearVerifiedPermit m = m\<lparr>mc_permit := None\<rparr>"

definition enterHalt :: "Reason \<Rightarrow> Machine \<Rightarrow> Machine" where
  "enterHalt reason m = (clearVerifiedPermit (m\<lparr>mc_proposed := []\<rparr>))\<lparr>mc_state := StateHalt, mc_reason := reason\<rparr>"

definition validatePermit :: "Permit \<Rightarrow> time \<Rightarrow> ParticipantID \<Rightarrow> Machine \<Rightarrow> Reason" where
  "validatePermit p now to m =
     (if IsZero now \<or> \<not> pm_Admissible p \<or> TrimSpace (pm_PolicyID p) = [] \<or>
         TrimSpace (pm_PolicyVersion p) = [] \<or> TrimSpace (pm_EvidenceVersion p) = [] \<or>
         IsZero (pm_EvaluatedAt p) \<or> IsZero (pm_ValidUntil p)
      then ReasonInvalidEvidence
      else if pm_ObjectID p \<noteq> rs_ObjectID (mc_responsibility m) \<or>
         pm_FromParticipantID p \<noteq> rs_ParticipantID (mc_responsibility m) \<or> pm_ToParticipantID p \<noteq> to
      then ReasonAuthorizationBinding
      else let now = UTC now in
        if After (pm_EvaluatedAt p) now \<or> After now (pm_ValidUntil p) \<or> Before (pm_ValidUntil p) (pm_EvaluatedAt p)
        then ReasonEvidenceExpired else ReasonNone)"

definition Propose :: "ParticipantID \<Rightarrow> Machine \<Rightarrow> Machine \<times> safety_error option" where
  "Propose to m =
     (if mc_state m \<noteq> StateIdle \<and> mc_state m \<noteq> StateCommitted then (m, Some ErrInvalidTransition)
      else if NewParticipantID to \<noteq> Ok to \<or> to = rs_ParticipantID (mc_responsibility m)
      then (m\<lparr>mc_state := StateRejected, mc_reason := ReasonInvalidTransition\<rparr>, Some ErrInvalidTransition)
      else ((clearVerifiedPermit m)\<lparr>mc_proposed := to, mc_state := StateProposed, mc_reason := ReasonNone\<rparr>, None))"

definition Verify :: "Permit \<Rightarrow> time \<Rightarrow> Machine \<Rightarrow> Machine \<times> safety_error option" where
  "Verify p now m =
     (if mc_state m \<noteq> StateProposed then (m, Some ErrInvalidTransition)
      else let reason = validatePermit p now (mc_proposed m) m in
        if reason \<noteq> ReasonNone then (enterHalt reason m, Some ErrInvalidPermit)
        else (m\<lparr>mc_permit := Some (p\<lparr>pm_EvaluatedAt := UTC (pm_EvaluatedAt p), pm_ValidUntil := UTC (pm_ValidUntil p)\<rparr>),
                mc_state := StateVerified, mc_reason := ReasonNone\<rparr>, None))"

text \<open>\<open>Commit\<close> with a service over the repository \<open>repo\<close>, or without one; \<open>s\<close> is the repository's state.\<close>

definition Commit ::
  "'s resp_repo option \<Rightarrow> time \<Rightarrow> Machine \<Rightarrow> 's \<Rightarrow> Machine \<times> 's \<times> (safety_error + resp_Snapshot)" where
  "Commit service committedAt m s =
     (if mc_state m \<noteq> StateVerified then (m, s, Err ErrInvalidTransition)
      else case service of
        None \<Rightarrow> (enterHalt ReasonCommitFailed m, s, Err ErrServiceRequired)
      | Some repo \<Rightarrow>
          (case TransferExpected repo (mc_responsibility m) (mc_proposed m) committedAt s of
             (s', Inl err) \<Rightarrow>
               (enterHalt (if resp_Is err ErrConcurrentModification then ReasonConcurrentChange
                           else ReasonCommitFailed) m,
                s', Err (ErrResponsibility err))
           | (s', Inr updated) \<Rightarrow>
               ((clearVerifiedPermit (m\<lparr>mc_responsibility := updated, mc_proposed := []\<rparr>))
                  \<lparr>mc_state := StateCommitted, mc_reason := ReasonNone\<rparr>, s', Ok updated)))"

definition Halt :: "Reason \<Rightarrow> Machine \<Rightarrow> Machine" where
  "Halt reason m = enterHalt (if reason = ReasonNone then ReasonManualHalt else reason) m"

definition Recover :: "Permit \<Rightarrow> time \<Rightarrow> Machine \<Rightarrow> Machine \<times> safety_error option" where
  "Recover p now m =
     (if mc_state m \<noteq> StateHalt then (m, Some ErrInvalidTransition)
      else let reason = validatePermit p now (rs_ParticipantID (mc_responsibility m)) m in
        if reason \<noteq> ReasonNone then (m\<lparr>mc_reason := reason\<rparr>, Some ErrInvalidPermit)
        else ((clearVerifiedPermit (m\<lparr>mc_proposed := []\<rparr>))\<lparr>mc_state := StateIdle, mc_reason := ReasonNone\<rparr>, None))"

record MotionRequest =
  mr_CommandID :: string
  mr_Sequence :: u64
  mr_ObjectID :: PhysicalObjectID
  mr_ResponsibleParticipant :: ParticipantID
  mr_TargetParticipant :: ParticipantID

record MotionDecision =
  md_Allowed :: bool
  md_Reason :: Reason
  md_State :: SafetyState
  md_CommandID :: string
  md_Sequence :: u64
  md_ObjectID :: PhysicalObjectID
  md_ResponsibleParticipant :: ParticipantID
  md_TargetParticipant :: ParticipantID
  md_PolicyID :: string
  md_PolicyVersion :: string
  md_EvidenceVersion :: string
  md_ValidUntil :: time

definition blocked :: "Machine \<Rightarrow> SafetyState \<Rightarrow> Reason \<Rightarrow> MotionDecision" where
  "blocked m st reason =
     \<lparr>md_Allowed = False, md_Reason = reason, md_State = st, md_CommandID = [], md_Sequence = 0,
      md_ObjectID = rs_ObjectID (mc_responsibility m),
      md_ResponsibleParticipant = rs_ParticipantID (mc_responsibility m),
      md_TargetParticipant = mc_proposed m, md_PolicyID = [], md_PolicyVersion = [],
      md_EvidenceVersion = [], md_ValidUntil = zero_time\<rparr>"

definition AuthorizeMotion :: "MotionRequest \<Rightarrow> time \<Rightarrow> Machine \<Rightarrow> Machine \<times> MotionDecision" where
  "AuthorizeMotion rq now m =
     (case mc_permit m of
        None \<Rightarrow> (m, blocked m (mc_state m) ReasonMotionStateBlocked)
      | Some p \<Rightarrow>
          if mc_state m \<noteq> StateVerified then (m, blocked m (mc_state m) ReasonMotionStateBlocked)
          else if TrimSpace (mr_CommandID rq) = [] \<or> mr_CommandID rq \<noteq> TrimSpace (mr_CommandID rq) \<or>
             mr_Sequence rq = 0 \<or> mr_ObjectID rq \<noteq> rs_ObjectID (mc_responsibility m) \<or>
             mr_ResponsibleParticipant rq \<noteq> rs_ParticipantID (mc_responsibility m) \<or>
             mr_TargetParticipant rq \<noteq> mc_proposed m
          then (enterHalt ReasonAuthorizationBinding m, blocked m StateHalt ReasonAuthorizationBinding)
          else let reason = validatePermit p now (mc_proposed m) m in
            if reason \<noteq> ReasonNone then (enterHalt reason m, blocked m StateHalt reason)
            else (m, \<lparr>md_Allowed = True, md_Reason = ReasonNone, md_State = StateVerified,
                      md_CommandID = mr_CommandID rq, md_Sequence = mr_Sequence rq,
                      md_ObjectID = mr_ObjectID rq,
                      md_ResponsibleParticipant = mr_ResponsibleParticipant rq,
                      md_TargetParticipant = mr_TargetParticipant rq, md_PolicyID = pm_PolicyID p,
                      md_PolicyVersion = pm_PolicyVersion p, md_EvidenceVersion = pm_EvidenceVersion p,
                      md_ValidUntil = pm_ValidUntil p\<rparr>))"

section \<open>Invariant\<close>

text \<open>
  A permit is held exactly in the state \<open>VERIFIED\<close>, and then it is admissible and bound to the object,
  its responsible participant and the proposed one; a proposal always names another participant.
\<close>

definition safety_ok :: "Machine \<Rightarrow> bool" where
  "safety_ok m \<longleftrightarrow>
     (mc_state m = StateProposed \<or> mc_state m = StateVerified \<longrightarrow>
        NewParticipantID (mc_proposed m) = Ok (mc_proposed m) \<and>
        mc_proposed m \<noteq> rs_ParticipantID (mc_responsibility m)) \<and>
     (case mc_permit m of
        None \<Rightarrow> mc_state m \<noteq> StateVerified
      | Some p \<Rightarrow> mc_state m = StateVerified \<and> pm_Admissible p \<and>
          pm_ObjectID p = rs_ObjectID (mc_responsibility m) \<and>
          pm_FromParticipantID p = rs_ParticipantID (mc_responsibility m) \<and>
          pm_ToParticipantID p = mc_proposed m \<and> \<not> Before (pm_ValidUntil p) (pm_EvaluatedAt p))"

lemma validatePermit_None:
  "validatePermit p now to m = ReasonNone \<longleftrightarrow>
     \<not> IsZero now \<and> pm_Admissible p \<and> TrimSpace (pm_PolicyID p) \<noteq> [] \<and>
     TrimSpace (pm_PolicyVersion p) \<noteq> [] \<and> TrimSpace (pm_EvidenceVersion p) \<noteq> [] \<and>
     \<not> IsZero (pm_EvaluatedAt p) \<and> \<not> IsZero (pm_ValidUntil p) \<and>
     pm_ObjectID p = rs_ObjectID (mc_responsibility m) \<and>
     pm_FromParticipantID p = rs_ParticipantID (mc_responsibility m) \<and> pm_ToParticipantID p = to \<and>
     \<not> After (pm_EvaluatedAt p) now \<and> \<not> After now (pm_ValidUntil p) \<and>
     \<not> Before (pm_ValidUntil p) (pm_EvaluatedAt p)"
  by (auto simp: validatePermit_def Let_def)

lemma enterHalt_simps [simp]:
  "mc_state (enterHalt r m) = StateHalt" "mc_permit (enterHalt r m) = None" "mc_reason (enterHalt r m) = r"
  "mc_proposed (enterHalt r m) = []" "mc_responsibility (enterHalt r m) = mc_responsibility m"
  by (simp_all add: enterHalt_def clearVerifiedPermit_def)

lemma enterHalt_ok [simp]: "safety_ok (enterHalt r m)"
  by (simp add: safety_ok_def)

lemma NewMachine_ok: "NewMachine n = Ok m \<Longrightarrow> safety_ok m"
  by (auto simp: NewMachine_def safety_ok_def split: sum.splits)

lemma Propose_ok: "safety_ok m \<Longrightarrow> safety_ok (fst (Propose to m))"
  by (auto simp: Propose_def safety_ok_def clearVerifiedPermit_def split: option.splits)

lemma Verify_ok: "safety_ok m \<Longrightarrow> safety_ok (fst (Verify p now m))"
proof (cases "mc_state m = StateProposed \<and> validatePermit p now (mc_proposed m) m = ReasonNone")
  case True
  moreover assume "safety_ok m"
  ultimately show ?thesis
    using validatePermit_None [of p now "mc_proposed m" m] by (simp add: Verify_def safety_ok_def)
qed (auto simp: Verify_def Let_def)

lemma Recover_ok: "safety_ok m \<Longrightarrow> safety_ok (fst (Recover p now m))"
  by (auto simp: Recover_def Let_def safety_ok_def clearVerifiedPermit_def split: option.splits)

lemma AuthorizeMotion_ok: "safety_ok m \<Longrightarrow> safety_ok (fst (AuthorizeMotion rq now m))"
  by (auto simp: AuthorizeMotion_def Let_def split: option.split)

lemma Commit_ok: "safety_ok m \<Longrightarrow> safety_ok (fst (Commit service at m s))"
  by (auto simp: Commit_def safety_ok_def clearVerifiedPermit_def split: option.splits prod.splits sum.splits)

text \<open>The machine and its repository under any command.\<close>

datatype safety_command =
    MPropose ParticipantID
  | MVerify Permit time
  | MCommit time
  | MHalt Reason
  | MRecover Permit time
  | MAuthorize MotionRequest time
  | MRepository custody_command

fun safety_exec ::
  "'s resp_repo \<Rightarrow> safety_command \<Rightarrow> Machine \<times> 's \<Rightarrow> (Machine \<times> 's) \<times> safety_error option" where
  "safety_exec repo (MPropose to) (m, s) = ((fst (Propose to m), s), snd (Propose to m))"
| "safety_exec repo (MVerify p now) (m, s) = ((fst (Verify p now m), s), snd (Verify p now m))"
| "safety_exec repo (MCommit at) (m, s) = (case Commit (Some repo) at m s of
     (m', s', res) \<Rightarrow> ((m', s'), case res of Inl err \<Rightarrow> Some err | Inr _ \<Rightarrow> None))"
| "safety_exec repo (MHalt r) (m, s) = ((Halt r m, s), None)"
| "safety_exec repo (MRecover p now) (m, s) = ((fst (Recover p now m), s), snd (Recover p now m))"
| "safety_exec repo (MAuthorize rq now) (m, s) = ((fst (AuthorizeMotion rq now m), s), None)"
| "safety_exec repo (MRepository c) (m, s) =
     ((m, fst (custody_exec repo c s)), map_option ErrResponsibility (snd (custody_exec repo c s)))"

lemma safety_ok_run: "safety_ok m \<Longrightarrow> safety_ok (fst (run (safety_exec repo) cs (m, s)))"
proof (induction cs arbitrary: m s)
  case (Cons c cs)
  have "safety_ok (fst (fst (safety_exec repo c (m, s))))"
    using Cons.prems Commit_ok [OF Cons.prems, of "Some repo"]
    by (cases c) (auto simp: Propose_ok Verify_ok Recover_ok AuthorizeMotion_ok Halt_def split: prod.split, metis fst_conv)
  then show ?case using Cons.IH [of "fst (fst (safety_exec repo c (m, s)))"] by (metis prod.collapse run.simps(2))
qed simp

text \<open>
  A machine is \<open>VERIFIED\<close> only by a successful verification, and any command that leaves it \<open>VERIFIED\<close>
  leaves it unchanged; it leaves \<open>HALT\<close> only by a successful recovery.
\<close>

lemma verified_step:
  assumes "mc_state (fst (fst (safety_exec repo c (m, s)))) = StateVerified"
  shows "(mc_state m = StateVerified \<and> fst (fst (safety_exec repo c (m, s))) = m) \<or>
    (\<exists>p t. c = MVerify p t \<and> mc_state m = StateProposed \<and> validatePermit p t (mc_proposed m) m = ReasonNone)"
proof (cases c)
  case (MCommit at)
  have "mc_state (fst (Commit (Some repo) at m s)) = StateVerified \<Longrightarrow> False"
    by (auto simp: Commit_def clearVerifiedPermit_def split: prod.splits sum.splits if_splits)
  then show ?thesis using MCommit assms by (auto split: prod.splits)
qed (use assms in \<open>auto simp: Propose_def Verify_def Halt_def Recover_def AuthorizeMotion_def Let_def
      clearVerifiedPermit_def split: if_splits option.splits\<close>)

lemma verified_origin:
  assumes "mc_state m\<^sub>0 \<noteq> StateVerified"
    and "mc_state (fst (run (safety_exec repo) cs (m\<^sub>0, s\<^sub>0))) = StateVerified"
  shows "\<exists>as p t bs m. cs = as @ MVerify p t # bs \<and> m = fst (run (safety_exec repo) as (m\<^sub>0, s\<^sub>0)) \<and>
    mc_state m = StateProposed \<and> validatePermit p t (mc_proposed m) m = ReasonNone \<and>
    fst (run (safety_exec repo) cs (m\<^sub>0, s\<^sub>0)) = fst (Verify p t m)"
  using assms(2)
proof (induction cs rule: rev_induct)
  case Nil
  then show ?case using assms(1) by simp
next
  case (snoc c cs)
  obtain m s where ms: "run (safety_exec repo) cs (m\<^sub>0, s\<^sub>0) = (m, s)" by force
  then have "mc_state (fst (fst (safety_exec repo c (m, s)))) = StateVerified" using snoc.prems by simp
  from verified_step [OF this] show ?case
  proof (elim disjE exE conjE)
    assume "mc_state m = StateVerified" and same: "fst (fst (safety_exec repo c (m, s))) = m"
    then obtain as p t bs m1 where "cs = as @ MVerify p t # bs" "m1 = fst (run (safety_exec repo) as (m\<^sub>0, s\<^sub>0))"
      "mc_state m1 = StateProposed" "validatePermit p t (mc_proposed m1) m1 = ReasonNone" "m = fst (Verify p t m1)"
      using snoc.IH ms by auto
    then show ?thesis using ms same by (intro exI [of _ as] exI [of _ p] exI [of _ t] exI [of _ "bs @ [c]"] exI [of _ m1]) simp
  next
    fix p t assume "c = MVerify p t" "mc_state m = StateProposed" "validatePermit p t (mc_proposed m) m = ReasonNone"
    then show ?thesis using ms by (intro exI [of _ cs] exI [of _ p] exI [of _ t] exI [of _ "[]"] exI [of _ m]) simp
  qed
qed

lemma halted_step:
  assumes "mc_state m = StateHalt"
  shows "(mc_state (fst (fst (safety_exec repo c (m, s)))) = StateHalt \<and>
      mc_responsibility (fst (fst (safety_exec repo c (m, s)))) = mc_responsibility m) \<or>
    (\<exists>p t. c = MRecover p t \<and> validatePermit p t (rs_ParticipantID (mc_responsibility m)) m = ReasonNone)"
  using assms by (cases c) (auto simp: Propose_def Verify_def Commit_def Halt_def Recover_def AuthorizeMotion_def Let_def
      clearVerifiedPermit_def split: option.splits)

lemma halt_left_by_recovery:
  assumes "mc_state m = StateHalt" "mc_state (fst (run (safety_exec repo) ds (m, s))) \<noteq> StateHalt"
  shows "\<exists>as p t bs m'. ds = as @ MRecover p t # bs \<and> m' = fst (run (safety_exec repo) as (m, s)) \<and>
    mc_state m' = StateHalt \<and> mc_responsibility m' = mc_responsibility m \<and>
    validatePermit p t (rs_ParticipantID (mc_responsibility m')) m' = ReasonNone"
  using assms
proof (induction ds arbitrary: m s)
  case (Cons c ds)
  obtain m1 s1 where m1: "fst (safety_exec repo c (m, s)) = (m1, s1)" by force
  from halted_step [OF Cons.prems(1), of repo c s] show ?case
  proof (elim disjE exE conjE)
    assume h: "mc_state (fst (fst (safety_exec repo c (m, s)))) = StateHalt"
      "mc_responsibility (fst (fst (safety_exec repo c (m, s)))) = mc_responsibility m"
    then obtain as p t bs m' where "ds = as @ MRecover p t # bs" "m' = fst (run (safety_exec repo) as (m1, s1))"
      "mc_state m' = StateHalt" "mc_responsibility m' = mc_responsibility m"
      "validatePermit p t (rs_ParticipantID (mc_responsibility m')) m' = ReasonNone"
      using Cons.IH [of m1 s1] Cons.prems(2) m1 by auto
    then show ?thesis using m1 by (intro exI [of _ "c # as"] exI [of _ p] exI [of _ t] exI [of _ bs] exI [of _ m']) simp
  next
    fix p t assume "c = MRecover p t" "validatePermit p t (rs_ParticipantID (mc_responsibility m)) m = ReasonNone"
    then show ?thesis using Cons.prems(1) by (intro exI [of _ "[]"] exI [of _ p] exI [of _ t] exI [of _ ds] exI [of _ m]) simp
  qed
qed simp

text \<open>What a successful commit presupposes and leaves, for any repository.\<close>

context responsibility_repository
begin

lemma Commit_spec:
  assumes s: "consistent s" and res: "Commit (Some repo) at m s = (m', s', r)"
  shows "case r of
      Inl err \<Rightarrow> s' = s \<and> (m' = m \<or> mc_state m' = StateHalt)
    | Inr n \<Rightarrow> mc_state m = StateVerified \<and> mc_state m' = StateCommitted \<and> mc_responsibility m' = n \<and>
        mc_permit m' = None \<and> consistent s' \<and>
        current s (rs_ObjectID (mc_responsibility m)) = Some ((mc_responsibility m)
          \<lparr>rs_AssignedAt := UTC (rs_AssignedAt (mc_responsibility m))\<rparr>) \<and>
        n = \<lparr>rs_ObjectID = rs_ObjectID (mc_responsibility m), rs_ParticipantID = mc_proposed m,
             rs_Version = rs_Version (mc_responsibility m) + 1, rs_AssignedAt = UTC at\<rparr> \<and>
        current s' = (current s)(rs_ObjectID n \<mapsto> n\<lparr>rs_AssignedAt := stamp (UTC at)\<rparr>) \<and>
        handovers s' (rs_ObjectID n) (rs_Version n) = Some \<lparr>tr_ObjectID = rs_ObjectID n,
          tr_FromParticipantID = rs_ParticipantID (mc_responsibility m), tr_ToParticipantID = mc_proposed m,
          tr_TransferredAt = stamp (UTC at), tr_Version = rs_Version n\<rparr>"
proof (cases "mc_state m = StateVerified")
  case False
  then show ?thesis using res by (auto simp: Commit_def)
next
  case True
  obtain s1 r1 where te: "TransferExpected repo (mc_responsibility m) (mc_proposed m) at s = (s1, r1)" by force
  show ?thesis
  proof (cases r1)
    case (Inl err)
    have "s1 = s"
    proof (cases rule: TransferExpected_cases [OF s te])
      case 2
      then show ?thesis using service_Transfer_spec [OF s 2(2)] Inl by simp
    qed
    then show ?thesis using res te Inl True by (auto simp: Commit_def)
  next
    case (Inr n)
    have m': "r = Ok n" "s' = s1" "mc_state m' = StateCommitted" "mc_responsibility m' = n" "mc_permit m' = None"
      using res te Inr True by (auto simp: Commit_def clearVerifiedPermit_def)
    show ?thesis
    proof (cases rule: TransferExpected_cases [OF s te])
      case (1 err)
      then show ?thesis using Inr by simp
    next
      case 2
      then show ?thesis using service_Transfer_spec [OF s 2(2)] Inr m' True by auto
    qed
  qed
qed

lemma TransferExpected_custody:
  assumes "all_custody s"
  shows "all_custody (fst (TransferExpected repo n to at s))"
  using custody_step [OF assms, of "CTransferExpected n to at"] by (simp add: only_error_def)

lemma safety_step:
  assumes "safety_ok (fst ms) \<and> all_custody (snd ms)"
  shows "safety_ok (fst (fst (safety_exec repo c ms))) \<and> all_custody (snd (fst (safety_exec repo c ms)))"
proof -
  obtain m s where ms: "ms = (m, s)" by force
  have ok: "safety_ok m" "all_custody s" using assms ms by simp_all
  show ?thesis
  proof (cases c)
    case (MCommit at)
    obtain m' s' r where res: "Commit (Some repo) at m s = (m', s', r)" by (cases "Commit (Some repo) at m s") auto
    have "all_custody s'"
      using res TransferExpected_custody [OF ok(2), of "mc_responsibility m" "mc_proposed m" at] ok(2)
      by (auto simp: Commit_def split: if_splits prod.splits sum.splits)
    then show ?thesis using MCommit ms res Commit_ok [OF ok(1), of "Some repo" at s] by simp
  qed (use ms ok in \<open>simp_all add: Propose_ok Verify_ok Recover_ok AuthorizeMotion_ok Halt_def custody_step\<close>)
qed

end

sublocale responsibility_repository < safety: machine "safety_exec repo" "\<lambda>ms. safety_ok (fst ms) \<and> all_custody (snd ms)"
  by unfold_locales (rule safety_step)

end
