(* ===== verification/Handover_Properties.thy ===== *)
theory Handover_Properties
  imports Safety
begin

text \<open>
  The properties of the audit ledger, of responsibility transfers with both repositories, and of the
  safety machine that guards a handover.
\<close>

section \<open>The audit ledger\<close>

definition sample_root :: bytes where "sample_root = replicate 32 1"

definition sample_entry :: Entry where
  "sample_entry = projr (NewEntry 1 RecordEvaluation zero_root sample_root (Time 5000 0))"

lemma sample_kind: "kind_IsValid RecordEvaluation" "kind_IsValid RecordResponsibilityHandover"
  by (simp_all add: kind_IsValid_def RecordEvaluation_def RecordResponsibilityHandover_def RecordEvidenceBundle_def)

lemma sample_root_simps [simp]: "sample_root \<noteq> zero_root" "length sample_root = 32" "length zero_root = 32"
  by (simp_all add: sample_root_def zero_root_def)

lemma sample_NewEntry: "NewEntry 1 RecordEvaluation zero_root sample_root (Time 5000 0) = Ok sample_entry"
  by (simp add: sample_entry_def NewEntry_def sample_kind IsZero_def)

lemma sample_entry_fields:
  "Sequence sample_entry = 1" "PreviousRoot sample_entry = zero_root" "RecordRoot sample_entry = sample_root"
  "Kind sample_entry = RecordEvaluation" "sealed sample_entry" "length (Root sample_entry) = 32"
  "en_OccurredAt sample_entry = Time 5000 0"
proof -
  note s = NewEntry_sealed [OF sample_NewEntry]
  then show "Sequence sample_entry = 1" "PreviousRoot sample_entry = zero_root"
    "RecordRoot sample_entry = sample_root" "Kind sample_entry = RecordEvaluation" "sealed sample_entry" by blast+
  show "length (Root sample_entry) = 32" using s by (simp add: sealed_def calculateRoot_def)
  show "en_OccurredAt sample_entry = Time 5000 0"
    by (simp add: sample_entry_def NewEntry_def sample_kind IsZero_def UTC_def truncate_micro_def)
qed

lemma sample_admitted: "ledger_admits sample_entry []"
  by (simp add: ledger_admits_def sample_entry_fields sample_kind max_sequence_def)

lemma sample_ledger:
  "run ledger_exec [LAppend sample_entry] [] = [sample_entry]"
  "run ledger_exec [LNext RecordEvaluation sample_root (Time 5000 0)] [] = [sample_entry]"
proof -
  have "entry_Validate sample_entry = None"
    using sample_entry_fields(5,7) by (simp add: entry_Validate_iff IsZero_def)
  then show "run ledger_exec [LAppend sample_entry] [] = [sample_entry]"
    by (simp add: AppendAuditEntry_def auditHeadLocked_def insertAuditEntry_def sample_admitted
        sample_entry_fields max_sequence_def)
  show "run ledger_exec [LNext RecordEvaluation sample_root (Time 5000 0)] [] = [sample_entry]"
    by (simp add: append_next_def nextAuditEntryLocked_def auditHeadLocked_def sample_NewEntry
        insertAuditEntry_def sample_admitted)
qed

lemma chained_nth:
  "chained l \<Longrightarrow> i < length l \<Longrightarrow> Sequence (l ! i) = of_nat (i + 1) \<and>
     PreviousRoot (l ! i) = (if i = 0 then zero_root else Root (l ! (i - 1))) \<and>
     Root (l ! i) = calculateRoot (l ! i)"
proof (induction l rule: rev_induct)
  case (snoc e l)
  then have e: "sealed e" "Sequence e = of_nat (length l + 1)"
    "PreviousRoot e = (if l = [] then zero_root else Root (last l))" "chained l"
    unfolding chained_snoc by blast+
  show ?case
  proof (cases "i < length l")
    case True
    then show ?thesis using snoc.IH e(4) by (cases i) (simp_all add: nth_append)
  next
    case False
    then have i: "i = length l" using snoc.prems by simp
    show ?thesis
      using e by (cases "l = []") (simp_all add: i nth_append last_conv_nth sealed_def)
  qed
qed simp

text \<open>
  C23. Whatever sequence of appends runs, succeeding or failing, the ledger is append-only and stays a chain: entry number
  \<open>i\<close> has sequence \<open>i + 1\<close>, refers to the root of its predecessor, and carries the root of its own contents.
\<close>

theorem ledger_chain:
  assumes "i < length (run ledger_exec cs [])"
  shows "prefix (run ledger_exec cs []) (run ledger_exec (cs @ ds) []) \<and>
    Sequence (run ledger_exec cs [] ! i) = of_nat (i + 1) \<and>
    PreviousRoot (run ledger_exec cs [] ! i) =
      (if i = 0 then zero_root else Root (run ledger_exec cs [] ! (i - 1))) \<and>
    Root (run ledger_exec cs [] ! i) = calculateRoot (run ledger_exec cs [] ! i)"
  using chained_nth [OF ledger.run_inv [OF chained_Nil] assms] ledger.run_le [OF ledger.run_inv [OF chained_Nil]]
  by simp

theorem ledger_chain_witness:
  "Root (run ledger_exec [LAppend sample_entry] [] ! 0) = calculateRoot sample_entry"
  using ledger_chain [of 0 "[LAppend sample_entry]" "[]"] sample_ledger(1) by simp

text \<open>
  C24. The head root fixes the whole ledger: two ledgers built by any appends, with times a \<open>TIMESTAMPTZ\<close> column can hold, whose last
  entries have the same root are equal, unless SHA-256 maps two different preimages of their entries to the same digest.
\<close>

theorem ledger_tamper_evident:
  assumes "storable (run ledger_exec cs [])" "storable (run ledger_exec ds [])"
    and "run ledger_exec cs [] \<noteq> []" "run ledger_exec ds [] \<noteq> []"
    and "Root (last (run ledger_exec cs [])) = Root (last (run ledger_exec ds []))"
    and "inj_on sha256 (preimage ` (set (run ledger_exec cs []) \<union> set (run ledger_exec ds [])))"
  shows "run ledger_exec cs [] = run ledger_exec ds []"
proof -
  let ?l = "run ledger_exec cs []" and ?m = "run ledger_exec ds []"
  have "chained ?l" "chained ?m" by (rule ledger.run_inv [OF chained_Nil])+
  then have "rev ?l = rev ?m"
    using assms by (intro chained_rev_determined)
      (simp_all add: chained_def storable_def collision_free_def hd_rev)
  then show ?thesis by simp
qed

theorem ledger_tamper_evident_witness:
  "run ledger_exec [LAppend sample_entry] [] =
   run ledger_exec [LNext RecordEvaluation sample_root (Time 5000 0)] []"
proof (rule ledger_tamper_evident)
  show "storable (run ledger_exec [LAppend sample_entry] [])"
    "storable (run ledger_exec [LNext RecordEvaluation sample_root (Time 5000 0)] [])"
    unfolding sample_ledger by (simp_all add: storable_def sample_entry_fields micro_range_def unix_epoch_def)
qed (simp_all only: sample_ledger, simp_all)

section \<open>Responsibility\<close>

definition sample_assignment :: resp_Snapshot where
  "sample_assignment = \<lparr>rs_ObjectID = ''box'', rs_ParticipantID = ''A'', rs_Version = 1, rs_AssignedAt = Time 1000 0\<rparr>"

definition sample_assigned :: MemoryRepository where
  "sample_assigned = run (custody_exec memory_repo) [CAssign sample_assignment] NewMemoryRepository"

lemma sample_validate:
  "validateObjectID ''box'' = None" "validateParticipantID ''A'' = None" "validateParticipantID ''B'' = None"
  by (simp_all add: validateObjectID_def validateParticipantID_def graphic_def)

lemma sample_assigned_eq: "sample_assigned = \<lparr>snapshots = [''box'' \<mapsto> sample_assignment], transfers = Map.empty\<rparr>"
  by (simp add: sample_assigned_def memory_repo_def mem_SaveResponsibility_def sample_assignment_def
      NewMemoryRepository_def normalizedSnapshot_def resp_Rehydrate_def agg_Snapshot_def
      validateSnapshot_def sample_validate IsZero_def UTC_def Let_def)






text \<open>
  C26. In a repository reached by any assignments and transfers, the service transfers an object exactly when the new participant is a
  well-formed other participant, the time is later than the current assignment, and the version counter is not exhausted. A
  successful transfer changes only this object's snapshot and adds its event; a refused one changes nothing.
\<close>

theorem transfer_exact:
  assumes "m = run (custody_exec memory_repo) cs NewMemoryRepository" "snapshots m i = Some n"
  shows "let n' = \<lparr>rs_ObjectID = i, rs_ParticipantID = to, rs_Version = rs_Version n + 1, rs_AssignedAt = UTC at\<rparr>;
      e = \<lparr>tr_ObjectID = i, tr_FromParticipantID = rs_ParticipantID n, tr_ToParticipantID = to,
           tr_TransferredAt = UTC at, tr_Version = rs_Version n + 1\<rparr>
    in if to \<noteq> [] \<and> TrimSpace to = to \<and> to \<noteq> rs_ParticipantID n \<and> \<not> IsZero at \<and>
          After at (rs_AssignedAt n) \<and> rs_Version n \<noteq> - 1
       then service_Transfer memory_repo i to at m =
         (m\<lparr>snapshots := (snapshots m)(i \<mapsto> n'), transfers := (transfers m)((i, rs_Version n + 1) \<mapsto> e)\<rparr>, Ok n')
       else \<exists>err. service_Transfer memory_repo i to at m = (m, Err err)"
  (is "let n' = ?n'; e = ?e in if ?ok then _ else _")
proof -
  have all: "mem.all_custody m" unfolding assms(1) by (rule mem.custody.run_inv [OF NewMemoryRepository_custody])
  then have cons: "mem_consistent m" and c: "custody (Some n) (mem_handovers m i)"
    using assms(2) by (auto simp: mem.all_custody_def dest: spec [of _ i])
  have n: "validateSnapshot n = None" "UTC (rs_AssignedAt n) = rs_AssignedAt n" "rs_ObjectID n = i"
    using cons assms(2) by (simp_all add: mem_consistent_def)
  obtain a where a: "resp_Rehydrate n = Ok a" "agg_Snapshot a = n" using Rehydrate_valid [OF n(1,2)] by blast
  have fields: "ra_objectID a = i" "ra_participantID a = rs_ParticipantID n" "ra_version a = rs_Version n"
    "ra_assignedAt a = rs_AssignedAt n" using a(2) n(3) by (auto simp: agg_Snapshot_def)
  have svc: "service_Transfer memory_repo i to at m = transferLoaded memory_repo a to at m"
    using valid_snapshot_object [OF n(1)] n(3) assms(2) a
    by (simp add: service_Transfer_def memory_repo_def mem_FindResponsibility_def)
  show ?thesis
  proof (cases "snd (agg_Transfer to at a) = None")
    case True
    then obtain a' where tr: "agg_Transfer to at a = (a', None)" by (metis eq_snd_iff)
    have cond: "to \<noteq> []" "TrimSpace to = to" "to \<noteq> rs_ParticipantID n" "\<not> IsZero at" "After at (rs_AssignedAt n)"
      using tr fields by (auto simp: agg_Transfer_def validateParticipantID_def Let_def split: if_splits option.splits)
    have "resp_Rehydrate (agg_Snapshot a) = Ok a" using a by simp
    from agg_Transfer_Ok [OF tr this, unfolded fields] obtain ev where pend: "PendingTransfer a' = Some ev"
      and evf: "tr_ObjectID ev = i" "tr_FromParticipantID ev = rs_ParticipantID n" "tr_ToParticipantID ev = to"
        "tr_TransferredAt ev = UTC at" "tr_Version ev = rs_Version n + 1"
      and n': "agg_Snapshot a' = ?n'"
      and V: "rs_Version n \<noteq> - 1 \<longrightarrow> ValidateTransferCommit (agg_Snapshot a') (rs_Version n) ev = Ok (agg_Snapshot a')"
      by blast
    have "ev = ?e" using evf by (cases ev) simp
    then have ev: "PendingTransfer a' = Some ?e" and V: "rs_Version n \<noteq> - 1 \<Longrightarrow>
        ValidateTransferCommit ?n' (rs_Version n) ?e = Ok ?n'" using pend V n' by auto
    have load: "transferLoaded memory_repo a to at m =
        (case mem_CommitTransfer ?n' (rs_Version n) ?e m of
           (s', Some err) \<Rightarrow> (s', Err err) | (s', None) \<Rightarrow> (s', Ok ?n'))"
      using tr ev n' a(2) by (simp add: transferLoaded_def memory_repo_def)
    show ?thesis
    proof (cases "rs_Version n = - 1")
      case True
      then have "\<exists>err. mem_CommitTransfer ?n' (rs_Version n) ?e m = (m, Some err)"
        by (simp add: mem_CommitTransfer_def ValidateTransferCommit_def normalizedSnapshot_def resp_Rehydrate_def
            validateSnapshot_def)
      then show ?thesis using svc load True by auto
    next
      case False
      have "transfers m (i, rs_Version n + 1) = None"
        using c u64_succ(2) [of "rs_Version n"] False
        by (auto simp: custody_def mem_handovers_def add_eq_0_iff2 dest: spec [of _ "rs_Version n + 1"])
      then have "mem_CommitTransfer ?n' (rs_Version n) ?e m =
          (m\<lparr>snapshots := (snapshots m)(i \<mapsto> ?n'), transfers := (transfers m)((i, rs_Version n + 1) \<mapsto> ?e)\<rparr>, None)"
        using V [OF False] assms(2) cond(5) by (simp add: mem_CommitTransfer_def)
      then show ?thesis using svc load cond False by simp
    qed
  next
    case False
    then obtain a' err where "agg_Transfer to at a = (a', Some err)" by (cases "agg_Transfer to at a") auto
    moreover from this have "\<not> ?ok"
      using fields by (auto simp: agg_Transfer_def validateParticipantID_def Let_def split: if_splits option.splits)
    ultimately show ?thesis using svc by (simp add: transferLoaded_def)
  qed
qed

theorem transfer_exact_witness:
  "snd (service_Transfer memory_repo ''box'' ''B'' (Time 2000 0) sample_assigned) =
     Ok \<lparr>rs_ObjectID = ''box'', rs_ParticipantID = ''B'', rs_Version = 2, rs_AssignedAt = Time 2000 0\<rparr> \<and>
   fst (service_Transfer memory_repo ''box'' ''A'' (Time 2000 0) sample_assigned) = sample_assigned"
  using transfer_exact [OF sample_assigned_def, where i = "''box''" and n = sample_assignment and to = "''B''" and at = "Time 2000 0"]
    transfer_exact [OF sample_assigned_def, where i = "''box''" and n = sample_assignment and to = "''A''" and at = "Time 2000 0"]
  by (auto simp: sample_assigned_eq sample_assignment_def graphic_def IsZero_def After_def UTC_def Let_def)

section \<open>The PostgreSQL tables\<close>

text \<open>
  C27. Start from empty tables and let any assignments, transfers, claims, publications and lock releases run, each succeeding
  or failing, first \<open>cs\<close> and then \<open>ds\<close>. Every handover stored after \<open>cs\<close>, unless its time is the zero time, is found
  after \<open>ds\<close> with the same content, checked against the record root of its ledger entry; the ledger has only
  grown and is a chain, and the delivery record of a published handover is final.
\<close>

theorem handover_audited:
  "let db = run store_exec cs empty_db; db' = run store_exec ds db in
   prefix (db_ledger db) (db_ledger db') \<and> chained (db_ledger db') \<and>
   (case handover_at (db_handovers db) (i, v) of
      None \<Rightarrow> True
    | Some r \<Rightarrow>
        (\<exists>r'. handover_at (db_handovers db') (i, v) = Some r' \<and> hr_event r' = hr_event r \<and> hr_attempts r \<le> hr_attempts r' \<and>
           (if hr_status r = DeliveryPublished then r' = r else True)) \<and>
        (if IsZero (tr_TransferredAt (hr_event r)) then True else store_FindTransfer i v db' = Ok (hr_event r)))"
proof -
  let ?db = "run store_exec cs empty_db" and ?db' = "run store_exec ds (run store_exec cs empty_db)"
  have inv: "store.all_custody ?db" by (rule tables.run_inv [OF empty_db_custody])
  have db': "db_consistent ?db'" and le: "db_le ?db ?db'"
    using tables.run_inv [OF inv] tables.run_le [OF inv] by (simp_all add: store.all_custody_def)
  show ?thesis
  proof (cases "handover_at (db_handovers ?db) (i, v)")
    case None
    then show ?thesis using le db' by (simp add: db_le_def db_consistent_def)
  next
    case (Some r)
    obtain r' where r': "handover_at (db_handovers ?db') (i, v) = Some r'" "row_le r r'"
      using db_le_handover [OF le Some] by blast
    then have ev: "hr_event r' = hr_event r" by (simp add: row_le_def)
    have "IsZero (tr_TransferredAt (hr_event r)) \<or> store_FindTransfer i v ?db' = Ok (hr_event r)"
      using FindTransfer_stored [OF db' r'(1)] unfolding ev by blast
    then show ?thesis using Some r' le db' by (auto simp: row_le_def db_le_def db_consistent_def Let_def)
  qed
qed

text \<open>
  C28. A snapshot saved into PostgreSQL with a time that is not a whole number of microseconds is not the snapshot the table
  holds: the next transfer that expects the saved snapshot is refused as a concurrent modification, although nobody else
  has written.
\<close>

theorem stored_snapshot_differs:
  assumes "store_SaveResponsibility n v db = (db', None)"
    and "1000 \<le> instant (rs_AssignedAt n)" "instant (rs_AssignedAt n) mod 1000 \<noteq> 0"
  shows "TransferExpected store_repo n to at db' = (db', Err ErrConcurrentModification)"
proof (cases rule: store_SaveResponsibility_cases [of n v db])
  case (error err)
  then show ?thesis using assms(1) by simp
next
  case (save n')
  let ?row = "n'\<lparr>rs_AssignedAt := timestamptz (rs_AssignedAt n')\<rparr>"
  have n': "n' = n\<lparr>rs_AssignedAt := UTC (rs_AssignedAt n)\<rparr>" "validateSnapshot n' = None"
    using normalizedSnapshot_Ok [OF save(1)] by blast+
  have t: "instant (timestamptz (rs_AssignedAt n)) \<noteq> instant (rs_AssignedAt n)" "\<not> IsZero (timestamptz (rs_AssignedAt n))"
    using assms(2,3) div_mult_mod_eq [of "instant (rs_AssignedAt n)" 1000]
    by (auto simp: timestamptz_def truncate_micro_def UTC_def IsZero_def zdiv_eq_0_iff)
  have row: "validateSnapshot ?row = None" "validateObjectID (rs_ObjectID n) = None"
    using n' t(2) by (auto simp: validateSnapshot_def split: if_splits option.splits)
  have "db_snapshots db' (rs_ObjectID n) = Some ?row" using save(3) assms(1) n'(1) by auto
  then have find: "repo_FindResponsibility store_repo (rs_ObjectID n) db' = resp_Rehydrate ?row"
    using row(2) by (simp add: store_repo_def store_FindResponsibility_def valid_object_id)
  obtain a where a: "resp_Rehydrate ?row = Ok a" "agg_Snapshot a = ?row" using Rehydrate_valid [OF row(1)] by auto
  obtain b where b: "resp_Rehydrate n' = Ok b" "agg_Snapshot b = n'" using Rehydrate_valid [OF n'(2)] n'(1) by auto
  have "resp_Rehydrate n = Ok b" using b(1) n'(1) by (simp add: resp_Rehydrate_def)
  moreover have "instant (rs_AssignedAt ?row) \<noteq> instant (rs_AssignedAt n')" using t(1) n'(1) by simp
  then have "?row \<noteq> n'" by fastforce
  ultimately show ?thesis using find a b n'(1) by (simp add: TransferExpected_def Let_def)
qed

theorem stored_snapshot_differs_witness:
  "TransferExpected store_repo (sample_assignment\<lparr>rs_AssignedAt := Time 1001 0\<rparr>) ''B'' (Time 2000 0)
     (fst (store_SaveResponsibility (sample_assignment\<lparr>rs_AssignedAt := Time 1001 0\<rparr>) 0 empty_db)) =
   (fst (store_SaveResponsibility (sample_assignment\<lparr>rs_AssignedAt := Time 1001 0\<rparr>) 0 empty_db), Err ErrConcurrentModification)"
proof (rule stored_snapshot_differs)
  show "store_SaveResponsibility (sample_assignment\<lparr>rs_AssignedAt := Time 1001 0\<rparr>) 0 empty_db =
    (fst (store_SaveResponsibility (sample_assignment\<lparr>rs_AssignedAt := Time 1001 0\<rparr>) 0 empty_db), None)"
    by (simp add: store_SaveResponsibility_def sample_assignment_def empty_db_def normalizedSnapshot_def
        resp_Rehydrate_def validateSnapshot_def sample_validate agg_Snapshot_def IsZero_def max_bigint_def Let_def)
qed simp_all

section \<open>The safety machine\<close>

definition sample_permit :: Permit where
  "sample_permit = \<lparr>pm_ObjectID = ''box'', pm_FromParticipantID = ''A'', pm_ToParticipantID = ''B'', pm_PolicyID = ''p'',
     pm_PolicyVersion = ''v'', pm_EvidenceVersion = ''e'', pm_EvaluatedAt = Time 1100 0, pm_ValidUntil = Time 1500 0,
     pm_Admissible = True\<rparr>"

definition sample_machine :: Machine where
  "sample_machine = \<lparr>mc_state = StateIdle, mc_reason = ReasonNone, mc_responsibility = sample_assignment,
     mc_proposed = [], mc_permit = None\<rparr>"

definition sample_request :: MotionRequest where
  "sample_request = \<lparr>mr_CommandID = ''c'', mr_Sequence = 1, mr_ObjectID = ''box'', mr_ResponsibleParticipant = ''A'',
     mr_TargetParticipant = ''B''\<rparr>"

lemma sample_NewMachine: "NewMachine sample_assignment = Ok sample_machine"
  by (simp add: NewMachine_def resp_Rehydrate_def validateSnapshot_def sample_assignment_def sample_validate
      sample_machine_def agg_Snapshot_def IsZero_def UTC_def Let_def)

lemma sample_verified:
  "run (safety_exec memory_repo) [MPropose ''B'', MVerify sample_permit (Time 1200 0)] (sample_machine, m) =
   (sample_machine\<lparr>mc_proposed := ''B'', mc_state := StateVerified, mc_permit := Some sample_permit\<rparr>, m)"
  by (simp add: Propose_def Verify_def sample_machine_def sample_assignment_def NewParticipantID_def graphic_def
      validatePermit_def sample_permit_def clearVerifiedPermit_def IsZero_def After_def Before_def UTC_def Let_def)

text \<open>
  C29. For any repository and any history of a new machine: a motion is authorised only on the strength of one successful
  verification in that history. Its permit was admissible, named exactly the requested object, its responsible participant
  and another target participant; both the verification and the motion lie within the permit's validity; and the machine
  has not changed since.
\<close>

theorem motion_needs_verification:
  assumes "NewMachine n = Ok m\<^sub>0" "run (safety_exec repo) cs (m\<^sub>0, s\<^sub>0) = (m, s)"
    and "md_Allowed (snd (AuthorizeMotion rq now m))"
  shows "\<exists>as p t bs. cs = as @ MVerify p t # bs \<and>
    fst (run (safety_exec repo) (as @ [MVerify p t]) (m\<^sub>0, s\<^sub>0)) = m \<and> fst (AuthorizeMotion rq now m) = m \<and>
    pm_Admissible p \<and> pm_ObjectID p = mr_ObjectID rq \<and> pm_FromParticipantID p = mr_ResponsibleParticipant rq \<and>
    pm_ToParticipantID p = mr_TargetParticipant rq \<and> mr_TargetParticipant rq \<noteq> mr_ResponsibleParticipant rq \<and>
    instant (pm_EvaluatedAt p) \<le> instant t \<and> instant t \<le> instant (pm_ValidUntil p) \<and>
    instant (pm_EvaluatedAt p) \<le> instant now \<and> instant now \<le> instant (pm_ValidUntil p)"
proof -
  have m\<^sub>0: "mc_state m\<^sub>0 \<noteq> StateVerified" using assms(1) by (auto simp: NewMachine_def split: sum.splits)
  have st: "mc_state m = StateVerified" and same: "fst (AuthorizeMotion rq now m) = m"
    and rq: "mr_ObjectID rq = rs_ObjectID (mc_responsibility m)"
      "mr_ResponsibleParticipant rq = rs_ParticipantID (mc_responsibility m)" "mr_TargetParticipant rq = mc_proposed m"
    and pm: "\<exists>q. mc_permit m = Some q \<and> validatePermit q now (mc_proposed m) m = ReasonNone"
    using assms(3) by (auto simp: AuthorizeMotion_def blocked_def Let_def split: option.splits if_splits)
  obtain as p t bs m1 where cs: "cs = as @ MVerify p t # bs" "m1 = fst (run (safety_exec repo) as (m\<^sub>0, s\<^sub>0))"
    and v: "mc_state m1 = StateProposed" "validatePermit p t (mc_proposed m1) m1 = ReasonNone" "m = fst (Verify p t m1)"
    using verified_origin [OF m\<^sub>0, of repo cs s\<^sub>0] assms(2) st by auto
  have m: "mc_responsibility m = mc_responsibility m1" "mc_proposed m = mc_proposed m1"
    "mc_permit m = Some (p\<lparr>pm_EvaluatedAt := UTC (pm_EvaluatedAt p), pm_ValidUntil := UTC (pm_ValidUntil p)\<rparr>)"
    using v by (simp_all add: Verify_def)
  have at: "fst (run (safety_exec repo) (as @ [MVerify p t]) (m\<^sub>0, s\<^sub>0)) = m"
    using cs(2) v(3) by (cases "run (safety_exec repo) as (m\<^sub>0, s\<^sub>0)") simp
  have "instant (pm_EvaluatedAt p) \<le> instant now \<and> instant now \<le> instant (pm_ValidUntil p)"
    using pm m(3) by (auto simp: validatePermit_None After_def)
  moreover have "mr_TargetParticipant rq \<noteq> mr_ResponsibleParticipant rq"
    using safety_ok_run [OF NewMachine_ok [OF assms(1)], of repo cs s\<^sub>0] st rq by (simp add: assms(2) safety_ok_def)
  moreover have "pm_Admissible p \<and> pm_ObjectID p = mr_ObjectID rq \<and> pm_FromParticipantID p = mr_ResponsibleParticipant rq \<and>
    pm_ToParticipantID p = mr_TargetParticipant rq \<and> instant (pm_EvaluatedAt p) \<le> instant t \<and> instant t \<le> instant (pm_ValidUntil p)"
    using rq m(1,2) v(2) by (simp add: validatePermit_None After_def)
  ultimately show ?thesis using cs(1) at same by blast
qed

theorem motion_needs_verification_witness:
  "\<exists>as p t bs. [MPropose ''B'', MVerify sample_permit (Time 1200 0)] = as @ MVerify p t # bs \<and> pm_ObjectID p = ''box''"
proof -
  have "md_Allowed (snd (AuthorizeMotion sample_request (Time 1400 0)
      (sample_machine\<lparr>mc_proposed := ''B'', mc_state := StateVerified, mc_permit := Some sample_permit\<rparr>)))"
    by (simp add: AuthorizeMotion_def sample_machine_def sample_request_def sample_assignment_def sample_permit_def
        validatePermit_def graphic_def IsZero_def After_def Before_def UTC_def Let_def)
  from motion_needs_verification [OF sample_NewMachine sample_verified [of NewMemoryRepository] this]
  show ?thesis by (auto simp: sample_request_def)
qed

text \<open>
  C30. Fail-closed: a halted machine stays halted, with the responsibility it had, under every command and whatever happens in
  the repository, until a recovery with an admissible permit that names its object and its responsible participant
  as both parties, within the permit's validity.
\<close>

theorem halt_until_recovery:
  assumes "mc_state m = StateHalt" "mc_state (fst (run (safety_exec repo) ds (m, s))) \<noteq> StateHalt"
  shows "\<exists>as p t bs. ds = as @ MRecover p t # bs \<and>
    mc_state (fst (run (safety_exec repo) as (m, s))) = StateHalt \<and>
    mc_responsibility (fst (run (safety_exec repo) as (m, s))) = mc_responsibility m \<and>
    pm_Admissible p \<and> pm_ObjectID p = rs_ObjectID (mc_responsibility m) \<and>
    pm_FromParticipantID p = rs_ParticipantID (mc_responsibility m) \<and>
    pm_ToParticipantID p = rs_ParticipantID (mc_responsibility m) \<and>
    instant (pm_EvaluatedAt p) \<le> instant t \<and> instant t \<le> instant (pm_ValidUntil p)"
proof -
  obtain as p t bs where "ds = as @ MRecover p t # bs"
    and h: "mc_state (fst (run (safety_exec repo) as (m, s))) = StateHalt"
      "mc_responsibility (fst (run (safety_exec repo) as (m, s))) = mc_responsibility m"
    and v: "validatePermit p t (rs_ParticipantID (mc_responsibility m)) (fst (run (safety_exec repo) as (m, s))) = ReasonNone"
    using halt_left_by_recovery [OF assms] by auto
  moreover have "pm_Admissible p \<and> pm_ObjectID p = rs_ObjectID (mc_responsibility m) \<and>
    pm_FromParticipantID p = rs_ParticipantID (mc_responsibility m) \<and>
    pm_ToParticipantID p = rs_ParticipantID (mc_responsibility m) \<and>
    instant (pm_EvaluatedAt p) \<le> instant t \<and> instant t \<le> instant (pm_ValidUntil p)"
    using v by (simp add: validatePermit_None After_def h(2))
  ultimately show ?thesis by blast
qed

theorem halt_until_recovery_witness:
  "\<exists>as p t bs. [MPropose ''B'', MRecover (sample_permit\<lparr>pm_ToParticipantID := ''A''\<rparr>) (Time 1200 0)] = as @ MRecover p t # bs \<and>
     pm_ToParticipantID p = ''A''"
proof -
  have "mc_state (fst (run (safety_exec memory_repo)
      [MPropose ''B'', MRecover (sample_permit\<lparr>pm_ToParticipantID := ''A''\<rparr>) (Time 1200 0)]
      (Halt ReasonNone sample_machine, NewMemoryRepository))) \<noteq> StateHalt"
    by (simp add: Propose_def Recover_def Halt_def sample_machine_def sample_assignment_def validatePermit_def sample_permit_def
        clearVerifiedPermit_def graphic_def IsZero_def After_def Before_def UTC_def Let_def)
  from halt_until_recovery [OF _ this] show ?thesis by (auto simp: Halt_def sample_machine_def sample_assignment_def)
qed

text \<open>
  C31. For a new machine over an in-memory repository with any history on both sides: a committed handover was
  verified in the machine's history by an admissible permit for exactly this object and these participants; the repository's
  participant was the permitted one, the repository now names the permitted successor with the next version, and it
  records the handover event.
\<close>

theorem commit_was_permitted:
  assumes "NewMachine n = Ok m\<^sub>0" "s\<^sub>0 = run (custody_exec memory_repo) cs\<^sub>0 NewMemoryRepository"
    and "run (safety_exec memory_repo) cs (m\<^sub>0, s\<^sub>0) = (m, s)" "Commit (Some memory_repo) at m s = (m', s', Ok n')"
  shows "\<exists>p t cur. MVerify p t \<in> set cs \<and> pm_Admissible p \<and> snapshots s (pm_ObjectID p) = Some cur \<and>
    rs_ParticipantID cur = pm_FromParticipantID p \<and> pm_ToParticipantID p \<noteq> pm_FromParticipantID p \<and>
    n' = \<lparr>rs_ObjectID = pm_ObjectID p, rs_ParticipantID = pm_ToParticipantID p, rs_Version = rs_Version cur + 1,
          rs_AssignedAt = UTC at\<rparr> \<and>
    snapshots s' = (snapshots s)(pm_ObjectID p \<mapsto> n') \<and> mc_responsibility m' = n' \<and> mc_state m' = StateCommitted \<and>
    transfers s' (pm_ObjectID p, rs_Version n') = Some \<lparr>tr_ObjectID = pm_ObjectID p,
      tr_FromParticipantID = pm_FromParticipantID p, tr_ToParticipantID = pm_ToParticipantID p,
      tr_TransferredAt = UTC at, tr_Version = rs_Version n'\<rparr>"
proof -
  have "mem.all_custody s\<^sub>0" unfolding assms(2) by (rule mem.custody.run_inv [OF NewMemoryRepository_custody])
  then have "safety_ok (fst (m\<^sub>0, s\<^sub>0)) \<and> mem.all_custody (snd (m\<^sub>0, s\<^sub>0))" using NewMachine_ok [OF assms(1)] by simp
  from mem.safety.run_inv [OF this, of cs] have ok: "safety_ok m" and s: "mem_consistent s"
    by (simp_all add: assms(3) mem.all_custody_def)
  note c = mem.Commit_spec [OF s assms(4)]
  have st: "mc_state m = StateVerified" using c by simp
  have m\<^sub>0: "mc_state m\<^sub>0 \<noteq> StateVerified" using assms(1) by (auto simp: NewMachine_def split: sum.splits)
  obtain as p t bs m1 where cs: "cs = as @ MVerify p t # bs"
    and v: "mc_state m1 = StateProposed" "validatePermit p t (mc_proposed m1) m1 = ReasonNone" "m = fst (Verify p t m1)"
    using verified_origin [OF m\<^sub>0, of memory_repo cs s\<^sub>0] assms(3) st by auto
  have "mc_responsibility m = mc_responsibility m1" "mc_proposed m = mc_proposed m1" using v by (simp_all add: Verify_def)
  then have p: "pm_Admissible p" "rs_ObjectID (mc_responsibility m) = pm_ObjectID p"
    "rs_ParticipantID (mc_responsibility m) = pm_FromParticipantID p" "mc_proposed m = pm_ToParticipantID p"
    using v(2) by (simp_all add: validatePermit_None)
  have "pm_ToParticipantID p \<noteq> pm_FromParticipantID p" using ok st p by (simp add: safety_ok_def)
  moreover have "MVerify p t \<in> set cs" using cs by simp
  ultimately show ?thesis using c p by (auto simp: mem_handovers_def)
qed

lemma sample_expected:
  assumes "1000 < k"
  shows "\<exists>s'. TransferExpected memory_repo sample_assignment ''B'' (Time k 0) sample_assigned =
    (s', Ok \<lparr>rs_ObjectID = ''box'', rs_ParticipantID = ''B'', rs_Version = 2, rs_AssignedAt = Time k 0\<rparr>)"
  using assms
  by (simp add: TransferExpected_def sample_assigned_eq memory_repo_def mem_FindResponsibility_def
      sample_validate sample_assignment_def resp_Rehydrate_def validateSnapshot_def IsZero_def UTC_def
      transferLoaded_def agg_Transfer_def agg_Snapshot_def PendingTransfer_def After_def Let_def
      mem_CommitTransfer_def ValidateTransferCommit_def normalizedSnapshot_def time_Equal_def
      validateTransferredEvent_def)

lemma sample_Commit:
  assumes "1000 < k"
  shows "\<exists>m' s'. Commit (Some memory_repo) (Time k 0)
      (sample_machine\<lparr>mc_proposed := ''B'', mc_state := StateVerified, mc_permit := Some sample_permit\<rparr>) sample_assigned =
    (m', s', Ok \<lparr>rs_ObjectID = ''box'', rs_ParticipantID = ''B'', rs_Version = 2, rs_AssignedAt = Time k 0\<rparr>)"
  using sample_expected [OF assms] by (auto simp: Commit_def sample_machine_def)

theorem commit_was_permitted_witness:
  "\<exists>p t cur. MVerify p t \<in> set [MPropose ''B'', MVerify sample_permit (Time 1200 0)] \<and>
     snapshots sample_assigned (pm_ObjectID p) = Some cur \<and> rs_ParticipantID cur = pm_FromParticipantID p"
proof -
  obtain m' s' where "Commit (Some memory_repo) (Time 1400 0)
      (sample_machine\<lparr>mc_proposed := ''B'', mc_state := StateVerified, mc_permit := Some sample_permit\<rparr>) sample_assigned =
    (m', s', Ok \<lparr>rs_ObjectID = ''box'', rs_ParticipantID = ''B'', rs_Version = 2, rs_AssignedAt = Time 1400 0\<rparr>)"
    using sample_Commit [of 1400] by auto
  from commit_was_permitted [OF sample_NewMachine sample_assigned_def sample_verified this] show ?thesis by blast
qed



end
