(* ===== verification/Json_Lexer.thy ===== *)
theory Json_Lexer
  imports Go_Prelude
begin

text \<open>
  The lexical part of Go's \<open>encoding/json\<close>: UTF-8, string literals and their escapes, numbers, and the
  tokens of a JSON text. Strings are byte strings; bytes that are not UTF-8 are replaced by the replacement
  rune, by the encoder (\<open>quote\<close>, the package's \<open>appendString\<close>) and by the decoder (\<open>unquote\<close>). A number
  keeps its text, as a \<open>json.Number\<close> does. The lemmas show that a literal read back is the one written.
\<close>

section \<open>UTF-8\<close>

text \<open>
  The length of the multi-byte rune at the head of a string, \<open>None\<close> where \<open>utf8.DecodeRune\<close> reports an
  encoding error of one byte.
\<close>

abbreviation cont :: "char \<Rightarrow> bool" where
  "cont \<equiv> char_range (CHR 0x80) (CHR 0xBF)"

definition second_ok :: "char \<Rightarrow> char \<Rightarrow> bool" where
  "second_ok a b \<longleftrightarrow>
     char_range (if a = CHR 0xE0 then CHR 0xA0 else if a = CHR 0xF0 then CHR 0x90 else CHR 0x80)
       (if a = CHR 0xED then CHR 0x9F else if a = CHR 0xF4 then CHR 0x8F else CHR 0xBF) b"

definition rune_length :: "string \<Rightarrow> nat option" where
  "rune_length s =
     (case s of
        a # b # s' \<Rightarrow>
          if \<not> second_ok a b then None
          else if char_range (CHR 0xC2) (CHR 0xDF) a then Some 2
          else (case s' of
              c # s'' \<Rightarrow>
                if \<not> cont c then None
                else if char_range (CHR 0xE0) (CHR 0xEF) a then Some 3
                else (case s'' of
                    d # _ \<Rightarrow> if cont d \<and> char_range (CHR 0xF0) (CHR 0xF4) a then Some 4 else None
                  | [] \<Rightarrow> None)
            | [] \<Rightarrow> None)
      | _ \<Rightarrow> None)"

abbreviation ascii :: "char \<Rightarrow> bool" where "ascii c \<equiv> c < CHR 0x80"

lemma rune_length_bounds: "rune_length s = Some n \<Longrightarrow> 2 \<le> n \<and> n \<le> length s"
  by (auto simp: rune_length_def split: list.splits if_splits)

lemma rune_length_append: "rune_length s = Some n \<Longrightarrow> rune_length (s @ r) = Some n"
  by (auto simp: rune_length_def split: list.splits if_splits)

lemma rune_length_take: "rune_length s = Some n \<Longrightarrow> rune_length (take n s @ r) = Some n"
  by (auto simp: rune_length_def split: list.splits if_splits)

text \<open>\<open>utf8.EncodeRune\<close> for a Unicode scalar value.\<close>

definition EncodeRune :: "nat \<Rightarrow> string" where
  "EncodeRune n =
     (if n < 0x80 then [char_of n]
      else if n < 0x800 then [char_of (0xC0 + n div 64), char_of (0x80 + n mod 64)]
      else if n < 0x10000 then
        [char_of (0xE0 + n div 4096), char_of (0x80 + n div 64 mod 64), char_of (0x80 + n mod 64)]
      else [char_of (0xF0 + n div 262144), char_of (0x80 + n div 4096 mod 64),
            char_of (0x80 + n div 64 mod 64), char_of (0x80 + n mod 64)])"

definition RuneError :: string where "RuneError = [CHR 0xEF, CHR 0xBF, CHR 0xBD]"

definition scalar :: "nat \<Rightarrow> bool" where
  "scalar n \<longleftrightarrow> n < 0x110000 \<and> \<not> (0xD800 \<le> n \<and> n < 0xE000)"

text \<open>A string of whole runes.\<close>

function valid_utf8 :: "string \<Rightarrow> bool" where
  "valid_utf8 s =
     (case s of
        [] \<Rightarrow> True
      | c # r \<Rightarrow> if ascii c then valid_utf8 r
          else (case rune_length s of None \<Rightarrow> False | Some n \<Rightarrow> valid_utf8 (drop n s)))"
  by pat_completeness auto
termination by (relation "measure length") (auto dest: rune_length_bounds)

declare valid_utf8.simps [simp del]

lemma valid_utf8_simps [simp]:
  "valid_utf8 []"
  "ascii c \<Longrightarrow> valid_utf8 (c # s) = valid_utf8 s"
  by (subst valid_utf8.simps, simp)+

lemma valid_utf8_rune:
  assumes "\<not> ascii (hd s)" "rune_length s = Some n"
  shows "valid_utf8 s = valid_utf8 (drop n s)"
proof -
  obtain c r where "s = c # r" using assms(2) by (cases s) (auto simp: rune_length_def)
  then show ?thesis using assms by (subst valid_utf8.simps) simp
qed

lemma valid_utf8_append: "valid_utf8 s \<Longrightarrow> valid_utf8 r \<Longrightarrow> valid_utf8 (s @ r)"
proof (induction s rule: valid_utf8.induct)
  case (1 s)
  show ?case
  proof (cases s)
    case Nil
    then show ?thesis using 1 by simp
  next
    case (Cons c t)
    show ?thesis
    proof (cases "ascii c")
      case True
      then show ?thesis using 1 Cons by simp
    next
      case False
      then obtain n where n: "rune_length s = Some n" "valid_utf8 (drop n s)"
        using 1(3) Cons by (subst (asm) valid_utf8.simps) (auto split: option.splits)
      have "valid_utf8 (drop n s @ r)" using 1(2) [OF Cons False n(1)] n(2) 1(4) by simp
      moreover have "drop n (s @ r) = drop n s @ r" using rune_length_bounds [OF n(1)] by simp
      ultimately show ?thesis
        using valid_utf8_rune [of "s @ r" n] rune_length_append [OF n(1)] False Cons by simp
    qed
  qed
qed

lemma char_of_le:
  "char_of m \<le> c \<longleftrightarrow> m mod 256 \<le> (of_char c :: nat)" "c \<le> char_of m \<longleftrightarrow> (of_char c :: nat) \<le> m mod 256"
  "char_of m < c \<longleftrightarrow> m mod 256 < (of_char c :: nat)"
  by (simp_all add: less_eq_char_def less_char_def of_char_of)

lemma char_of_eq: "char_of m = c \<longleftrightarrow> m mod 256 = (of_char c :: nat)"
  by (metis char_of_char of_char_of)

lemmas char_arith = char_of_le char_of_eq

lemma rune_length_EncodeRune:
  assumes "scalar n" "0x80 \<le> n"
  shows "rune_length (EncodeRune n) = Some (length (EncodeRune n)) \<and> \<not> ascii (hd (EncodeRune n))"
proof -
  have m: "k mod 64 \<le> 63" for k :: nat by presburger
  consider "n < 0x800" | "0x800 \<le> n" "n < 0x10000" | "0x10000 \<le> n" by linarith
  then show ?thesis
  proof cases
    case 1
    have "2 \<le> n div 64" "n div 64 < 32" using assms 1 by simp_all
    then show ?thesis
      using assms 1 by (simp add: rune_length_def EncodeRune_def second_ok_def char_arith)
  next
    case 2
    define a b where "a = n div 4096" and "b = n div 64 mod 64"
    have "a < 16" using 2 by (simp add: a_def)
    moreover have "n div 64 = a * 64 + b"
      using div_mult2_eq [of n 64 64] div_mult_mod_eq [of "n div 64" 64] by (simp add: a_def b_def)
    ultimately have "a = 0 \<longrightarrow> 32 \<le> b" "a = 13 \<longrightarrow> b \<le> 31" "b < 64"
      using 2 assms(1) by (auto simp: scalar_def b_def)
    then show ?thesis
      using \<open>a < 16\<close> 2 m
      by (simp add: rune_length_def EncodeRune_def second_ok_def char_arith
          flip: a_def b_def)
  next
    case 3
    define a b where "a = n div 262144" and "b = n div 4096 mod 64"
    have "a < 5" using assms(1) unfolding a_def scalar_def by linarith
    moreover have "n div 4096 = a * 64 + b"
      using div_mult2_eq [of n 4096 64] div_mult_mod_eq [of "n div 4096" 64] by (simp add: a_def b_def)
    ultimately have "a = 0 \<longrightarrow> 16 \<le> b" "a = 4 \<longrightarrow> b \<le> 15" "b < 64"
      using 3 assms(1) by (auto simp: scalar_def b_def)
    then show ?thesis
      using \<open>a < 5\<close> 3 m
      by (simp add: rune_length_def EncodeRune_def second_ok_def char_arith
          flip: a_def b_def)
  qed
qed

lemma valid_utf8_EncodeRune: "scalar n \<Longrightarrow> valid_utf8 (EncodeRune n)"
proof (cases "n < 0x80")
  case True
  then show ?thesis by (simp add: EncodeRune_def less_char_def of_char_of)
next
  case False
  moreover assume "scalar n"
  ultimately have r: "rune_length (EncodeRune n) = Some (length (EncodeRune n))"
    "\<not> ascii (hd (EncodeRune n))"
    using rune_length_EncodeRune by auto
  show ?thesis using valid_utf8_rune [OF r(2,1)] by simp
qed


section \<open>Strings\<close>

text \<open>
  The body of an encoded string, without its quotes: \<open>appendString\<close> with the escaping of HTML characters
  on, as \<open>Marshal\<close> has it.
\<close>

definition hex4 :: "nat \<Rightarrow> string" where
  "hex4 n = map (\<lambda>d. ''0123456789abcdef'' ! (n div 16 ^ d mod 16)) [3, 2, 1, 0]"

definition backslash_u :: "nat \<Rightarrow> string" where
  "backslash_u n = [CHR 0x5C, CHR ''u''] @ hex4 n"

definition escape_ascii :: "char \<Rightarrow> string" where
  "escape_ascii c =
     (if c = CHR 0x5C \<or> c = CHR 0x22 then [CHR 0x5C, c]
      else if c = CHR 0x08 then [CHR 0x5C, CHR ''b'']
      else if c = CHR 0x0C then [CHR 0x5C, CHR ''f'']
      else if c = CHR 0x0A then [CHR 0x5C, CHR ''n'']
      else if c = CHR 0x0D then [CHR 0x5C, CHR ''r'']
      else if c = CHR 0x09 then [CHR 0x5C, CHR ''t'']
      else if c < CHR 0x20 \<or> c = CHR ''<'' \<or> c = CHR ''>'' \<or> c = CHR ''&'' then backslash_u (of_char c)
      else [c])"

function quote :: "string \<Rightarrow> string" where
  "quote s =
     (case s of
        [] \<Rightarrow> []
      | c # r \<Rightarrow> if ascii c then escape_ascii c @ quote r
          else (case rune_length s of
              None \<Rightarrow> backslash_u 0xFFFD @ quote r
            | Some n \<Rightarrow>
                (if take n s = [CHR 0xE2, CHR 0x80, CHR 0xA8] then backslash_u 0x2028
                 else if take n s = [CHR 0xE2, CHR 0x80, CHR 0xA9] then backslash_u 0x2029
                 else take n s) @ quote (drop n s)))"
  by pat_completeness auto
termination by (relation "measure length") (auto dest: rune_length_bounds)

declare quote.simps [simp del]

text \<open>
  \<open>getu4\<close> after the backslash and the \<open>u\<close>, and the body of a string literal: its decoded bytes and what
  follows the closing quote. A surrogate that is not the first half of a pair becomes the replacement rune,
  and so does every byte that is not UTF-8.
\<close>

definition hex_digit :: "char \<Rightarrow> nat option" where
  "hex_digit c =
     (if char_range (CHR ''0'') (CHR ''9'') c then Some (of_char c - 48)
      else if char_range (CHR ''a'') (CHR ''f'') c then Some (of_char c - 87)
      else if char_range (CHR ''A'') (CHR ''F'') c then Some (of_char c - 55)
      else None)"

fun getu4 :: "string \<Rightarrow> nat option" where
  "getu4 (a # b # c # d # _) =
     (case (hex_digit a, hex_digit b, hex_digit c, hex_digit d) of
        (Some i, Some j, Some k, Some l) \<Rightarrow> Some (((i * 16 + j) * 16 + k) * 16 + l)
      | _ \<Rightarrow> None)"
| "getu4 _ = None"

definition low_surrogate :: "string \<Rightarrow> nat option" where
  "low_surrogate s =
     (if take 2 s = [CHR 0x5C, CHR ''u'']
      then (case getu4 (drop 2 s) of
          Some n \<Rightarrow> if 0xDC00 \<le> n \<and> n < 0xE000 then Some n else None
        | None \<Rightarrow> None)
      else None)"

text \<open>The rune of a four-digit escape and the number of bytes after the \<open>u\<close> that it takes.\<close>

definition unescape_u :: "string \<Rightarrow> (string \<times> nat) option" where
  "unescape_u s =
     (case getu4 s of
        None \<Rightarrow> None
      | Some n \<Rightarrow>
          if 0xD800 \<le> n \<and> n < 0xE000 then
            (case low_surrogate (drop 4 s) of
               Some m \<Rightarrow> if n < 0xDC00
                 then Some (EncodeRune (0x10000 + (n - 0xD800) * 0x400 + (m - 0xDC00)), 10)
                 else Some (RuneError, 4)
             | None \<Rightarrow> Some (RuneError, 4))
          else Some (EncodeRune n, 4))"

definition unescape_char :: "char \<Rightarrow> char option" where
  "unescape_char c =
     (if c = CHR 0x22 \<or> c = CHR 0x5C \<or> c = CHR ''/'' then Some c
      else if c = CHR ''b'' then Some (CHR 0x08)
      else if c = CHR ''f'' then Some (CHR 0x0C)
      else if c = CHR ''n'' then Some (CHR 0x0A)
      else if c = CHR ''r'' then Some (CHR 0x0D)
      else if c = CHR ''t'' then Some (CHR 0x09)
      else None)"

definition prepend :: "string \<Rightarrow> (string \<times> 'r) option \<Rightarrow> (string \<times> 'r) option" where
  "prepend w x = (case x of None \<Rightarrow> None | Some (t, r) \<Rightarrow> Some (w @ t, r))"

function unquote :: "string \<Rightarrow> (string \<times> string) option" where
  "unquote s =
     (case s of
        [] \<Rightarrow> None
      | c # r \<Rightarrow>
          if c = CHR 0x22 then Some ([], r)
          else if c = CHR 0x5C then
            (case r of
               [] \<Rightarrow> None
             | e # r' \<Rightarrow>
                 if e = CHR ''u'' then
                   (case unescape_u r' of
                      None \<Rightarrow> None
                    | Some (w, n) \<Rightarrow> prepend w (unquote (drop n r')))
                 else (case unescape_char e of
                     None \<Rightarrow> None
                   | Some d \<Rightarrow> prepend [d] (unquote r')))
          else if c < CHR 0x20 then None
          else if ascii c then prepend [c] (unquote r)
          else (case rune_length s of
              None \<Rightarrow> prepend RuneError (unquote r)
            | Some n \<Rightarrow> prepend (take n s) (unquote (drop n s))))"
  by pat_completeness auto
termination by (relation "measure length") (auto dest: rune_length_bounds)

declare unquote.simps [simp del]

lemma unquote_simps [simp]:
  "unquote (CHR 0x22 # r) = Some ([], r)"
  "unquote (CHR 0x5C # CHR ''u'' # r) =
     (case unescape_u r of None \<Rightarrow> None | Some (w, n) \<Rightarrow> prepend w (unquote (drop n r)))"
  "e \<noteq> CHR ''u'' \<Longrightarrow> unquote (CHR 0x5C # e # r) =
     (case unescape_char e of None \<Rightarrow> None | Some d \<Rightarrow> prepend [d] (unquote r))"
  "c \<noteq> CHR 0x22 \<Longrightarrow> c \<noteq> CHR 0x5C \<Longrightarrow> \<not> c < CHR 0x20 \<Longrightarrow> ascii c \<Longrightarrow>
     unquote (c # r) = prepend [c] (unquote r)"
  by (subst unquote.simps, simp)+

lemma prepend_simps [simp]:
  "prepend w (Some (t, r)) = Some (w @ t, r)" "prepend w None = None"
  by (simp_all add: prepend_def)

lemma hex_digit_nth: "k < 16 \<Longrightarrow> hex_digit (''0123456789abcdef'' ! k) = Some k"
proof -
  have "list_all (\<lambda>k. hex_digit (''0123456789abcdef'' ! k) = Some k) [0..<16]" by code_simp
  then show "k < 16 \<Longrightarrow> ?thesis" by (simp add: list_all_iff)
qed

lemma getu4_hex4: "n < 65536 \<Longrightarrow> getu4 (hex4 n @ r) = Some n"
proof -
  assume n: "n < 65536"
  have "n div 4096 = n div 256 div 16" "n div 256 = n div 16 div 16"
    using div_mult2_eq [of n 256 16] div_mult2_eq [of n 16 16] by simp_all
  then have "((n div 4096 * 16 + n div 256 mod 16) * 16 + n div 16 mod 16) * 16 + n mod 16 = n"
    by (metis div_mult_mod_eq)
  moreover have "n div 4096 < 16" using n by simp
  ultimately show ?thesis by (simp add: hex4_def hex_digit_nth)
qed

lemma unquote_backslash_u:
  "n < 0xD800 \<Longrightarrow> unquote (backslash_u n @ r) = prepend (EncodeRune n) (unquote r)"
proof -
  assume n: "n < 0xD800"
  then have "unescape_u (hex4 n @ r) = Some (EncodeRune n, 4)"
    by (simp add: unescape_u_def getu4_hex4)
  moreover have "length (hex4 n) = 4" by (simp add: hex4_def)
  ultimately show ?thesis by (simp add: backslash_u_def)
qed

lemma unquote_escape_ascii: "ascii c \<Longrightarrow> unquote (escape_ascii c @ r) = prepend [c] (unquote r)"
proof -
  assume c: "ascii c"
  then have "EncodeRune (of_char c) = [c]"
    by (simp add: EncodeRune_def less_char_def)
  moreover have "(of_char c :: nat) < 0xD800" using c by (simp add: less_char_def)
  ultimately have "unquote (backslash_u (of_char c) @ r) = prepend [c] (unquote r)"
    by (simp add: unquote_backslash_u)
  then show ?thesis using c by (simp add: escape_ascii_def unescape_char_def)
qed

lemma unquote_rune:
  assumes "\<not> ascii (hd s)" "rune_length s = Some n"
  shows "unquote (take n s @ r) = prepend (take n s) (unquote r)"
proof -
  obtain c t where s: "s = c # t" using assms(2) by (cases s) (auto simp: rune_length_def)
  have l: "2 \<le> n" "n \<le> length s" using rune_length_bounds [OF assms(2)] by simp_all
  then obtain m where m: "n = Suc m" by (cases n) auto
  have "\<not> c < CHR 0x20" "c \<noteq> CHR 0x22" "c \<noteq> CHR 0x5C"
    using assms(1) s by (auto simp: less_char_def)
  then show ?thesis
    using assms s m l rune_length_take [OF assms(2), of r] by (subst unquote.simps) simp
qed

lemma unquote_quote: "valid_utf8 s \<Longrightarrow> unquote (quote s @ CHR 0x22 # r) = Some (s, r)"
proof (induction s rule: valid_utf8.induct)
  case (1 s)
  show ?case
  proof (cases s)
    case Nil
    then show ?thesis by (simp add: quote.simps)
  next
    case (Cons c t)
    show ?thesis
    proof (cases "ascii c")
      case True
      then have "quote s = escape_ascii c @ quote t" using Cons by (subst quote.simps) simp
      then show ?thesis using 1 Cons True by (simp add: unquote_escape_ascii)
    next
      case False
      then obtain n where n: "rune_length s = Some n" "valid_utf8 (drop n s)"
        using 1(3) Cons by (subst (asm) valid_utf8.simps) (auto split: option.splits)
      have IH: "unquote (quote (drop n s) @ CHR 0x22 # r) = Some (drop n s, r)"
        using 1(2) [OF Cons False n(1)] n(2) by simp
      have u: "unquote (w @ quote (drop n s) @ CHR 0x22 # r) = Some (s, r)"
        if "unquote (w @ quote (drop n s) @ CHR 0x22 # r) = prepend (take n s) (unquote (quote (drop n s) @ CHR 0x22 # r))" for w
        using that IH by simp
      have e: "EncodeRune 0x2028 = [CHR 0xE2, CHR 0x80, CHR 0xA8]" "EncodeRune 0x2029 = [CHR 0xE2, CHR 0x80, CHR 0xA9]"
        by (simp_all add: EncodeRune_def char_of_eq)
      obtain w where w: "quote s = w @ quote (drop n s)"
        "unquote (w @ quote (drop n s) @ CHR 0x22 # r) = prepend (take n s) (unquote (quote (drop n s) @ CHR 0x22 # r))"
      proof
        show "quote s = (if take n s = EncodeRune 0x2028 then backslash_u 0x2028
            else if take n s = EncodeRune 0x2029 then backslash_u 0x2029 else take n s) @ quote (drop n s)"
          using Cons False n(1) e by (subst quote.simps) (simp only: list.simps option.simps if_False)
        show "unquote ((if take n s = EncodeRune 0x2028 then backslash_u 0x2028
            else if take n s = EncodeRune 0x2029 then backslash_u 0x2029 else take n s) @
            quote (drop n s) @ CHR 0x22 # r) = prepend (take n s) (unquote (quote (drop n s) @ CHR 0x22 # r))"
          using unquote_backslash_u [of "0x2028"] unquote_backslash_u [of "0x2029"]
            unquote_rune [OF _ n(1)] Cons False by simp
      qed
      show ?thesis using u [OF w(2)] w(1) by simp
    qed
  qed
qed

lemma prepend_Some: "prepend w x = Some (t, r) \<longleftrightarrow> (\<exists>u. x = Some (u, r) \<and> t = w @ u)"
  by (auto simp: prepend_def split: option.splits)

lemma valid_utf8_RuneError: "valid_utf8 RuneError"
  by code_simp

lemma hex_digit_less: "hex_digit c = Some d \<Longrightarrow> d < 16"
  by (auto simp: hex_digit_def less_eq_char_def split: if_splits)

lemma getu4_bounds: "getu4 s = Some m \<Longrightarrow> 4 \<le> length s \<and> m < 65536"
proof (cases s rule: getu4.cases)
  case (1 a b c d r)
  assume "getu4 s = Some m"
  then obtain i j k l where "hex_digit a = Some i" "hex_digit b = Some j" "hex_digit c = Some k"
      "hex_digit d = Some l" and m: "m = ((i * 16 + j) * 16 + k) * 16 + l"
    using 1 by (auto split: option.splits)
  then have "i < 16" "j < 16" "k < 16" "l < 16" by (simp_all add: hex_digit_less)
  then show ?thesis using m 1 by simp
qed auto

lemma unescape_u_bounds:
  assumes "unescape_u s = Some (w, n)"
  shows "n \<le> length s" and "valid_utf8 w"
proof -
  obtain k where k: "getu4 s = Some k" using assms by (auto simp: unescape_u_def split: option.splits)
  note b = getu4_bounds [OF k]
  have "n \<le> length s \<and> valid_utf8 w"
  proof (cases "0xD800 \<le> k \<and> k < 0xE000")
    case False
    then show ?thesis using assms k b by (auto simp: unescape_u_def scalar_def intro!: valid_utf8_EncodeRune)
  next
    case True
    show ?thesis
    proof (cases "low_surrogate (drop 4 s)")
      case None
      then show ?thesis using assms k b True valid_utf8_RuneError by (auto simp: unescape_u_def)
    next
      case (Some m)
      then have m: "getu4 (drop 6 s) = Some m" "0xDC00 \<le> m" "m < 0xE000"
        by (auto simp: low_surrogate_def split: if_splits option.splits)
      have "k < 0xDC00 \<Longrightarrow> scalar (0x10000 + (k - 0xD800) * 0x400 + (m - 0xDC00))"
        using m True unfolding scalar_def by linarith
      then show ?thesis
        using assms k b True Some getu4_bounds [OF m(1)] valid_utf8_RuneError
        by (auto simp: unescape_u_def intro: valid_utf8_EncodeRune split: if_splits)
    qed
  qed
  then show "n \<le> length s" "valid_utf8 w" by simp_all
qed

lemma unescape_char_ascii: "unescape_char c = Some d \<Longrightarrow> ascii d"
  by (auto simp: unescape_char_def less_char_def split: if_splits)

lemma valid_utf8_take:
  "\<not> ascii (hd s) \<Longrightarrow> rune_length s = Some n \<Longrightarrow> valid_utf8 (take n s)"
  using valid_utf8_rune [of "take n s" n] rune_length_take [of s n "[]"] rune_length_bounds [of s n]
  by (cases s) (auto simp: take_Cons split: nat.splits)

lemma unquote_high:
  assumes "\<not> ascii c"
  shows "unquote (c # r) = (case rune_length (c # r) of
      None \<Rightarrow> prepend RuneError (unquote r)
    | Some n \<Rightarrow> prepend (take n (c # r)) (unquote (drop n (c # r))))"
proof -
  have "\<not> c < CHR 0x20" "c \<noteq> CHR 0x22" "c \<noteq> CHR 0x5C"
    using assms by (auto simp: less_char_def)
  then show ?thesis using assms by (subst unquote.simps) simp
qed

lemma unquote_valid: "unquote s = Some (t, r) \<Longrightarrow> valid_utf8 t \<and> length r < length s"
proof (induction "length s" arbitrary: s t rule: less_induct)
  case less
  have IH: "valid_utf8 w \<Longrightarrow> prepend w (unquote s') = Some (t, r) \<Longrightarrow> length s' < length s \<Longrightarrow>
      valid_utf8 t \<and> length r < length s" for w s'
    using less(1) [of s'] by (fastforce simp: prepend_Some intro: valid_utf8_append)
  obtain c s' where s: "s = c # s'" using less(2) by (cases s) (auto simp: unquote.simps)
  consider "c = CHR 0x22" | "c = CHR 0x5C" | "c \<noteq> CHR 0x22" "c \<noteq> CHR 0x5C" "ascii c" | "\<not> ascii c"
    by blast
  then show ?case
  proof cases
    case 1
    then show ?thesis using less(2) s by auto
  next
    case 2
    obtain e r' where e: "s' = e # r'" using less(2) s 2 by (cases s') (auto simp: unquote.simps)
    show ?thesis
    proof (cases "e = CHR ''u''")
      case True
      then obtain w n where "unescape_u r' = Some (w, n)" "prepend w (unquote (drop n r')) = Some (t, r)"
        using less(2) s 2 e by (auto split: option.splits)
      then show ?thesis using IH [of w "drop n r'"] unescape_u_bounds(2) s e by simp
    next
      case False
      then obtain d where "unescape_char e = Some d" "prepend [d] (unquote r') = Some (t, r)"
        using less(2) s 2 e by (auto split: option.splits)
      then show ?thesis using IH [of "[d]" r'] unescape_char_ascii s e by simp
    qed
  next
    case 3
    then have "\<not> c < CHR 0x20" using less(2) s by (subst (asm) unquote.simps) auto
    then show ?thesis using less(2) s 3 IH [of "[c]" s'] by simp
  next
    case 4
    show ?thesis
    proof (cases "rune_length s")
      case None
      then show ?thesis using less(2) s 4 IH [of RuneError s'] valid_utf8_RuneError
        by (simp add: unquote_high)
    next
      case (Some n)
      then show ?thesis
        using less(2) s 4 IH [of "take n s" "drop n s"] valid_utf8_take [of s n] rune_length_bounds [of s n]
        by (simp add: unquote_high)
    qed
  qed
qed


section \<open>Numbers and tokens\<close>

definition digit :: "char \<Rightarrow> bool" where "digit c \<longleftrightarrow> char_range (CHR ''0'') (CHR ''9'') c"

text \<open>
  The parts of a number: an optional minus sign, \<open>0\<close> or a digit sequence without a leading zero, an optional
  fraction and an optional exponent. Each takes the input and gives the text it read and the rest.
\<close>

definition digits1 :: "string \<Rightarrow> (string \<times> string) option" where
  "digits1 s = (if takeWhile digit s = [] then None else Some (takeWhile digit s, dropWhile digit s))"

definition int_part :: "string \<Rightarrow> (string \<times> string) option" where
  "int_part s =
     (case s of [] \<Rightarrow> None | c # r \<Rightarrow> if c = CHR ''0'' then Some ([c], r) else digits1 s)"

definition frac_part :: "string \<Rightarrow> (string \<times> string) option" where
  "frac_part s =
     (case s of [] \<Rightarrow> Some ([], s) | c # r \<Rightarrow> if c = CHR ''.'' then prepend [c] (digits1 r) else Some ([], s))"

definition exp_part :: "string \<Rightarrow> (string \<times> string) option" where
  "exp_part s =
     (case s of
        c # r \<Rightarrow>
          if c = CHR ''e'' \<or> c = CHR ''E'' then
            (case r of
               d # r' \<Rightarrow> if d = CHR ''+'' \<or> d = CHR ''-'' then prepend [c, d] (digits1 r') else prepend [c] (digits1 r)
             | [] \<Rightarrow> None)
          else Some ([], s)
      | [] \<Rightarrow> Some ([], s))"

definition and_then ::
  "(string \<times> string) option \<Rightarrow> (string \<Rightarrow> (string \<times> string) option) \<Rightarrow> (string \<times> string) option" where
  "and_then x f = (case x of None \<Rightarrow> None | Some (w, r) \<Rightarrow> prepend w (f r))"

definition unsigned :: "string \<Rightarrow> (string \<times> string) option" where
  "unsigned s = and_then (and_then (int_part s) frac_part) exp_part"

definition lex_number :: "string \<Rightarrow> (string \<times> string) option" where
  "lex_number s =
     (case s of
        [] \<Rightarrow> None
      | c # r \<Rightarrow> if c = CHR ''-'' then prepend [c] (unsigned r) else unsigned s)"

definition valid_number :: "string \<Rightarrow> bool" where
  "valid_number s \<longleftrightarrow> lex_number s = Some (s, [])"

text \<open>A character that can extend a number.\<close>

definition number_char :: "char \<Rightarrow> bool" where
  "number_char c \<longleftrightarrow> digit c \<or> c = CHR ''.'' \<or> c = CHR ''e'' \<or> c = CHR ''E''"

definition ends_number :: "string \<Rightarrow> bool" where
  "ends_number r \<longleftrightarrow> (case r of [] \<Rightarrow> True | c # _ \<Rightarrow> \<not> number_char c)"


definition starts :: "(char \<Rightarrow> bool) \<Rightarrow> string \<Rightarrow> bool" where
  "starts P s \<longleftrightarrow> (case s of [] \<Rightarrow> False | c # _ \<Rightarrow> P c)"

lemma starts_simps [simp]: "\<not> starts P []" "starts P (c # s) = P c"
  by (simp_all add: starts_def)

lemma starts_append: "starts P (s @ r) = (if s = [] then starts P r else starts P s)"
  by (cases s) simp_all

lemma ends_number_iff: "ends_number r \<longleftrightarrow> \<not> starts number_char r"
  by (cases r) (simp_all add: ends_number_def)

text \<open>Each part reads a text that it reads again in front of anything that does not extend it.\<close>

lemma digits1_split:
  assumes "digits1 s = Some (w, r)"
  shows "s = w @ r \<and> starts digit w \<and> (\<forall>r'. \<not> starts digit r' \<longrightarrow> digits1 (w @ r') = Some (w, r'))"
proof -
  have w: "w = takeWhile digit s" "r = dropWhile digit s" "w \<noteq> []"
    using assms by (simp_all add: digits1_def split: if_splits)
  have d: "list_all digit w" unfolding w(1) list_all_iff by (blast dest: set_takeWhileD)
  have tk: "takeWhile digit (w @ r') = w \<and> dropWhile digit (w @ r') = r'" if "\<not> starts digit r'" for r'
    using d
  proof (induction w)
    case Nil
    then show ?case using that by (cases r') simp_all
  qed simp
  have "s = w @ r" by (simp add: w(1,2))
  moreover have "starts digit w" using d w(3) by (cases w) simp_all
  moreover have "digits1 (w @ r') = Some (w, r')" if "\<not> starts digit r'" for r'
    using tk [OF that] w(3) by (simp add: digits1_def)
  ultimately show ?thesis by blast
qed

lemma int_part_split:
  assumes "int_part s = Some (w, r)"
  shows "s = w @ r \<and> starts digit w \<and> (\<forall>r'. \<not> starts digit r' \<longrightarrow> int_part (w @ r') = Some (w, r'))"
proof -
  obtain c t where s: "s = c # t" using assms by (cases s) (auto simp: int_part_def)
  show ?thesis
  proof (cases "c = CHR ''0''")
    case True
    then show ?thesis using assms s by (auto simp: int_part_def digit_def)
  next
    case False
    then have sp: "s = w @ r" "starts digit w" "\<And>r'. \<not> starts digit r' \<Longrightarrow> digits1 (w @ r') = Some (w, r')"
      using digits1_split [of s w r] assms s by (auto simp: int_part_def)
    then obtain t' where "w = c # t'" using s by (cases w) auto
    then have "int_part (w @ r') = digits1 (w @ r')" for r'
      using False by (simp add: int_part_def)
    then show ?thesis using sp by simp
  qed
qed

lemma frac_part_split:
  assumes "frac_part s = Some (w, r)"
  shows "s = w @ r \<and> (w \<noteq> [] \<longrightarrow> hd w = CHR ''.'') \<and>
    (\<forall>r'. \<not> starts (\<lambda>c. digit c \<or> c = CHR ''.'') r' \<longrightarrow> frac_part (w @ r') = Some (w, r'))"
proof (cases "starts (\<lambda>c. c = CHR ''.'') s")
  case True
  then obtain t where s: "s = CHR ''.'' # t" by (cases s) auto
  then obtain u where "digits1 t = Some (u, r)" "w = CHR ''.'' # u"
    using assms by (auto simp: frac_part_def prepend_Some)
  then show ?thesis using s digits1_split [of t u r] by (auto simp: frac_part_def starts_def split: list.splits)
next
  case False
  have f: "frac_part r' = Some ([], r')" if "\<not> starts (\<lambda>c. c = CHR ''.'') r'" for r'
    using that by (cases r') (auto simp: frac_part_def)
  have "\<not> starts (\<lambda>c. digit c \<or> c = CHR ''.'') r' \<Longrightarrow> frac_part r' = Some ([], r')" for r'
    by (rule f) (cases r'; simp)
  then show ?thesis using assms f [OF False] by simp
qed

lemma exp_part_split:
  assumes "exp_part s = Some (w, r)"
  shows "s = w @ r \<and> (w \<noteq> [] \<longrightarrow> hd w = CHR ''e'' \<or> hd w = CHR ''E'') \<and>
    (\<forall>r'. ends_number r' \<longrightarrow> exp_part (w @ r') = Some (w, r'))"
proof (cases "starts (\<lambda>c. c = CHR ''e'' \<or> c = CHR ''E'') s")
  case True
  then obtain c t where s: "s = c # t" "c = CHR ''e'' \<or> c = CHR ''E''" by (cases s) auto
  then obtain d t' where t: "t = d # t'" using assms by (cases t) (auto simp: exp_part_def)
  have nd: "ends_number r' \<Longrightarrow> \<not> starts digit r'" for r'
    by (cases r') (auto simp: ends_number_def number_char_def)
  show ?thesis
  proof (cases "d = CHR ''+'' \<or> d = CHR ''-''")
    case True
    then obtain u where "digits1 t' = Some (u, r)" "w = c # d # u"
      using assms s t by (auto simp: exp_part_def prepend_Some)
    then show ?thesis using s t True nd digits1_split [of t' u r] by (auto simp: exp_part_def)
  next
    case False
    then obtain u where u: "digits1 t = Some (u, r)" "w = c # u"
      using assms s t by (auto simp: exp_part_def prepend_Some)
    note sp = digits1_split [OF u(1)]
    have "u = d # tl u" using sp t by (cases u) auto
    then have "exp_part (w @ r') = prepend [c] (digits1 (u @ r'))" for r'
      using s(2) False u(2) by (cases u) (auto simp: exp_part_def)
    then show ?thesis using s nd sp u(2) by auto
  qed
next
  case False
  have f: "exp_part r' = Some ([], r')" if "\<not> starts (\<lambda>c. c = CHR ''e'' \<or> c = CHR ''E'') r'" for r'
    using that by (cases r') (auto simp: exp_part_def)
  have "ends_number r' \<Longrightarrow> exp_part r' = Some ([], r')" for r'
    by (rule f) (cases r'; simp add: ends_number_def number_char_def)
  then show ?thesis using assms f [OF False] by simp
qed

lemma unsigned_split:
  assumes "unsigned s = Some (w, r)"
  shows "s = w @ r \<and> starts digit w \<and> (\<forall>r'. ends_number r' \<longrightarrow> unsigned (w @ r') = Some (w, r'))"
proof -
  obtain i r1 f r2 e where i: "int_part s = Some (i, r1)" and f: "frac_part r1 = Some (f, r2)"
    and e: "exp_part r2 = Some (e, r)" and w: "w = i @ f @ e"
    using assms by (auto simp: unsigned_def and_then_def prepend_Some split: option.splits)
  note I = int_part_split [OF i] and F = frac_part_split [OF f] and X = exp_part_split [OF e]
  have c: "\<not> digit (CHR ''.'')" "\<not> digit (CHR ''e'')" "\<not> digit (CHR ''E'')"
    by (simp_all add: digit_def less_eq_char_def)
  have "unsigned (w @ r') = Some (w, r')" if r': "ends_number r'" for r'
  proof -
    have n: "\<not> starts (\<lambda>c. digit c \<or> c = CHR ''.'') r'" "\<not> starts digit r'"
      using r' by (cases r'; simp add: ends_number_def number_char_def)+
    have n2: "\<not> starts (\<lambda>c. digit c \<or> c = CHR ''.'') (e @ r')"
      using X n c by (cases e) auto
    then have "\<not> starts digit (e @ r')" by (cases "e @ r'") auto
    then have "\<not> starts digit (f @ e @ r')" using F c by (cases f) auto
    then have "int_part (w @ r') = Some (i, f @ e @ r')" using I w by simp
    moreover have "frac_part (f @ e @ r') = Some (f, e @ r')" using F n2 by blast
    moreover have "exp_part (e @ r') = Some (e, r')" using X r' by blast
    ultimately show ?thesis by (simp add: unsigned_def and_then_def w)
  qed
  moreover have "starts digit w" using I w by (cases i) auto
  ultimately show ?thesis using I F X w by simp
qed

lemma lex_number_split:
  assumes "lex_number s = Some (w, r)"
  shows "s = w @ r \<and> starts (\<lambda>c. digit c \<or> c = CHR ''-'') w \<and>
    (\<forall>r'. ends_number r' \<longrightarrow> lex_number (w @ r') = Some (w, r'))"
proof -
  obtain c t where s: "s = c # t" using assms by (cases s) (auto simp: lex_number_def)
  have m: "\<not> digit (CHR ''-'')" by (simp add: digit_def less_eq_char_def)
  show ?thesis
  proof (cases "c = CHR ''-''")
    case True
    then obtain u where u: "unsigned t = Some (u, r)" "w = c # u"
      using assms s by (auto simp: lex_number_def prepend_Some)
    then show ?thesis using s True unsigned_split [OF u(1)] by (simp add: lex_number_def)
  next
    case False
    then have u: "unsigned s = Some (w, r)" using assms s by (simp add: lex_number_def)
    note sp = unsigned_split [OF u]
    then obtain d v where w: "w = d # v" "digit d" by (cases w) auto
    then have "d \<noteq> CHR ''-''" using m by auto
    then show ?thesis using sp w by (simp add: lex_number_def)
  qed
qed

lemma lex_number_valid: "lex_number s = Some (w, r) \<Longrightarrow> valid_number w"
  using lex_number_split [of s w r] by (auto simp: valid_number_def ends_number_def dest!: spec [of _ "[]"])

lemma valid_number_lex:
  assumes "valid_number w" "ends_number r"
  shows "lex_number (w @ r) = Some (w, r)" "starts (\<lambda>c. digit c \<or> c = CHR ''-'') w"
  using lex_number_split [of w w "[]"] assms by (auto simp: valid_number_def)

datatype token = TOpen | TClose | TOpenArray | TCloseArray | TColon | TComma
  | TNull | TBool bool | TNum string | TStr string

definition json_space :: "char \<Rightarrow> bool" where
  "json_space c \<longleftrightarrow> c = CHR '' '' \<or> c = CHR 0x09 \<or> c = CHR 0x0D \<or> c = CHR 0x0A"

definition punctuation :: "char \<Rightarrow> token option" where
  "punctuation c =
     (if c = CHR ''{'' then Some TOpen else if c = CHR ''}'' then Some TClose
      else if c = CHR ''['' then Some TOpenArray else if c = CHR '']'' then Some TCloseArray
      else if c = CHR '':'' then Some TColon else if c = CHR '','' then Some TComma else None)"

text \<open>One token and the rest of the input; the head of the input is not white space.\<close>

definition lex1 :: "string \<Rightarrow> (token \<times> string) option" where
  "lex1 s =
     (case punctuation (hd s) of
        Some k \<Rightarrow> Some (k, tl s)
      | None \<Rightarrow>
          if hd s = CHR 0x22 then map_option (map_prod TStr id) (unquote (tl s))
          else if take 4 s = ''null'' then Some (TNull, drop 4 s)
          else if take 4 s = ''true'' then Some (TBool True, drop 4 s)
          else if take 5 s = ''false'' then Some (TBool False, drop 5 s)
          else map_option (map_prod TNum id) (lex_number s))"

lemma lex1_shorter: "s \<noteq> [] \<Longrightarrow> lex1 s = Some (k, r) \<Longrightarrow> length r < length s"
proof -
  assume s: "s \<noteq> []" "lex1 s = Some (k, r)"
  have n: "length r' < length s" if "lex_number s = Some (w, r')" for w r'
    using lex_number_split [OF that] by (cases w) auto
  have "length r' < length s" if "unquote (tl s) = Some (t, r')" for t r'
    using unquote_valid [OF that] by auto
  then show ?thesis
    using s n by (auto simp: lex1_def split: option.splits if_splits)
qed

function lex :: "string \<Rightarrow> token list option" where
  "lex s =
     (case s of
        [] \<Rightarrow> Some []
      | c # t \<Rightarrow> if json_space c then lex t
          else (case lex1 s of None \<Rightarrow> None | Some (k, r) \<Rightarrow> map_option (Cons k) (lex r)))"
  by pat_completeness auto
termination by (relation "measure length") (auto dest: lex1_shorter [rotated])

declare lex.simps [simp del]

text \<open>The text of a token, as the encoder writes it.\<close>

primrec print_token :: "token \<Rightarrow> string" where
  "print_token TOpen = ''{''"
| "print_token TClose = ''}''"
| "print_token TOpenArray = ''[''"
| "print_token TCloseArray = '']''"
| "print_token TColon = '':''"
| "print_token TComma = '',''"
| "print_token TNull = ''null''"
| "print_token (TBool b) = (if b then ''true'' else ''false'')"
| "print_token (TNum w) = w"
| "print_token (TStr t) = [CHR 0x22] @ quote t @ [CHR 0x22]"

primrec valid_token :: "token \<Rightarrow> bool" where
  "valid_token TOpen = True"
| "valid_token TClose = True"
| "valid_token TOpenArray = True"
| "valid_token TCloseArray = True"
| "valid_token TColon = True"
| "valid_token TComma = True"
| "valid_token TNull = True"
| "valid_token (TBool b) = True"
| "valid_token (TNum w) = valid_number w"
| "valid_token (TStr t) = valid_utf8 t"

lemma lex_Nil [simp]: "lex [] = Some []"
  by (simp add: lex.simps)

lemma lex_lex1:
  "s = c # t \<Longrightarrow> \<not> json_space c \<Longrightarrow> lex1 s = Some (k, r) \<Longrightarrow> lex s = map_option (Cons k) (lex r)"
  by (subst lex.simps) simp

lemma lex_number_token:
  assumes "valid_number w" "ends_number r"
  shows "lex (w @ r) = map_option (Cons (TNum w)) (lex r)"
proof -
  note v = valid_number_lex [OF assms]
  obtain c t where w: "w = c # t" "digit c \<or> c = CHR ''-''" using v(2) by (cases w) auto
  then have "punctuation c = None" "c \<noteq> CHR 0x22" "c \<noteq> CHR ''n''" "c \<noteq> CHR ''t''" "c \<noteq> CHR ''f''" "\<not> json_space c"
    by (auto simp: punctuation_def json_space_def digit_def less_eq_char_def)
  then show ?thesis
    using v(1) w(1) by (intro lex_lex1 [of _ c "t @ r"]) (auto simp: lex1_def)
qed

lemma lex_string_token:
  assumes "valid_utf8 t"
  shows "lex (CHR 0x22 # quote t @ CHR 0x22 # r) = map_option (Cons (TStr t)) (lex r)"
  using unquote_quote [OF assms, of r]
  by (intro lex_lex1 [OF refl]) (simp_all add: lex1_def punctuation_def json_space_def)

lemma lex_token:
  assumes "valid_token k" "\<And>w. k = TNum w \<Longrightarrow> ends_number r"
  shows "lex (print_token k @ r) = map_option (Cons k) (lex r)"
proof (cases k)
  case (TNum w)
  then show ?thesis using assms by (simp add: lex_number_token)
next
  case (TStr t)
  then show ?thesis using assms by (simp add: lex_string_token)
next
  case (TBool b)
  show ?thesis unfolding TBool
    by (rule lex_lex1 [of _ "if b then CHR ''t'' else CHR ''f''" "if b then ''rue'' @ r else ''alse'' @ r"])
      (simp_all add: lex1_def punctuation_def json_space_def)
next
  case TNull
  show ?thesis unfolding TNull
    by (rule lex_lex1 [of _ "CHR ''n''" "''ull'' @ r"]) (simp_all add: lex1_def punctuation_def json_space_def)
qed (simp_all add: lex_lex1 [OF refl] lex1_def punctuation_def json_space_def)

lemma lex_valid: "lex s = Some ks \<Longrightarrow> list_all valid_token ks"
proof (induction s arbitrary: ks rule: lex.induct)
  case (1 s)
  show ?case
  proof (cases s)
    case Nil
    then show ?thesis using 1 by simp
  next
    case (Cons c t)
    show ?thesis
    proof (cases "json_space c")
      case True
      then have "lex s = lex t" using Cons by (subst lex.simps) simp
      then show ?thesis using 1(1) [OF Cons True] 1(3) by simp
    next
      case False
      then obtain k r js where k: "lex1 s = Some (k, r)" "lex r = Some js" "ks = k # js"
        using 1(3) Cons by (subst (asm) lex.simps) (auto split: option.splits)
      have "valid_token k"
        using k(1) unquote_valid lex_number_valid
        by (fastforce simp: lex1_def punctuation_def split: if_splits)
      then show ?thesis using 1(2) [OF Cons False k(1) refl k(2)] k(3) by simp
    qed
  qed
qed

end
