(* ===== verification/Json.thy ===== *)
theory Json
  imports Json_Lexer
begin

text \<open>
  Generic JSON values and the \<open>canonicalJSON\<close> functions of \<open>src/policy/version.go\<close> and
  \<open>src/evidence/object.go\<close>: decode one JSON text with \<open>UseNumber\<close>, refuse anything after it, and encode the value again.
  The tokens drive a stack machine (\<open>parse_step\<close>) with the states of the package's scanner and its limit on the
  nesting depth. An object is a Go map: the list of its members in the order of the keys, where a later
  duplicate replaces an earlier one.

  The lemmas show that decoding the encoding of a decoded value gives that value, so canonical text is a fixed
  point of \<open>canonicalJSON\<close>.
\<close>

section \<open>Values\<close>

datatype jvalue =
    JNull
  | JBool bool
  | JNumber string
  | JString string
  | JArray "jvalue list"
  | JObject "(string \<times> jvalue) list"

fun insert_member :: "string \<Rightarrow> 'v \<Rightarrow> (string \<times> 'v) list \<Rightarrow> (string \<times> 'v) list" where
  "insert_member k v [] = [(k, v)]"
| "insert_member k v ((l, w) # ms) =
     (if k < l then (k, v) # (l, w) # ms
      else if k = l then (k, v) # ms
      else (l, w) # insert_member k v ms)"

text \<open>\<open>json.Marshal\<close> of a value: the tokens, separated by commas, and their text.\<close>

fun commas :: "token list list \<Rightarrow> token list" where
  "commas [] = []"
| "commas [ks] = ks"
| "commas (ks # kss) = ks @ TComma # commas kss"

fun member_tokens :: "string \<times> token list \<Rightarrow> token list" where
  "member_tokens (k, ks) = TStr k # TColon # ks"

primrec tokens :: "jvalue \<Rightarrow> token list" where
  "tokens JNull = [TNull]"
| "tokens (JBool b) = [TBool b]"
| "tokens (JNumber w) = [TNum w]"
| "tokens (JString t) = [TStr t]"
| "tokens (JArray vs) = TOpenArray # commas (map tokens vs) @ [TCloseArray]"
| "tokens (JObject ms) =
     TOpen # commas (map member_tokens (map (map_prod id tokens) ms)) @ [TClose]"

definition print_tokens :: "token list \<Rightarrow> string" where
  "print_tokens ks = concat (map print_token ks)"

definition Marshal :: "jvalue \<Rightarrow> string" where
  "Marshal v = print_tokens (tokens v)"

section \<open>Decoding\<close>

text \<open>
  An open array or object on the stack: the elements so far, newest first, or the members so far and the key
  whose value is being read. The mode is what the scanner expects next, with the object whose key it expects.
\<close>

datatype frame = FArray "jvalue list" | FObject "(string \<times> jvalue) list" string

datatype mode =
    BeginValue
  | BeginValueOrEmpty
  | BeginStringOrEmpty
  | BeginString "(string \<times> jvalue) list"
  | ObjectKey "(string \<times> jvalue) list" string
  | EndValue jvalue

definition maxNestingDepth :: nat where "maxNestingDepth = 10000"

definition scalar_of :: "token \<Rightarrow> jvalue option" where
  "scalar_of k = (case k of TNull \<Rightarrow> Some JNull | TBool b \<Rightarrow> Some (JBool b) | TNum w \<Rightarrow> Some (JNumber w)
     | TStr t \<Rightarrow> Some (JString t) | _ \<Rightarrow> None)"

definition begin_value :: "token \<Rightarrow> frame list \<Rightarrow> (mode \<times> frame list) option" where
  "begin_value k st =
     (case scalar_of k of
        Some v \<Rightarrow> Some (EndValue v, st)
      | None \<Rightarrow>
          if length st < maxNestingDepth then
            (case k of TOpenArray \<Rightarrow> Some (BeginValueOrEmpty, FArray [] # st)
             | TOpen \<Rightarrow> Some (BeginStringOrEmpty, st)
             | _ \<Rightarrow> None)
          else None)"

definition end_value :: "jvalue \<Rightarrow> token \<Rightarrow> frame list \<Rightarrow> (mode \<times> frame list) option" where
  "end_value v k st =
     (case st of
        [] \<Rightarrow> None
      | FArray vs # st' \<Rightarrow>
          (case k of TComma \<Rightarrow> Some (BeginValue, FArray (v # vs) # st')
           | TCloseArray \<Rightarrow> Some (EndValue (JArray (rev (v # vs))), st')
           | _ \<Rightarrow> None)
      | FObject ms key # st' \<Rightarrow>
          (case k of TComma \<Rightarrow> Some (BeginString (insert_member key v ms), st')
           | TClose \<Rightarrow> Some (EndValue (JObject (insert_member key v ms)), st')
           | _ \<Rightarrow> None))"

fun parse_step :: "token \<Rightarrow> mode \<times> frame list \<Rightarrow> (mode \<times> frame list) option" where
  "parse_step k (BeginValue, st) = begin_value k st"
| "parse_step k (BeginValueOrEmpty, st) =
     (if k = TCloseArray then Some (EndValue (JArray []), tl st) else begin_value k st)"
| "parse_step k (BeginStringOrEmpty, st) =
     (case k of TClose \<Rightarrow> Some (EndValue (JObject []), st) | TStr t \<Rightarrow> Some (ObjectKey [] t, st) | _ \<Rightarrow> None)"
| "parse_step k (BeginString ms, st) = (case k of TStr t \<Rightarrow> Some (ObjectKey ms t, st) | _ \<Rightarrow> None)"
| "parse_step k (ObjectKey ms t, st) = (if k = TColon then Some (BeginValue, FObject ms t # st) else None)"
| "parse_step k (EndValue v, st) = end_value v k st"

fun parse :: "token list \<Rightarrow> mode \<times> frame list \<Rightarrow> (mode \<times> frame list) option" where
  "parse [] c = Some c"
| "parse (k # ks) c = (case parse_step k c of None \<Rightarrow> None | Some c' \<Rightarrow> parse ks c')"

definition Decode :: "string \<Rightarrow> jvalue option" where
  "Decode s =
     (case lex s of
        None \<Rightarrow> None
      | Some ks \<Rightarrow> (case parse ks (BeginValue, []) of Some (EndValue v, []) \<Rightarrow> Some v | _ \<Rightarrow> None))"

definition canonicalJSON :: "string \<Rightarrow> string option" where
  "canonicalJSON payload = map_option Marshal (Decode payload)"

section \<open>Decoded values\<close>

text \<open>Members in strictly increasing order of the keys, legal strings and numbers, and bounded nesting.\<close>

primrec depth :: "jvalue \<Rightarrow> nat" where
  "depth JNull = 0"
| "depth (JBool b) = 0"
| "depth (JNumber w) = 0"
| "depth (JString t) = 0"
| "depth (JArray vs) = Suc (foldr max (map depth vs) 0)"
| "depth (JObject ms) = Suc (foldr max (map snd (map (map_prod id depth) ms)) 0)"

definition members_ok :: "(string \<times> 'v) list \<Rightarrow> bool" where
  "members_ok ms \<longleftrightarrow> sorted_wrt (<) (map fst ms) \<and> list_all valid_utf8 (map fst ms)"

primrec wf_json :: "jvalue \<Rightarrow> bool" where
  "wf_json JNull = True"
| "wf_json (JBool b) = True"
| "wf_json (JNumber w) = valid_number w"
| "wf_json (JString t) = valid_utf8 t"
| "wf_json (JArray vs) = list_all id (map wf_json vs)"
| "wf_json (JObject ms) = (members_ok ms \<and> list_all snd (map (map_prod id wf_json) ms))"

definition value_ok :: "nat \<Rightarrow> jvalue \<Rightarrow> bool" where
  "value_ok n v \<longleftrightarrow> wf_json v \<and> depth v \<le> n"

lemma foldr_max_le: "foldr max xs 0 \<le> n \<longleftrightarrow> (\<forall>x\<in>set xs. x \<le> (n :: nat))"
  by (induction xs) auto

lemma value_ok_scalars [simp]:
  "value_ok n JNull" "value_ok n (JBool b)"
  "value_ok n (JNumber w) = valid_number w" "value_ok n (JString t) = valid_utf8 t"
  by (simp_all add: value_ok_def)

lemma value_ok_Array: "value_ok (Suc n) (JArray vs) \<longleftrightarrow> (\<forall>v\<in>set vs. value_ok n v)"
  by (auto simp: value_ok_def foldr_max_le list_all_iff)

lemma value_ok_Object:
  "value_ok (Suc n) (JObject ms) \<longleftrightarrow> members_ok ms \<and> (\<forall>(k, v)\<in>set ms. value_ok n v)"
  by (auto simp: value_ok_def foldr_max_le list_all_iff)

lemma value_ok_0 [simp]: "\<not> value_ok 0 (JArray vs)" "\<not> value_ok 0 (JObject ms)"
  by (simp_all add: value_ok_def)

lemma insert_member_set: "set (map fst (insert_member k v ms)) = insert k (set (map fst ms))"
  by (induction k v ms rule: insert_member.induct) auto

lemma insert_member_sorted:
  "sorted_wrt (<) (map fst ms) \<Longrightarrow> sorted_wrt (<) (map fst (insert_member k v ms))"
proof (induction k v ms rule: insert_member.induct)
  case (2 k v l w ms)
  show ?case
  proof (cases "k < l")
    case True
    have "\<forall>x\<in>set (map fst ms). l < x" using 2(2) by simp
    then have "\<forall>x\<in>set (map fst ms). k < x" using True by (blast intro: less_trans)
    then show ?thesis using 2(2) True by simp
  next
    case False
    have "k \<noteq> l \<Longrightarrow> \<forall>x\<in>set (map fst (insert_member k v ms)). l < x"
      using 2(2) False unfolding insert_member_set by simp
    then show ?thesis using 2 False by simp
  qed
qed simp

lemma insert_member_ok: "members_ok ms \<Longrightarrow> valid_utf8 k \<Longrightarrow> members_ok (insert_member k v ms)"
  unfolding members_ok_def list_all_iff insert_member_set by (simp add: insert_member_sorted)

lemma insert_member_values: "(l, w) \<in> set (insert_member k v ms) \<Longrightarrow> w = v \<or> (l, w) \<in> set ms"
  by (induction k v ms rule: insert_member.induct) (auto split: if_splits)

lemma insert_member_last:
  "list_all (\<lambda>l. l < k) (map fst ms) \<Longrightarrow> insert_member k v ms = ms @ [(k, v)]"
  by (induction k v ms rule: insert_member.induct) auto

section \<open>Reading back what was written\<close>

lemma begin_empty: "k \<noteq> TCloseArray \<Longrightarrow> parse_step k (BeginValueOrEmpty, st) = parse_step k (BeginValue, st)"
  by simp

lemma hd_tokens: "\<exists>k ks. tokens v = k # ks \<and> k \<noteq> TCloseArray"
  by (cases v) auto

lemma parse_append:
  "parse (ks @ js) c = (case parse ks c of None \<Rightarrow> None | Some c' \<Rightarrow> parse js c')"
  by (induction ks arbitrary: c) (auto split: option.splits)

lemma parse_array:
  assumes "\<And>v st ks. v \<in> set vs \<Longrightarrow> length st = Suc d \<Longrightarrow>
      parse (tokens v @ ks) (BeginValue, st) = parse ks (EndValue v, st)"
    and "vs \<noteq> []" "length st = d"
  shows "parse (commas (map tokens vs) @ TCloseArray # ks) (BeginValue, FArray us # st) =
      parse ks (EndValue (JArray (rev us @ vs)), st)"
  using assms
proof (induction vs arbitrary: us)
  case (Cons v vs)
  have v: "parse (tokens v @ js) (BeginValue, FArray us # st) = parse js (EndValue v, FArray us # st)" for js
    using Cons.prems(1,3) by simp
  show ?case
  proof (cases vs)
    case Nil
    then show ?thesis by (simp add: v end_value_def)
  next
    case (Cons w ws)
    then show ?thesis using Cons.IH [of "v # us"] Cons.prems by (simp add: v end_value_def)
  qed
qed simp

lemma parse_object:
  assumes "\<And>k v st ks. (k, v) \<in> set ms \<Longrightarrow> length st = Suc d \<Longrightarrow>
      parse (tokens v @ ks) (BeginValue, st) = parse ks (EndValue v, st)"
    and "ms \<noteq> []" "length st = d" "sorted_wrt (<) (map fst (ls @ ms))"
  shows "parse (commas (map member_tokens (map (map_prod id tokens) ms)) @ TClose # ks)
      (BeginString ls, st) = parse ks (EndValue (JObject (ls @ ms)), st)"
  using assms
proof (induction ms arbitrary: ls)
  case (Cons m ms)
  obtain k v where m: "m = (k, v)" by (cases m)
  have v: "parse (tokens v @ js) (BeginValue, FObject ls k # st) = parse js (EndValue v, FObject ls k # st)" for js
    using Cons.prems(1) [of k v "FObject ls k # st"] Cons.prems(3) m by simp
  have i: "insert_member k v ls = ls @ [(k, v)]"
    using Cons.prems(4) m by (intro insert_member_last) (auto simp: sorted_wrt_append list_all_iff)
  show ?case
  proof (cases ms)
    case Nil
    then show ?thesis by (simp add: v i m end_value_def)
  next
    case (Cons w ws)
    have "parse (commas (map member_tokens (map (map_prod id tokens) ms)) @ TClose # ks)
      (BeginString (ls @ [(k, v)]), st) = parse ks (EndValue (JObject ((ls @ [(k, v)]) @ ms)), st)"
      using Cons.prems m Cons by (intro Cons.IH) auto
    then show ?thesis using Cons by (simp add: v i m end_value_def id_def)
  qed
qed simp

lemma parse_tokens:
  "value_ok n v \<Longrightarrow> length st + n = maxNestingDepth \<Longrightarrow>
   parse (tokens v @ ks) (BeginValue, st) = parse ks (EndValue v, st)"
proof (induction v arbitrary: n st ks)
  case (JArray vs)
  then obtain n' where n: "n = Suc n'" by (cases n) auto
  have e: "parse (tokens v @ js) (BeginValue, st') = parse js (EndValue v, st')"
    if "v \<in> set vs" "length st' = Suc (length st)" for v st' js
    using JArray.IH [OF that(1), of n' st' js] JArray.prems that n by (simp add: value_ok_Array)
  show ?case
  proof (cases vs)
    case Nil
    then show ?thesis using JArray.prems n by (simp add: begin_value_def scalar_of_def)
  next
    case (Cons w ws)
    have a: "parse (commas (map tokens vs) @ TCloseArray # ks) (BeginValue, FArray [] # st) =
        parse ks (EndValue (JArray (rev [] @ vs)), st)"
      using e Cons by (intro parse_array [where d = "length st"]) simp_all
    obtain k js where k: "commas (map tokens vs) = k # js" "k \<noteq> TCloseArray"
      using hd_tokens [of w] Cons by (cases ws) auto
    then show ?thesis using a JArray.prems n by (simp add: begin_value_def scalar_of_def)
  qed
next
  case (JObject ms)
  then obtain n' where n: "n = Suc n'" by (cases n) auto
  have e: "parse (tokens v @ js) (BeginValue, st') = parse js (EndValue v, st')"
    if "(k, v) \<in> set ms" "length st' = Suc (length st)" for k v st' js
  proof (rule JObject.IH [of "(k, v)" v n' st' js])
    show "value_ok n' v" "length st' + n' = maxNestingDepth"
      using JObject.prems n that by (auto simp: value_ok_Object)
  qed (use that in auto)
  show ?case
  proof (cases ms)
    case Nil
    then show ?thesis using JObject.prems n by (simp add: begin_value_def scalar_of_def)
  next
    case (Cons m ms')
    have o: "parse (commas (map member_tokens (map (map_prod id tokens) ms)) @ TClose # ks)
      (BeginString [], st) = parse ks (EndValue (JObject ([] @ ms)), st)"
      using e Cons JObject.prems n by (intro parse_object [where d = "length st"]) (auto simp: value_ok_Object members_ok_def)
    obtain t js where k: "commas (map member_tokens (map (map_prod id tokens) ms)) = TStr t # js"
      using Cons by (cases m; cases ms') auto
    then show ?thesis using o JObject.prems n by (simp add: begin_value_def scalar_of_def)
  qed
qed (simp_all add: begin_value_def scalar_of_def)

section \<open>What decoding returns\<close>

text \<open>
  The invariant of the stack machine: every finished value below \<open>n\<close> open arrays and objects is well formed and
  nests at most \<open>maxNestingDepth - n\<close> deep.
\<close>

definition below :: "nat \<Rightarrow> jvalue \<Rightarrow> bool" where
  "below n v \<longleftrightarrow> value_ok (maxNestingDepth - n) v"

definition members_below :: "nat \<Rightarrow> (string \<times> jvalue) list \<Rightarrow> bool" where
  "members_below n ms \<longleftrightarrow> n \<le> maxNestingDepth \<and> members_ok ms \<and> (\<forall>(k, v)\<in>set ms. below n v)"

fun frame_ok :: "nat \<Rightarrow> frame \<Rightarrow> bool" where
  "frame_ok n (FArray vs) \<longleftrightarrow> n \<le> maxNestingDepth \<and> (\<forall>v\<in>set vs. below n v)"
| "frame_ok n (FObject ms k) \<longleftrightarrow> members_below n ms \<and> valid_utf8 k"

fun stack_ok :: "frame list \<Rightarrow> bool" where
  "stack_ok [] \<longleftrightarrow> True"
| "stack_ok (f # st) \<longleftrightarrow> frame_ok (Suc (length st)) f \<and> stack_ok st"

fun config_ok :: "mode \<times> frame list \<Rightarrow> bool" where
  "config_ok (BeginValue, st) \<longleftrightarrow> stack_ok st"
| "config_ok (BeginValueOrEmpty, st) \<longleftrightarrow> stack_ok st \<and> st \<noteq> []"
| "config_ok (BeginStringOrEmpty, st) \<longleftrightarrow> stack_ok st \<and> length st < maxNestingDepth"
| "config_ok (BeginString ms, st) \<longleftrightarrow> stack_ok st \<and> members_below (Suc (length st)) ms"
| "config_ok (ObjectKey ms k, st) \<longleftrightarrow> stack_ok st \<and> members_below (Suc (length st)) ms \<and> valid_utf8 k"
| "config_ok (EndValue v, st) \<longleftrightarrow> stack_ok st \<and> below (length st) v"

lemma below_Array: "n < maxNestingDepth \<Longrightarrow> below n (JArray vs) \<longleftrightarrow> (\<forall>v\<in>set vs. below (Suc n) v)"
  using value_ok_Array [of "maxNestingDepth - Suc n" vs] by (simp add: below_def Suc_diff_Suc)

lemma below_Object: "n < maxNestingDepth \<Longrightarrow> below n (JObject ms) \<longleftrightarrow> members_below (Suc n) ms"
  using value_ok_Object [of "maxNestingDepth - Suc n" ms]
  by (simp add: below_def members_below_def Suc_diff_Suc)

lemma members_below_Nil: "members_below n [] \<longleftrightarrow> n \<le> maxNestingDepth"
  by (simp add: members_below_def members_ok_def)

lemma members_below_insert:
  "members_below n ms \<Longrightarrow> valid_utf8 k \<Longrightarrow> below n v \<Longrightarrow> members_below n (insert_member k v ms)"
  unfolding members_below_def using insert_member_ok insert_member_values by fast

lemma begin_value_ok:
  assumes "begin_value k st = Some c" "valid_token k" "stack_ok st"
  shows "config_ok c"
  using assms by (cases k) (auto simp: begin_value_def scalar_of_def below_def split: if_splits)

lemma end_value_ok:
  assumes "end_value v k st = Some c" "stack_ok st" "below (length st) v"
  shows "config_ok c"
proof -
  obtain f st' where st: "st = f # st'" using assms(1) by (cases st) (auto simp: end_value_def)
  show ?thesis
  proof (cases f)
    case (FArray vs)
    then show ?thesis
      using assms st by (cases k) (auto simp: end_value_def below_Array)
  next
    case (FObject ms key)
    then have "members_below (Suc (length st')) (insert_member key v ms)" "length st' < maxNestingDepth"
      using assms(2,3) st members_below_insert [of "Suc (length st')" ms key v]
      by (simp_all add: members_below_def [of _ ms])
    then show ?thesis
      using assms(1,2) st FObject by (cases k) (auto simp: end_value_def below_Object)
  qed
qed

lemma parse_step_ok:
  assumes "parse_step k c = Some c'" "valid_token k" "config_ok c"
  shows "config_ok c'"
proof (cases "(k, c)" rule: parse_step.cases)
  case (2 k' st)
  then obtain f st' where "st = f # st'" using assms(3) by (cases st) auto
  then have "below (length st') (JArray [])" "stack_ok st'"
    using assms(3) 2 by (cases f; auto simp: below_Array members_below_def)+
  then show ?thesis using 2 assms begin_value_ok [of k st c'] \<open>st = f # st'\<close> by (auto split: if_splits)
qed (use assms begin_value_ok end_value_ok in
    \<open>auto simp: below_Object members_below_Nil split: token.splits if_splits\<close>)

lemma parse_ok:
  "parse ks c = Some c' \<Longrightarrow> list_all valid_token ks \<Longrightarrow> config_ok c \<Longrightarrow> config_ok c'"
  by (induction ks arbitrary: c) (auto split: option.splits dest: parse_step_ok)

lemma Decode_parse:
  "Decode s = Some v \<longleftrightarrow> (\<exists>ks. lex s = Some ks \<and> parse ks (BeginValue, []) = Some (EndValue v, []))"
  by (auto simp: Decode_def split: option.splits mode.splits list.splits)

lemma Decode_ok: "Decode s = Some v \<Longrightarrow> value_ok maxNestingDepth v"
  using parse_ok [where c = "(BeginValue, [])" and c' = "(EndValue v, [])"] lex_valid
  by (auto simp: Decode_parse below_def)

section \<open>Canonical text\<close>

definition lexes :: "token list \<Rightarrow> bool" where
  "lexes ks \<longleftrightarrow> (\<forall>r. ends_number r \<longrightarrow> lex (print_tokens ks @ r) = map_option (\<lambda>js. ks @ js) (lex r))"

lemma print_tokens_simps [simp]:
  "print_tokens [] = []" "print_tokens (k # ks) = print_token k @ print_tokens ks"
  "print_tokens (ks @ js) = print_tokens ks @ print_tokens js"
  by (simp_all add: print_tokens_def)

lemma lexes_Nil: "lexes []"
  by (simp add: lexes_def option.map_ident)

lemma lexes_single: "valid_token k \<Longrightarrow> lexes [k]"
proof -
  assume k: "valid_token k"
  have "lex (print_token k @ r) = map_option (\<lambda>js. [k] @ js) (lex r)" if "ends_number r" for r
    using lex_token [OF k that] by simp
  then show ?thesis by (simp add: lexes_def)
qed

lemma lexes_append:
  assumes "lexes ks" "lexes js" "\<And>r. ends_number (print_tokens js @ r)"
  shows "lexes (ks @ js)"
proof -
  have "lex (print_tokens ks @ print_tokens js @ r) = map_option (\<lambda>ls. (ks @ js) @ ls) (lex r)" if "ends_number r" for r
    using assms(1,2) assms(3) [of r] that by (simp add: lexes_def option.map_comp comp_def)
  then show ?thesis by (simp add: lexes_def)
qed

lemma lexes_Cons:
  assumes "valid_token k" "\<And>w. k \<noteq> TNum w" "lexes js"
  shows "lexes (k # js)"
proof -
  have "lex (print_token k @ print_tokens js @ r) = map_option (\<lambda>ls. (k # js) @ ls) (lex r)" if "ends_number r" for r
    using lex_token [OF assms(1), of "print_tokens js @ r"] assms(2,3) that
    by (simp add: lexes_def option.map_comp comp_def)
  then show ?thesis by (simp add: lexes_def)
qed

lemma ends_number_punct [simp]:
  "ends_number (CHR '','' # r)" "ends_number (CHR '']'' # r)" "ends_number (CHR ''}'' # r)"
  by (simp_all add: ends_number_def number_char_def digit_def less_eq_char_def)

lemma lexes_commas: "(\<And>ks. ks \<in> set kss \<Longrightarrow> lexes ks) \<Longrightarrow> lexes (commas kss)"
proof (induction kss rule: commas.induct)
  case (3 ks js kss)
  have "lexes (TComma # commas (js # kss))" using 3 by (intro lexes_Cons) auto
  then show ?case using 3(2) by (auto intro!: lexes_append)
qed (auto intro: lexes_Nil)

lemma lexes_tokens: "wf_json v \<Longrightarrow> lexes (tokens v)"
proof (induction v)
  case (JArray vs)
  then have "lexes (commas (map tokens vs))"
    by (intro lexes_commas) (auto simp: list_all_iff)
  then show ?case by (auto intro!: lexes_Cons lexes_append lexes_single)
next
  case (JObject ms)
  have "lexes ks" if ks: "ks \<in> set (map member_tokens (map (map_prod id tokens) ms))" for ks
  proof -
    obtain k v where m: "(k, v) \<in> set ms" "ks = TStr k # TColon # tokens v" using ks by fastforce
    have "valid_utf8 k" "wf_json v"
      using JObject.prems m(1) by (auto simp: members_ok_def list_all_iff)
    then show ?thesis using JObject.IH [OF m(1)] m(2) by (auto intro!: lexes_Cons)
  qed
  then have "lexes (commas (map member_tokens (map (map_prod id tokens) ms)))" by (intro lexes_commas)
  then show ?case by (auto intro!: lexes_Cons lexes_append lexes_single)
qed (auto intro!: lexes_single)

lemma Decode_Marshal: "value_ok maxNestingDepth v \<Longrightarrow> Decode (Marshal v) = Some v"
proof -
  assume v: "value_ok maxNestingDepth v"
  then have "lexes (tokens v)" by (intro lexes_tokens) (simp add: value_ok_def)
  then have "lex (Marshal v) = Some (tokens v)"
    unfolding lexes_def Marshal_def by (drule_tac spec [of _ "[]"]) (simp add: ends_number_def)
  moreover have "parse (tokens v) (BeginValue, []) = Some (EndValue v, [])"
    using parse_tokens [OF v, of "[]" "[]"] by simp
  ultimately show ?thesis by (simp add: Decode_parse)
qed

lemma canonicalJSON_Decode: "canonicalJSON s = Some t \<Longrightarrow> Decode t = Decode s"
  by (auto simp: canonicalJSON_def Decode_Marshal Decode_ok)

lemma canonicalJSON_idem: "canonicalJSON s = Some t \<Longrightarrow> canonicalJSON t = Some t"
  by (auto simp: canonicalJSON_def Decode_Marshal Decode_ok)

end
