(* ===== verification/Evidence.thy ===== *)
theory Evidence
  imports Uuid Sha256 Json "HOL-Library.AList"
begin

text \<open>
  Evidence objects, their qualification, the in-memory repository and the evidence service
  (\<open>object.go\<close>, \<open>qualification.go\<close>, \<open>memory_repository.go\<close> and \<open>service.go\<close> of \<open>src/evidence\<close>).

  An \<open>Object\<close> is its snapshot; the defensive copies are the identity on values. The canonical form of a payload and the
  members of an object payload are those of \<open>Json\<close>; the encoding of a whole snapshot, which the code only tests for
  success and compares, is an argument \<open>js\<close> of the definitions. A finite \<open>float64\<close> is an
  integer multiple of \<open>2 ^ -1074\<close>; the code only compares such numbers. Iteration over a Go map has no defined order: a map
  that is copied is the list of its entries in the order of the iteration, and the groups of \<open>QualifySet\<close>
  are visited in the order of an arbitrary rank.
\<close>

section \<open>Objects\<close>

datatype evidence_error =
    ErrEvidenceIDRequired
  | ErrEvidenceSessionIDRequired
  | ErrSourceIDRequired
  | ErrSourceTypeRequired
  | ErrInvalidEvidenceType
  | ErrObservedAtRequired
  | ErrReceivedAtRequired
  | ErrInvalidTimestampOrder
  | ErrInvalidPayload
  | ErrInvalidConfidence
  | ErrSchemaVersionRequired
  | ErrRuntimeVersionRequired
  | ErrAcquisitionRequired
  | ErrIntegrityMismatch
  | ErrNonCanonicalPayload
  | ErrQualificationPolicyVersionRequired
  | ErrInvalidQualificationMaxAge
  | ErrInvalidQualificationTolerance
  | ErrInvalidQualificationConfidence
  | ErrQualificationTimeRequired
  | ErrQualifierRequired
  | ErrEvidenceNotFound
  | ErrEvidenceConflict
  | ErrEncodeEvidence

datatype float64 = Finite int | PosInf | NegInf | NaN

fun float_less :: "float64 \<Rightarrow> float64 \<Rightarrow> bool" where
  "float_less NaN _ = False"
| "float_less _ NaN = False"
| "float_less PosInf _ = False"
| "float_less _ NegInf = False"
| "float_less NegInf _ = True"
| "float_less _ PosInf = True"
| "float_less (Finite a) (Finite b) = (a < b)"

definition float_one :: float64 where "float_one = Finite (2 ^ 1074)"

definition typePattern :: "string \<Rightarrow> bool" where
  "typePattern = code_pattern 0 63"

record IntegrityMetadata =
  im_Algorithm :: string
  im_PayloadDigest :: string
  im_SchemaVersion :: string
  im_RuntimeVersion :: string
  im_AcquisitionMethod :: string

record ev_Snapshot =
  ev_EvidenceID :: uuid
  ev_SessionID :: uuid
  ev_SourceID :: string
  ev_SourceType :: string
  ev_EvidenceType :: string
  ev_ObservedAt :: time
  ev_ReceivedAt :: time
  ev_Payload :: string
  ev_Confidence :: "float64 option"
  ev_Provenance :: "string \<rightharpoonup> string"
  ev_Integrity :: IntegrityMetadata

record ev_Input =
  ei_EvidenceID :: uuid
  ei_SessionID :: uuid
  ei_SourceID :: string
  ei_SourceType :: string
  ei_EvidenceType :: string
  ei_ObservedAt :: time
  ei_ReceivedAt :: time
  ei_Payload :: string
  ei_Confidence :: "float64 option"
  ei_Provenance :: "string \<rightharpoonup> string"
  ei_SchemaVersion :: string
  ei_RuntimeVersion :: string
  ei_AcquisitionMethod :: string

record json =
  json_Marshal :: "ev_Snapshot \<Rightarrow> string option"

text \<open>\<open>json.Unmarshal\<close> into a map of members; every other value leaves the map empty.\<close>

definition json_members :: "string \<Rightarrow> string \<rightharpoonup> jvalue" where
  "json_members payload = (case Decode payload of Some (JObject ms) \<Rightarrow> map_of ms | _ \<Rightarrow> Map.empty)"

definition digest :: "string \<Rightarrow> string" where
  "digest payload = ''sha256:'' @ concat (map (\<lambda>b. hex_Encode 2 (unat b)) (sha256 (bytes_of payload)))"

definition validate_evidence :: "ev_Snapshot \<Rightarrow> evidence_error option" where
  "validate_evidence s =
     (if ev_EvidenceID s = Nil_uuid then Some ErrEvidenceIDRequired
      else if ev_SessionID s = Nil_uuid then Some ErrEvidenceSessionIDRequired
      else if TrimSpace (ev_SourceID s) = [] then Some ErrSourceIDRequired
      else if TrimSpace (ev_SourceType s) = [] then Some ErrSourceTypeRequired
      else if \<not> typePattern (ev_EvidenceType s) then Some ErrInvalidEvidenceType
      else if IsZero (ev_ObservedAt s) then Some ErrObservedAtRequired
      else if IsZero (ev_ReceivedAt s) then Some ErrReceivedAtRequired
      else if Before (ev_ReceivedAt s) (ev_ObservedAt s) then Some ErrInvalidTimestampOrder
      else if (case ev_Confidence s of None \<Rightarrow> False
               | Some c \<Rightarrow> float_less c (Finite 0) \<or> float_less float_one c) then Some ErrInvalidConfidence
      else if TrimSpace (im_SchemaVersion (ev_Integrity s)) = [] then Some ErrSchemaVersionRequired
      else if TrimSpace (im_RuntimeVersion (ev_Integrity s)) = [] then Some ErrRuntimeVersionRequired
      else if TrimSpace (im_AcquisitionMethod (ev_Integrity s)) = [] then Some ErrAcquisitionRequired
      else None)"

definition NewObject :: "json \<Rightarrow> ev_Input \<Rightarrow> evidence_error + ev_Snapshot" where
  "NewObject js input =
     (case canonicalJSON (ei_Payload input) of
        None \<Rightarrow> Err ErrInvalidPayload
      | Some payload \<Rightarrow>
          let s = \<lparr>ev_EvidenceID = ei_EvidenceID input, ev_SessionID = ei_SessionID input,
                ev_SourceID = TrimSpace (ei_SourceID input), ev_SourceType = TrimSpace (ei_SourceType input),
                ev_EvidenceType = ei_EvidenceType input, ev_ObservedAt = UTC (ei_ObservedAt input),
                ev_ReceivedAt = UTC (ei_ReceivedAt input), ev_Payload = payload,
                ev_Confidence = ei_Confidence input, ev_Provenance = ei_Provenance input,
                ev_Integrity = \<lparr>im_Algorithm = ''SHA-256'', im_PayloadDigest = digest payload,
                  im_SchemaVersion = TrimSpace (ei_SchemaVersion input),
                  im_RuntimeVersion = TrimSpace (ei_RuntimeVersion input),
                  im_AcquisitionMethod = TrimSpace (ei_AcquisitionMethod input)\<rparr>\<rparr>
          in case validate_evidence s of Some err \<Rightarrow> Err err | None \<Rightarrow> Ok s)"

definition VerifySnapshot :: "json \<Rightarrow> ev_Snapshot \<Rightarrow> evidence_error option" where
  "VerifySnapshot js s =
     (case validate_evidence s of
        Some err \<Rightarrow> Some err
      | None \<Rightarrow> (case canonicalJSON (ev_Payload s) of
          None \<Rightarrow> Some ErrInvalidPayload
        | Some canonical \<Rightarrow>
            if canonical \<noteq> ev_Payload s then Some ErrNonCanonicalPayload
            else if im_Algorithm (ev_Integrity s) \<noteq> ''SHA-256'' \<or>
                    im_PayloadDigest (ev_Integrity s) \<noteq> digest (ev_Payload s)
            then Some ErrIntegrityMismatch
            else None))"

definition ev_Rehydrate :: "json \<Rightarrow> ev_Snapshot \<Rightarrow> evidence_error + ev_Snapshot" where
  "ev_Rehydrate js s = (case VerifySnapshot js s of Some err \<Rightarrow> Err err | None \<Rightarrow> Ok s)"

section \<open>Qualification\<close>

datatype QualificationStatus = QualificationQualified | QualificationRejected | QualificationUnavailable

datatype QualificationReasonCode =
    ReasonEvidenceUnavailable | ReasonIntegrityInvalid | ReasonSourceUntrusted | ReasonTypeNotAllowed
  | ReasonTimestampFuture | ReasonQualificationExpired | ReasonConfidenceMissing | ReasonConfidenceLow
  | ReasonProvenanceMissing | ReasonPayloadFieldMissing | ReasonAcquisitionDenied | ReasonSessionMismatch
  | ReasonDuplicateObservation | ReasonConflictingObservation

record QualificationReason =
  qr_Code :: QualificationReasonCode
  qr_Field :: string

abbreviation because :: "QualificationReasonCode \<Rightarrow> string \<Rightarrow> QualificationReason" where
  "because c f \<equiv> \<lparr>qr_Code = c, qr_Field = f\<rparr>"

record QualificationResult =
  qu_EvidenceID :: uuid
  qu_Status :: QualificationStatus
  qu_EvaluatedAt :: time
  qu_PolicyVersion :: string
  qu_Reasons :: "QualificationReason list"

record SessionQualificationResult =
  sq_SessionID :: uuid
  sq_Status :: QualificationStatus
  sq_EvaluatedAt :: time
  sq_PolicyVersion :: string
  sq_Reasons :: "QualificationReason list"
  sq_Evidence :: "QualificationResult list"

text \<open>The sets of the policy as the list of their entries; durations are \<open>int\<close> nanoseconds.\<close>

record QualificationPolicy =
  qp_Version :: string
  TrustedSources :: "(string \<times> bool) list"
  AllowedTypes :: "(string \<times> bool) list"
  AllowedAcquisitionMethods :: "(string \<times> bool) list"
  MaxAge :: int
  FutureTolerance :: int
  RequireConfidence :: bool
  MinimumConfidence :: "float64 option"
  RequiredProvenance :: "string list"
  RequiredPayloadFields :: "string list"

fun normalizedKeys_set :: "string list \<Rightarrow> string list" where
  "normalizedKeys_set [] = []"
| "normalizedKeys_set (v # vs) = (if TrimSpace v = [] then normalizedKeys_set vs
     else List.insert (TrimSpace v) (normalizedKeys_set vs))"

definition normalizedKeys :: "string list \<Rightarrow> string list" where
  "normalizedKeys values = sort (normalizedKeys_set values)"

definition copyStringSet :: "(string \<times> bool) list \<Rightarrow> (string \<times> bool) list" where
  "copyStringSet values = foldl (\<lambda>m (k, allowed). AList.update (TrimSpace k) allowed m) [] values"

text \<open>A qualifier is its normalised policy.\<close>

definition NewQualifier :: "QualificationPolicy \<Rightarrow> evidence_error + QualificationPolicy" where
  "NewQualifier p =
     (if TrimSpace (qp_Version p) = [] then Err ErrQualificationPolicyVersionRequired
      else if MaxAge p < 0 then Err ErrInvalidQualificationMaxAge
      else if FutureTolerance p < 0 then Err ErrInvalidQualificationTolerance
      else if (case MinimumConfidence p of None \<Rightarrow> False
               | Some c \<Rightarrow> float_less c (Finite 0) \<or> float_less float_one c)
      then Err ErrInvalidQualificationConfidence
      else Ok (p\<lparr>qp_Version := TrimSpace (qp_Version p), TrustedSources := copyStringSet (TrustedSources p),
                 AllowedAcquisitionMethods := copyStringSet (AllowedAcquisitionMethods p),
                 RequiredProvenance := normalizedKeys (RequiredProvenance p),
                 RequiredPayloadFields := normalizedKeys (RequiredPayloadFields p)\<rparr>))"

definition in_set_map :: "(string \<times> bool) list \<Rightarrow> string \<Rightarrow> bool" where
  "in_set_map m k = (case map_of m k of Some b \<Rightarrow> b | None \<Rightarrow> False)"

text \<open>The reasons \<open>Qualify\<close> collects for a verified snapshot, in order.\<close>

definition qualify_reasons ::
  "json \<Rightarrow> QualificationPolicy \<Rightarrow> ev_Snapshot \<Rightarrow> time \<Rightarrow> QualificationReason list" where
  "qualify_reasons js q s evaluatedAt =
     (if TrustedSources q \<noteq> [] \<and> \<not> in_set_map (TrustedSources q) (ev_SourceID s)
      then [because ReasonSourceUntrusted ''source_id''] else []) @
     (if AllowedTypes q \<noteq> [] \<and> \<not> in_set_map (AllowedTypes q) (ev_EvidenceType s)
      then [because ReasonTypeNotAllowed ''evidence_type''] else []) @
     (if After (ev_ObservedAt s) (time_Add evaluatedAt (FutureTolerance q))
      then [because ReasonTimestampFuture ''observed_at'']
      else if MaxAge q > 0 \<and> time_Sub evaluatedAt (ev_ObservedAt s) > MaxAge q
      then [because ReasonQualificationExpired ''observed_at''] else []) @
     (case ev_Confidence s of
        None \<Rightarrow> if RequireConfidence q \<or> MinimumConfidence q \<noteq> None
          then [because ReasonConfidenceMissing ''confidence''] else []
      | Some c \<Rightarrow> (case MinimumConfidence q of
          None \<Rightarrow> []
        | Some low \<Rightarrow> if float_less c low then [because ReasonConfidenceLow ''confidence''] else [])) @
     map (because ReasonProvenanceMissing)
       (filter (\<lambda>key. TrimSpace (case ev_Provenance s key of None \<Rightarrow> [] | Some v \<Rightarrow> v) = [])
         (RequiredProvenance q)) @
     map (because ReasonPayloadFieldMissing)
       (filter (\<lambda>key. case json_members (ev_Payload s) key of None \<Rightarrow> True | Some v \<Rightarrow> v = JNull)
         (RequiredPayloadFields q)) @
     (if AllowedAcquisitionMethods q \<noteq> [] \<and>
         \<not> in_set_map (AllowedAcquisitionMethods q) (im_AcquisitionMethod (ev_Integrity s))
      then [because ReasonAcquisitionDenied ''acquisition_method''] else [])"

definition Qualify ::
  "json \<Rightarrow> QualificationPolicy \<Rightarrow> ev_Snapshot option \<Rightarrow> time \<Rightarrow> evidence_error + QualificationResult" where
  "Qualify js q object evaluatedAt =
     (if IsZero evaluatedAt then Err ErrQualificationTimeRequired
      else let result = \<lparr>qu_EvidenceID = Nil_uuid, qu_Status = QualificationQualified,
                 qu_EvaluatedAt = UTC evaluatedAt, qu_PolicyVersion = qp_Version q, qu_Reasons = []\<rparr>
        in case object of
          None \<Rightarrow> Ok (result\<lparr>qu_Status := QualificationUnavailable,
                     qu_Reasons := [because ReasonEvidenceUnavailable []]\<rparr>)
        | Some s \<Rightarrow>
            let result = result\<lparr>qu_EvidenceID := ev_EvidenceID s\<rparr> in
            if VerifySnapshot js s \<noteq> None
            then Ok (result\<lparr>qu_Status := QualificationRejected,
                       qu_Reasons := [because ReasonIntegrityInvalid ''integrity'']\<rparr>)
            else let reasons = qualify_reasons js q s (UTC evaluatedAt) in
              Ok (result\<lparr>qu_Reasons := reasons,
                    qu_Status := if reasons \<noteq> [] then QualificationRejected else QualificationQualified\<rparr>))"

text \<open>\<open>sort.SliceStable\<close> by observation time and identifier, missing objects last.\<close>

definition order_evidence :: "ev_Snapshot option list \<Rightarrow> ev_Snapshot option list" where
  "order_evidence objects =
     sort_key (\<lambda>ob. instant (ev_ObservedAt (the ob)))
       (sort_key (\<lambda>ob. uuid_String (ev_EvidenceID (the ob))) (filter (\<lambda>ob. ob \<noteq> None) objects)) @
     filter (\<lambda>ob. ob = None) objects"

text \<open>
  An observation: its group, the position in the result and the digest. The group key is a string built from source, type
  and observation time with separators that neither the type nor the rendered time contains, so it stands for
  that triple.
\<close>

type_synonym observation_key = "string \<times> string \<times> int"

record observation =
  ob_key :: observation_key
  ob_index :: nat
  ob_digest :: string

definition observation_key :: "ev_Snapshot \<Rightarrow> observation_key" where
  "observation_key s = (ev_SourceID s, ev_EvidenceType s, instant (ev_ObservedAt s))"

definition add_reason :: "QualificationReason \<Rightarrow> QualificationResult list \<Rightarrow> nat \<Rightarrow> QualificationResult list" where
  "add_reason r evs i = evs[i := (evs ! i)\<lparr>qu_Reasons := qu_Reasons (evs ! i) @ [r]\<rparr>]"

fun qualify_loop ::
  "json \<Rightarrow> QualificationPolicy \<Rightarrow> uuid \<Rightarrow> time \<Rightarrow> ev_Snapshot option list \<Rightarrow> QualificationResult list \<Rightarrow>
   observation list \<Rightarrow> evidence_error + QualificationResult list \<times> observation list" where
  "qualify_loop js q sessionID at [] evs obs = Ok (evs, obs)"
| "qualify_loop js q sessionID at (object # objects) evs obs =
     (case Qualify js q object at of
        Inl err \<Rightarrow> Err err
      | Inr qualified \<Rightarrow>
          let index = length evs; evs = evs @ [qualified] in
          case object of
            None \<Rightarrow> qualify_loop js q sessionID at objects evs obs
          | Some s \<Rightarrow>
              if ev_SessionID s \<noteq> sessionID
              then qualify_loop js q sessionID at objects
                     (add_reason (because ReasonSessionMismatch ''session_id'') evs index) obs
              else qualify_loop js q sessionID at objects evs
                     (obs @ [\<lparr>ob_key = observation_key s, ob_index = index,
                              ob_digest = im_PayloadDigest (ev_Integrity s)\<rparr>]))"

definition reject_group :: "observation list \<Rightarrow> QualificationResult list \<Rightarrow> QualificationResult list" where
  "reject_group items evs =
     (case items of
        [] \<Rightarrow> evs
      | first # rest \<Rightarrow>
          if list_ex (\<lambda>item. ob_digest item \<noteq> ob_digest first) rest
          then foldl (add_reason (because ReasonConflictingObservation ''payload'')) evs (map ob_index items)
          else foldl (add_reason (because ReasonDuplicateObservation ''evidence_id'')) evs (map ob_index rest))"

definition final_status :: "QualificationResult \<Rightarrow> QualificationResult" where
  "final_status r = (if qu_Reasons r \<noteq> [] \<and> qu_Status r = QualificationQualified
     then r\<lparr>qu_Status := QualificationRejected\<rparr> else r)"

definition QualifySet ::
  "json \<Rightarrow> (observation_key \<Rightarrow> nat) \<Rightarrow> QualificationPolicy \<Rightarrow> uuid \<Rightarrow> ev_Snapshot option list \<Rightarrow> time \<Rightarrow>
   evidence_error + SessionQualificationResult" where
  "QualifySet js rank q sessionID objects evaluatedAt =
     (if sessionID = Nil_uuid then Err ErrEvidenceSessionIDRequired
      else if IsZero evaluatedAt then Err ErrQualificationTimeRequired
      else let ordered = order_evidence objects;
               result = \<lparr>sq_SessionID = sessionID, sq_Status = QualificationQualified,
                 sq_EvaluatedAt = UTC evaluatedAt, sq_PolicyVersion = qp_Version q, sq_Reasons = [], sq_Evidence = []\<rparr>
        in if ordered = []
           then Ok (result\<lparr>sq_Status := QualificationUnavailable,
                      sq_Reasons := [because ReasonEvidenceUnavailable []]\<rparr>)
           else case qualify_loop js q sessionID (UTC evaluatedAt) ordered [] [] of
             Inl err \<Rightarrow> Err err
           | Inr (evs, obs) \<Rightarrow>
               let keys = sort_key rank (remdups (map ob_key obs));
                   evs = foldl (\<lambda>evs k. reject_group (filter (\<lambda>item. ob_key item = k) obs) evs) evs keys;
                   evs = map final_status evs
               in Ok (result\<lparr>sq_Evidence := evs,
                        sq_Status := if list_ex (\<lambda>r. qu_Status r \<noteq> QualificationQualified) evs
                          then QualificationRejected else QualificationQualified\<rparr>))"

section \<open>Repository and service\<close>

text \<open>The map of stored objects, keyed by their identifiers, as the list of its values.\<close>

type_synonym evidence_objects = "ev_Snapshot list"

definition object_at :: "evidence_objects \<Rightarrow> uuid \<Rightarrow> ev_Snapshot option" where
  "object_at m i = find (\<lambda>s. ev_EvidenceID s = i) m"

definition snapshotsEqual :: "json \<Rightarrow> ev_Snapshot \<Rightarrow> ev_Snapshot \<Rightarrow> bool" where
  "snapshotsEqual js left right =
     (case (json_Marshal js left, json_Marshal js right) of (Some l, Some r) \<Rightarrow> l = r | _ \<Rightarrow> False)"

definition SameSubmission :: "json \<Rightarrow> ev_Snapshot \<Rightarrow> ev_Snapshot \<Rightarrow> bool" where
  "SameSubmission js left right =
     snapshotsEqual js (left\<lparr>ev_ReceivedAt := zero_time\<rparr>) (right\<lparr>ev_ReceivedAt := zero_time\<rparr>)"

definition SaveEvidence :: "json \<Rightarrow> ev_Snapshot \<Rightarrow> evidence_objects \<Rightarrow> evidence_objects \<times> evidence_error option" where
  "SaveEvidence js s m =
     (case ev_Rehydrate js s of
        Inl err \<Rightarrow> (m, Some err)
      | Inr normalized \<Rightarrow>
          (case object_at m (ev_EvidenceID normalized) of
             Some existing \<Rightarrow> (m, if SameSubmission js existing normalized then None else Some ErrEvidenceConflict)
           | None \<Rightarrow> (m @ [normalized], None)))"

definition FindEvidence :: "json \<Rightarrow> uuid \<Rightarrow> evidence_objects \<Rightarrow> evidence_error + ev_Snapshot" where
  "FindEvidence js i m =
     (if i = Nil_uuid then Err ErrEvidenceIDRequired
      else case object_at m i of None \<Rightarrow> Err ErrEvidenceNotFound | Some s \<Rightarrow> ev_Rehydrate js s)"

fun rehydrate_all :: "json \<Rightarrow> ev_Snapshot list \<Rightarrow> evidence_error + ev_Snapshot list" where
  "rehydrate_all js [] = Ok []"
| "rehydrate_all js (s # ss) =
     (case ev_Rehydrate js s of
        Inl err \<Rightarrow> Err err
      | Inr ob \<Rightarrow> (case rehydrate_all js ss of Inl err \<Rightarrow> Err err | Inr obs \<Rightarrow> Ok (ob # obs)))"

definition ListEvidenceBySession :: "json \<Rightarrow> uuid \<Rightarrow> evidence_objects \<Rightarrow> evidence_error + ev_Snapshot list" where
  "ListEvidenceBySession js sessionID m =
     (if sessionID = Nil_uuid then Err ErrEvidenceSessionIDRequired
      else rehydrate_all js (sort_key (\<lambda>s. instant (ev_ObservedAt s))
        (sort_key (\<lambda>s. uuid_String (ev_EvidenceID s)) (filter (\<lambda>s. ev_SessionID s = sessionID) m))))"

record ServiceConfig =
  sc_SchemaVersion :: string
  sc_RuntimeVersion :: string

text \<open>A service is its configuration; the clock readings and the random identifier are arguments.\<close>

definition ev_NewService :: "ServiceConfig \<Rightarrow> evidence_error + ServiceConfig" where
  "ev_NewService config =
     (if TrimSpace (sc_SchemaVersion config) = [] then Err ErrSchemaVersionRequired
      else if TrimSpace (sc_RuntimeVersion config) = [] then Err ErrRuntimeVersionRequired
      else Ok \<lparr>sc_SchemaVersion = TrimSpace (sc_SchemaVersion config),
               sc_RuntimeVersion = TrimSpace (sc_RuntimeVersion config)\<rparr>)"

definition Ingest ::
  "json \<Rightarrow> ServiceConfig \<Rightarrow> uuid \<Rightarrow> time \<Rightarrow> ev_Input \<Rightarrow> evidence_objects \<Rightarrow>
   evidence_objects \<times> (evidence_error + ev_Snapshot)" where
  "Ingest js service random now input m =
     (let input = input\<lparr>ei_EvidenceID := if ei_EvidenceID input = Nil_uuid then New random else ei_EvidenceID input,
            ei_ReceivedAt := UTC now, ei_SchemaVersion := sc_SchemaVersion service,
            ei_RuntimeVersion := sc_RuntimeVersion service\<rparr>
      in case NewObject js input of
           Inl err \<Rightarrow> (m, Err err)
         | Inr s \<Rightarrow>
             (case SaveEvidence js s m of
                (m', Some err) \<Rightarrow> (m', Err err)
              | (m', None) \<Rightarrow> (m', FindEvidence js (ev_EvidenceID s) m')))"

definition ev_Find :: "json \<Rightarrow> uuid \<Rightarrow> evidence_objects \<Rightarrow> evidence_error + ev_Snapshot" where
  "ev_Find js i m = FindEvidence js i m"

definition ListBySession :: "json \<Rightarrow> uuid \<Rightarrow> evidence_objects \<Rightarrow> evidence_error + ev_Snapshot list" where
  "ListBySession js sessionID m =
     (if sessionID = Nil_uuid then Err ErrEvidenceSessionIDRequired else ListEvidenceBySession js sessionID m)"

definition QualifySession ::
  "json \<Rightarrow> (observation_key \<Rightarrow> nat) \<Rightarrow> uuid \<Rightarrow> QualificationPolicy option \<Rightarrow> time \<Rightarrow> evidence_objects \<Rightarrow>
   evidence_error + SessionQualificationResult" where
  "QualifySession js rank sessionID qualifier now m =
     (case qualifier of
        None \<Rightarrow> Err ErrQualifierRequired
      | Some q \<Rightarrow>
          if sessionID = Nil_uuid then Err ErrEvidenceSessionIDRequired
          else case ListEvidenceBySession js sessionID m of
            Inl err \<Rightarrow> Err err
          | Inr objects \<Rightarrow> QualifySet js rank q sessionID (map Some objects) (UTC now))"

text \<open>
  The PostgreSQL repository (\<open>evidence_repository.go\<close>, migration 0002) keeps the encoded snapshot in a \<open>JSONB\<close> column. What is
  read back is the database's rendering of that value: the other fields are read as they were written, while
  the payload, a raw JSON text inside it, comes back as the argument \<open>jsonb\<close> renders it.
\<close>

definition jsonb_column :: "(string \<Rightarrow> string) \<Rightarrow> ev_Snapshot \<Rightarrow> ev_Snapshot" where
  "jsonb_column jsonb s = s\<lparr>ev_Payload := jsonb (ev_Payload s)\<rparr>"

definition store_SaveEvidence ::
  "json \<Rightarrow> (string \<Rightarrow> string) \<Rightarrow> ev_Snapshot \<Rightarrow> evidence_objects \<Rightarrow> evidence_objects \<times> evidence_error option" where
  "store_SaveEvidence js jsonb s rows =
     (case ev_Rehydrate js s of
        Inl err \<Rightarrow> (rows, Some err)
      | Inr normalized \<Rightarrow>
          if json_Marshal js normalized = None then (rows, Some ErrEncodeEvidence)
          else (case object_at rows (ev_EvidenceID normalized) of
             None \<Rightarrow> (rows @ [jsonb_column jsonb normalized], None)
           | Some existing \<Rightarrow> (rows, case ev_Rehydrate js existing of
               Inl err \<Rightarrow> Some err
             | Inr ob \<Rightarrow> if SameSubmission js ob normalized then None else Some ErrEvidenceConflict)))"

definition store_FindEvidence :: "json \<Rightarrow> uuid \<Rightarrow> evidence_objects \<Rightarrow> evidence_error + ev_Snapshot" where
  "store_FindEvidence js i rows =
     (if i = Nil_uuid then Err ErrEvidenceIDRequired
      else case object_at rows i of None \<Rightarrow> Err ErrEvidenceNotFound | Some s \<Rightarrow> ev_Rehydrate js s)"

definition store_ListEvidenceBySession :: "json \<Rightarrow> uuid \<Rightarrow> evidence_objects \<Rightarrow> evidence_error + ev_Snapshot list" where
  "store_ListEvidenceBySession js sessionID rows =
     (if sessionID = Nil_uuid then Err ErrEvidenceSessionIDRequired
      else rehydrate_all js (sort_key (\<lambda>s. instant (truncate_micro (ev_ObservedAt s))) (sort_key ev_EvidenceID
        (filter (\<lambda>s. ev_SessionID s = sessionID) rows))))"

end
