(* ===== verification/Evidence_Properties.thy ===== *)
theory Evidence_Properties
  imports Evidence "HOL-Library.Multiset"
begin

text \<open>
  The properties of evidence: what the qualification of a session decides about each object, that stored
  evidence is immutable and ingestion can be repeated, and what the PostgreSQL repository returns.
\<close>

section \<open>Qualification of a set\<close>

text \<open>Appending reasons position by position.\<close>

definition bump :: "(nat \<Rightarrow> QualificationReason list) \<Rightarrow> QualificationResult list \<Rightarrow> QualificationResult list" where
  "bump g evs = map (\<lambda>i. (evs ! i)\<lparr>qu_Reasons := qu_Reasons (evs ! i) @ g i\<rparr>) [0..<length evs]"

lemma length_bump [simp]: "length (bump g evs) = length evs"
  by (simp add: bump_def)

lemma bump_Nil [simp]: "bump (\<lambda>i. []) evs = evs"
  by (rule nth_equalityI) (simp_all add: bump_def)

lemma bump_bump: "bump g (bump h evs) = bump (\<lambda>i. h i @ g i) evs"
  by (rule nth_equalityI) (simp_all add: bump_def)

lemma bump_cong: "(\<And>i. i < length evs \<Longrightarrow> g i = h i) \<Longrightarrow> bump g evs = bump h evs"
  by (simp add: bump_def)

lemma add_reason_bump:
  "i < length evs \<Longrightarrow> add_reason r evs i = bump (\<lambda>j. if j = i then [r] else []) evs"
  by (rule nth_equalityI) (auto simp: bump_def add_reason_def nth_list_update)

lemma length_add_reason [simp]: "length (add_reason r evs i) = length evs"
  by (simp add: add_reason_def)

lemma foldl_add_reason:
  "distinct is \<Longrightarrow> (\<And>i. i \<in> set is \<Longrightarrow> i < length evs) \<Longrightarrow>
   foldl (add_reason r) evs is = bump (\<lambda>j. if j \<in> set is then [r] else []) evs"
proof (induction "is" arbitrary: evs)
  case (Cons i js)
  then have "foldl (add_reason r) (add_reason r evs i) js =
      bump (\<lambda>j. if j \<in> set js then [r] else []) (bump (\<lambda>j. if j = i then [r] else []) evs)"
    by (simp add: add_reason_bump)
  then show ?case using Cons.prems(1) by (auto simp: bump_bump intro!: bump_cong)
qed simp

text \<open>What a group of observations adds to its members.\<close>

definition group_reasons :: "observation list \<Rightarrow> nat \<Rightarrow> QualificationReason list" where
  "group_reasons items i =
     (if i \<notin> ob_index ` set items then []
      else if \<exists>x\<in>set items. \<exists>y\<in>set items. ob_digest x \<noteq> ob_digest y
      then [because ReasonConflictingObservation ''payload'']
      else if i \<noteq> ob_index (hd items) then [because ReasonDuplicateObservation ''evidence_id''] else [])"

lemma reject_group_bump:
  assumes "distinct (map ob_index items)" "\<And>x. x \<in> set items \<Longrightarrow> ob_index x < length evs"
  shows "reject_group items evs = bump (group_reasons items) evs"
proof (cases items)
  case Nil
  have "group_reasons [] = (\<lambda>i. [])" by (simp add: fun_eq_iff group_reasons_def)
  then show ?thesis using Nil by (simp add: reject_group_def)
next
  case (Cons x xs)
  let ?conflict = "list_ex (\<lambda>item. ob_digest item \<noteq> ob_digest x) xs"
  have conf: "?conflict \<longleftrightarrow> (\<exists>y\<in>set items. \<exists>z\<in>set items. ob_digest y \<noteq> ob_digest z)"
  proof (cases ?conflict)
    case False
    then have "\<forall>y\<in>set items. ob_digest y = ob_digest x" by (auto simp: Cons list_ex_iff)
    then show ?thesis using False by auto
  qed (auto simp: Cons list_ex_iff)
  have "reject_group items evs = (if ?conflict
      then foldl (add_reason (because ReasonConflictingObservation ''payload'')) evs (map ob_index items)
      else foldl (add_reason (because ReasonDuplicateObservation ''evidence_id'')) evs (map ob_index xs))"
    by (simp add: reject_group_def Cons)
  also have "\<dots> = bump (\<lambda>i. if ?conflict
      then (if i \<in> set (map ob_index items) then [because ReasonConflictingObservation ''payload''] else [])
      else (if i \<in> set (map ob_index xs) then [because ReasonDuplicateObservation ''evidence_id''] else [])) evs"
    using foldl_add_reason [of "map ob_index items" evs] foldl_add_reason [of "map ob_index xs" evs] assms
    by (auto simp: Cons)
  also have "\<dots> = bump (group_reasons items) evs"
  proof (rule bump_cong)
    fix i
    show "(if ?conflict then (if i \<in> set (map ob_index items) then [because ReasonConflictingObservation ''payload''] else [])
        else (if i \<in> set (map ob_index xs) then [because ReasonDuplicateObservation ''evidence_id''] else [])) =
      group_reasons items i"
      using assms(1) unfolding group_reasons_def conf [symmetric] by (auto simp: Cons)
  qed
  finally show ?thesis .
qed

lemma fold_groups_bump:
  assumes "distinct (map ob_index obs)" "\<And>x. x \<in> set obs \<Longrightarrow> ob_index x < length evs"
  shows "foldl (\<lambda>evs k. reject_group (filter (\<lambda>item. ob_key item = k) obs) evs) evs keys =
    bump (\<lambda>i. concat (map (\<lambda>k. group_reasons (filter (\<lambda>item. ob_key item = k) obs) i) keys)) evs"
  using assms(2)
proof (induction keys arbitrary: evs)
  case (Cons k keys)
  have "reject_group (filter (\<lambda>item. ob_key item = k) obs) evs = bump (group_reasons (filter (\<lambda>item. ob_key item = k) obs)) evs"
    using assms(1) Cons.prems by (intro reject_group_bump) (auto simp: distinct_map_filter_key)
  then show ?case using Cons.IH [of "bump (group_reasons (filter (\<lambda>item. ob_key item = k) obs)) evs"] Cons.prems
    by (simp add: bump_bump)
qed simp

text \<open>The loop over the ordered objects: what it stores for each object, and which observations it collects.\<close>

definition object_reasons :: "json \<Rightarrow> QualificationPolicy \<Rightarrow> time \<Rightarrow> ev_Snapshot option \<Rightarrow> QualificationReason list" where
  "object_reasons js q at object =
     (case object of
        None \<Rightarrow> [because ReasonEvidenceUnavailable []]
      | Some s \<Rightarrow> if VerifySnapshot js s \<noteq> None then [because ReasonIntegrityInvalid ''integrity'']
          else qualify_reasons js q s at)"

definition verdict :: "QualificationPolicy \<Rightarrow> time \<Rightarrow> ev_Snapshot option \<Rightarrow> QualificationReason list \<Rightarrow> QualificationReason list \<Rightarrow>
    QualificationResult" where
  "verdict q at object reasons extra =
     \<lparr>qu_EvidenceID = (case object of None \<Rightarrow> Nil_uuid | Some s \<Rightarrow> ev_EvidenceID s),
      qu_Status = (case object of None \<Rightarrow> QualificationUnavailable
         | Some s \<Rightarrow> if reasons = [] then QualificationQualified else QualificationRejected),
      qu_EvaluatedAt = at, qu_PolicyVersion = qp_Version q, qu_Reasons = reasons @ extra\<rparr>"

lemma Qualify_verdict:
  "\<not> IsZero at \<Longrightarrow> Qualify js q object at = Ok (verdict q (UTC at) object (object_reasons js q (UTC at) object) [])"
  by (simp add: Qualify_def verdict_def object_reasons_def Let_def split: option.split)

definition mismatch :: "uuid \<Rightarrow> ev_Snapshot option \<Rightarrow> QualificationReason list" where
  "mismatch sessionID object =
     (case object of None \<Rightarrow> []
      | Some s \<Rightarrow> if ev_SessionID s \<noteq> sessionID then [because ReasonSessionMismatch ''session_id''] else [])"

fun observed :: "uuid \<Rightarrow> nat \<Rightarrow> ev_Snapshot option list \<Rightarrow> observation list" where
  "observed sessionID k [] = []"
| "observed sessionID k (None # objects) = observed sessionID (Suc k) objects"
| "observed sessionID k (Some s # objects) =
     (if ev_SessionID s \<noteq> sessionID then [] else [\<lparr>ob_key = observation_key s, ob_index = k,
        ob_digest = im_PayloadDigest (ev_Integrity s)\<rparr>]) @ observed sessionID (Suc k) objects"

lemma add_reason_last: "add_reason r (evs @ [x]) (length evs) = evs @ [x\<lparr>qu_Reasons := qu_Reasons x @ [r]\<rparr>]"
  by (simp add: add_reason_def)

lemma qualify_loop_result:
  assumes "\<not> IsZero at" "UTC at = at"
  shows "qualify_loop js q sessionID at objects evs obs =
    Ok (evs @ map (\<lambda>ob. verdict q at ob (object_reasons js q at ob) (mismatch sessionID ob)) objects,
        obs @ observed sessionID (length evs) objects)"
proof (induction objects arbitrary: evs obs)
  case (Cons ob objects)
  show ?case
  proof (cases ob)
    case None
    then show ?thesis
      using Cons.IH [of "evs @ [verdict q at ob (object_reasons js q at ob) []]" obs] assms
      by (simp add: Qualify_verdict mismatch_def)
  next
    case (Some s)
    show ?thesis
    proof (cases "ev_SessionID s = sessionID")
      case True
      then show ?thesis
        using Cons.IH [of "evs @ [verdict q at ob (object_reasons js q at ob) []]"] assms Some
        by (simp add: Qualify_verdict mismatch_def)
    next
      case False
      have "(verdict q at ob r [])\<lparr>qu_Reasons := qu_Reasons (verdict q at ob r []) @ [x]\<rparr> = verdict q at ob r [x]" for r x
        by (simp add: verdict_def)
      then show ?thesis
        using Cons.IH [of "evs @ [verdict q at ob (object_reasons js q at ob) (mismatch sessionID ob)]" obs] assms Some False
        by (simp add: Qualify_verdict mismatch_def add_reason_last)
    qed
  qed
qed simp

lemma observed_index: "x \<in> set (observed sessionID k objects) \<longleftrightarrow>
    (\<exists>i<length objects. \<exists>s. objects ! i = Some s \<and> ev_SessionID s = sessionID \<and>
       x = \<lparr>ob_key = observation_key s, ob_index = k + i, ob_digest = im_PayloadDigest (ev_Integrity s)\<rparr>)"
  by (induction sessionID k objects rule: observed.induct) (simp_all add: Ex_less_Suc2 del: ex_simps)

lemma observed_sorted: "sorted_wrt (<) (map ob_index (observed sessionID k objects)) \<and>
    (\<forall>x\<in>set (observed sessionID k objects). k \<le> ob_index x)"
  by (induction sessionID k objects rule: observed.induct) (auto simp: Suc_le_eq order.strict_implies_order)

text \<open>What the other objects of the set add to the reasons of the object at position \<open>i\<close>.\<close>

definition peer :: "uuid \<Rightarrow> ev_Snapshot option list \<Rightarrow> ev_Snapshot \<Rightarrow> nat \<Rightarrow> ev_Snapshot \<Rightarrow> bool" where
  "peer sessionID objects s j t \<longleftrightarrow> j < length objects \<and> objects ! j = Some t \<and> ev_SessionID t = sessionID \<and>
     observation_key t = observation_key s"

definition peer_reasons :: "uuid \<Rightarrow> ev_Snapshot option list \<Rightarrow> nat \<Rightarrow> QualificationReason list" where
  "peer_reasons sessionID objects i =
     (case objects ! i of
        None \<Rightarrow> []
      | Some s \<Rightarrow>
          if ev_SessionID s \<noteq> sessionID then [because ReasonSessionMismatch ''session_id'']
          else if \<exists>j t. peer sessionID objects s j t \<and> im_PayloadDigest (ev_Integrity t) \<noteq> im_PayloadDigest (ev_Integrity s)
          then [because ReasonConflictingObservation ''payload'']
          else if \<exists>j t. peer sessionID objects s j t \<and> j < i
          then [because ReasonDuplicateObservation ''evidence_id''] else [])"

lemma concat_map_single:
  "distinct ks \<Longrightarrow> k \<in> set ks \<Longrightarrow> (\<And>k'. k' \<noteq> k \<Longrightarrow> f k' = []) \<Longrightarrow> concat (map f ks) = f k"
proof (induction ks)
  case (Cons k' ks)
  have "\<forall>x\<in>set ks. f x = []" if "k' = k" using Cons.prems(1,3) that by (metis distinct.simps(2))
  then show ?case using Cons by (cases "k' = k") auto
qed simp

lemma hd_least_index:
  "sorted_wrt (<) (map ob_index items) \<Longrightarrow> x \<in> set items \<Longrightarrow>
   ob_index x \<noteq> ob_index (hd items) \<longleftrightarrow> (\<exists>y\<in>set items. ob_index y < ob_index x)"
  by (cases items) auto

lemma group_reasons_peer:
  assumes "i < length objects" "objects ! i = Some s" "ev_SessionID s = sessionID"
  shows "mismatch sessionID (objects ! i) @
      group_reasons (filter (\<lambda>item. ob_key item = observation_key s) (observed sessionID 0 objects)) i =
    peer_reasons sessionID objects i"
proof -
  let ?items = "filter (\<lambda>item. ob_key item = observation_key s) (observed sessionID 0 objects)"
  let ?x = "\<lparr>ob_key = observation_key s, ob_index = i, ob_digest = im_PayloadDigest (ev_Integrity s)\<rparr>"
  have mem: "y \<in> set ?items \<longleftrightarrow> (\<exists>j t. peer sessionID objects s j t \<and>
      y = \<lparr>ob_key = observation_key t, ob_index = j, ob_digest = im_PayloadDigest (ev_Integrity t)\<rparr>)" for y
    by (auto simp: observed_index peer_def)
  have x: "?x \<in> set ?items" unfolding mem using assms by (auto simp: peer_def)
  have srt: "sorted_wrt (<) (map ob_index ?items)"
    using observed_sorted [of sessionID 0 objects] by (simp add: sorted_wrt_map sorted_wrt_filter)
  have conf: "(\<exists>y\<in>set ?items. \<exists>z\<in>set ?items. ob_digest y \<noteq> ob_digest z) \<longleftrightarrow>
      (\<exists>y\<in>set ?items. ob_digest y \<noteq> ob_digest ?x)" using x by metis
  have conf': "(\<exists>y\<in>set ?items. ob_digest y \<noteq> ob_digest ?x) \<longleftrightarrow> (\<exists>j t. peer sessionID objects s j t \<and>
      im_PayloadDigest (ev_Integrity t) \<noteq> im_PayloadDigest (ev_Integrity s))"
    unfolding Bex_def mem by force
  have first: "i \<noteq> ob_index (hd ?items) \<longleftrightarrow> (\<exists>j t. peer sessionID objects s j t \<and> j < i)"
    using hd_least_index [OF srt x] unfolding Bex_def mem by force
  have "i \<in> ob_index ` set ?items" using x by force
  then show ?thesis
    unfolding group_reasons_def conf conf' first using assms by (simp add: peer_reasons_def mismatch_def)
qed

lemma group_reasons_other:
  assumes "\<And>s. objects ! i = Some s \<Longrightarrow> ev_SessionID s \<noteq> sessionID \<or> observation_key s \<noteq> k"
  shows "group_reasons (filter (\<lambda>item. ob_key item = k) (observed sessionID 0 objects)) i = []"
  using assms by (auto simp: group_reasons_def observed_index)

lemma set_reasons:
  assumes "i < length objects" "distinct keys" "set keys = ob_key ` set (observed sessionID 0 objects)"
  shows "mismatch sessionID (objects ! i) @ concat (map (\<lambda>k. group_reasons
      (filter (\<lambda>item. ob_key item = k) (observed sessionID 0 objects)) i) keys) = peer_reasons sessionID objects i"
proof (cases "\<exists>s. objects ! i = Some s \<and> ev_SessionID s = sessionID")
  case True
  then obtain s where s: "objects ! i = Some s" "ev_SessionID s = sessionID" by blast
  have "\<lparr>ob_key = observation_key s, ob_index = i, ob_digest = im_PayloadDigest (ev_Integrity s)\<rparr> \<in> set (observed sessionID 0 objects)"
    unfolding observed_index using assms(1) s by auto
  then have "observation_key s \<in> set keys" unfolding assms(3) by force
  then have "concat (map (\<lambda>k. group_reasons (filter (\<lambda>item. ob_key item = k) (observed sessionID 0 objects)) i) keys) =
      group_reasons (filter (\<lambda>item. ob_key item = observation_key s) (observed sessionID 0 objects)) i"
    using s by (intro concat_map_single assms(2) group_reasons_other) auto
  then show ?thesis using group_reasons_peer [OF assms(1) s] by simp
next
  case False
  then have "concat (map (\<lambda>k. group_reasons (filter (\<lambda>item. ob_key item = k) (observed sessionID 0 objects)) i) keys) = []"
    by (simp add: group_reasons_other)
  then show ?thesis using False by (cases "objects ! i") (auto simp: mismatch_def peer_reasons_def)
qed

lemma final_verdict: "final_status (verdict q at ob r x) = verdict q at ob (r @ x) []"
  by (cases ob) (auto simp: final_status_def verdict_def)

lemma verdict_bump: "(verdict q at ob r x)\<lparr>qu_Reasons := qu_Reasons (verdict q at ob r x) @ y\<rparr> = verdict q at ob r (x @ y)"
  by (simp add: verdict_def)

lemma order_evidence_mset:
  assumes "mset objects = mset objects'" "distinct (map (\<lambda>ob. ev_EvidenceID (the ob)) (filter (\<lambda>ob. ob \<noteq> None) objects))"
  shows "order_evidence objects = order_evidence objects'"
proof -
  let ?some = "filter (\<lambda>ob. ob \<noteq> None)" and ?id = "\<lambda>ob. uuid_String (ev_EvidenceID (the ob))"
  have "inj_on ?id (set (?some objects))"
    using assms(2) by (auto simp: distinct_map inj_on_def)
  moreover have "mset (?some objects) = mset (sort_key ?id (?some objects'))" using assms(1) by (simp add: mset_filter)
  ultimately have some: "sort_key ?id (?some objects) = sort_key ?id (?some objects')"
    by (intro sort_key_inj_key_eq) simp_all
  have none: "filter (\<lambda>ob. ob = None) xs = replicate (count (mset xs) None) None" for xs :: "ev_Snapshot option list"
    by (induction xs) auto
  show ?thesis unfolding order_evidence_def some none assms(1) ..
qed

lemma QualifySet_eq:
  assumes "sessionID \<noteq> Nil_uuid" "\<not> IsZero at" "objects \<noteq> []"
  shows "QualifySet js rank q sessionID objects at =
    (let ordered = order_evidence objects;
         evs = map (\<lambda>i. verdict q (UTC at) (ordered ! i)
           (object_reasons js q (UTC at) (ordered ! i) @ peer_reasons sessionID ordered i) []) [0..<length ordered]
     in Ok \<lparr>sq_SessionID = sessionID, sq_Status = (if list_ex (\<lambda>r. qu_Status r \<noteq> QualificationQualified) evs
              then QualificationRejected else QualificationQualified),
            sq_EvaluatedAt = UTC at, sq_PolicyVersion = qp_Version q, sq_Reasons = [], sq_Evidence = evs\<rparr>)"
proof -
  define ordered where "ordered = order_evidence objects"
  define obs where "obs = observed sessionID 0 ordered"
  define keys where "keys = sort_key rank (remdups (map ob_key obs))"
  define evs where "evs = map (\<lambda>ob. verdict q (UTC at) ob (object_reasons js q (UTC at) ob) (mismatch sessionID ob)) ordered"
  have ne: "ordered \<noteq> []"
  proof -
    have "length ordered = length objects"
      using sum_length_filter_compl [of "\<lambda>ob. ob = None" objects] by (simp add: ordered_def order_evidence_def)
    then show ?thesis using assms(3) by auto
  qed
  have loop: "qualify_loop js q sessionID (UTC at) ordered [] [] = Ok (evs, obs)"
    using qualify_loop_result [of "UTC at"] assms(2) by (simp add: evs_def obs_def)
  have "foldl (\<lambda>evs k. reject_group (filter (\<lambda>item. ob_key item = k) obs) evs) evs keys =
      bump (\<lambda>i. concat (map (\<lambda>k. group_reasons (filter (\<lambda>item. ob_key item = k) obs) i) keys)) evs"
  proof (rule fold_groups_bump)
    show "distinct (map ob_index obs)"
      using observed_sorted [of sessionID 0 ordered] unfolding obs_def strict_sorted_iff by blast
    show "ob_index x < length evs" if "x \<in> set obs" for x using that by (auto simp: obs_def evs_def observed_index)
  qed
  also have "\<dots> = map (\<lambda>i. verdict q (UTC at) (ordered ! i) (object_reasons js q (UTC at) (ordered ! i))
      (peer_reasons sessionID ordered i)) [0..<length ordered]"
    using set_reasons [of _ ordered keys sessionID]
    by (auto simp: bump_def evs_def verdict_bump obs_def keys_def)
  finally have groups: "map final_status (foldl (\<lambda>evs k. reject_group (filter (\<lambda>item. ob_key item = k) obs) evs) evs keys) =
      map (\<lambda>i. verdict q (UTC at) (ordered ! i)
           (object_reasons js q (UTC at) (ordered ! i) @ peer_reasons sessionID ordered i) []) [0..<length ordered]"
    by (simp add: final_verdict)
  show ?thesis
    using assms(1,2) ne loop groups unfolding QualifySet_def Let_def ordered_def [symmetric] keys_def by simp
qed

text \<open>A sample: two readings of one scale at the same moment with different payloads.\<close>

definition sample_json :: json where
  "sample_json = \<lparr>json_Marshal = (\<lambda>s. Some (ev_Payload s))\<rparr>"

definition sample_payload :: string where
  "sample_payload = [CHR ''{'', CHR 0x22, CHR ''a'', CHR 0x22, CHR '':'', CHR ''1'', CHR ''}'']"

lemma sample_payloads [simp]:
  "canonicalJSON ''1'' = Some ''1''" "canonicalJSON ''1 '' = Some ''1''" "canonicalJSON ''9'' = Some ''9''"
  "canonicalJSON sample_payload = Some sample_payload"
  by code_simp+

lemma sample_rendered:
  "canonicalJSON (concat (map (\<lambda>b. if b = CHR '':'' then '': '' else [b]) sample_payload)) \<noteq>
     Some (concat (map (\<lambda>b. if b = CHR '':'' then '': '' else [b]) sample_payload))"
  by code_simp

definition sample_reading :: "uuid \<Rightarrow> string \<Rightarrow> ev_Snapshot" where
  "sample_reading i payload = \<lparr>ev_EvidenceID = i, ev_SessionID = 7, ev_SourceID = ''scale'', ev_SourceType = ''sensor'',
     ev_EvidenceType = ''WEIGHT'', ev_ObservedAt = Time 100 0, ev_ReceivedAt = Time 110 0, ev_Payload = payload,
     ev_Confidence = None, ev_Provenance = Map.empty,
     ev_Integrity = \<lparr>im_Algorithm = ''SHA-256'', im_PayloadDigest = digest payload, im_SchemaVersion = ''1'',
       im_RuntimeVersion = ''1'', im_AcquisitionMethod = ''direct''\<rparr>\<rparr>"

definition sample_policy_q :: QualificationPolicy where
  "sample_policy_q = \<lparr>qp_Version = ''1'', TrustedSources = [], AllowedTypes = [], AllowedAcquisitionMethods = [],
     MaxAge = 0, FutureTolerance = 0, RequireConfidence = False, MinimumConfidence = None, RequiredProvenance = [],
     RequiredPayloadFields = []\<rparr>"

lemma sample_reading_verified:
  "i \<noteq> Nil_uuid \<Longrightarrow> canonicalJSON p = Some p \<Longrightarrow> VerifySnapshot sample_json (sample_reading i p) = None"
  by (simp add: VerifySnapshot_def validate_evidence_def sample_reading_def sample_json_def graphic_def typePattern_def
      code_pattern_def code_char_def go_time)

text \<open>
  C33. The qualification of a session's evidence set gives every object, in the order of observation, exactly the
  reasons of the policy and of its peers: an object of another session is a mismatch; among the objects of one source, type and
  moment any difference of digests makes all of them conflicting, and otherwise all but the first are duplicates. An object
  qualifies exactly when it has no reason, and the set when all its objects do. The order in which the
  objects are given and in which the groups are visited does not matter.
\<close>

theorem qualify_set_exact:
  assumes "sessionID \<noteq> Nil_uuid" "\<not> IsZero at" "objects \<noteq> []"
    and "mset objects' = mset objects" "distinct (map (\<lambda>ob. ev_EvidenceID (the ob)) (filter (\<lambda>ob. ob \<noteq> None) objects))"
  shows "QualifySet js rank' q sessionID objects' at = QualifySet js rank q sessionID objects at \<and>
    QualifySet js rank q sessionID objects at =
    (let ordered = order_evidence objects;
         evs = map (\<lambda>i. verdict q (UTC at) (ordered ! i)
           (object_reasons js q (UTC at) (ordered ! i) @ peer_reasons sessionID ordered i) []) [0..<length ordered]
     in Ok \<lparr>sq_SessionID = sessionID, sq_Status = (if list_ex (\<lambda>r. qu_Status r \<noteq> QualificationQualified) evs
              then QualificationRejected else QualificationQualified),
            sq_EvaluatedAt = UTC at, sq_PolicyVersion = qp_Version q, sq_Reasons = [], sq_Evidence = evs\<rparr>)"
proof -
  have "objects' \<noteq> []" using assms(3,4) by auto
  moreover have "order_evidence objects' = order_evidence objects"
    using order_evidence_mset [OF assms(4) [symmetric] assms(5)] by simp
  ultimately show ?thesis
    using QualifySet_eq [OF assms(1,2), of objects js rank q] QualifySet_eq [OF assms(1,2), of objects' js rank' q] assms(3)
    by simp
qed

theorem qualify_set_exact_witness:
  "QualifySet sample_json (\<lambda>k. 0) sample_policy_q 7 [Some (sample_reading 2 ''1''), None, Some (sample_reading 1 ''1'')] (Time 200 0) =
   Ok \<lparr>sq_SessionID = 7, sq_Status = QualificationRejected, sq_EvaluatedAt = Time 200 0, sq_PolicyVersion = ''1'', sq_Reasons = [],
     sq_Evidence = [
       \<lparr>qu_EvidenceID = 1, qu_Status = QualificationQualified, qu_EvaluatedAt = Time 200 0, qu_PolicyVersion = ''1'', qu_Reasons = []\<rparr>,
       \<lparr>qu_EvidenceID = 2, qu_Status = QualificationRejected, qu_EvaluatedAt = Time 200 0, qu_PolicyVersion = ''1'',
        qu_Reasons = [because ReasonDuplicateObservation ''evidence_id'']\<rparr>,
       \<lparr>qu_EvidenceID = 0, qu_Status = QualificationUnavailable, qu_EvaluatedAt = Time 200 0, qu_PolicyVersion = ''1'',
        qu_Reasons = [because ReasonEvidenceUnavailable []]\<rparr>]\<rparr>"
proof -
  let ?objects = "[Some (sample_reading 2 ''1''), None, Some (sample_reading 1 ''1'')]"
  have f: "ev_EvidenceID (sample_reading i p) = i" "ev_ObservedAt (sample_reading i p) = Time 100 0"
    "ev_SessionID (sample_reading i p) = 7" "observation_key (sample_reading i p) = (''scale'', ''WEIGHT'', 100)"
    "im_PayloadDigest (ev_Integrity (sample_reading i p)) = digest p" for i p
    by (simp_all add: sample_reading_def observation_key_def)
  have "uuid_String 1 < uuid_String 2" unfolding uuid_String_less by simp
  then have ord: "order_evidence ?objects = [Some (sample_reading 1 ''1''), Some (sample_reading 2 ''1''), None]"
    by (simp add: order_evidence_def f)
  have base: "object_reasons sample_json sample_policy_q (Time 200 0) (Some (sample_reading i ''1'')) = []" if "i \<noteq> 0" for i
    using sample_reading_verified [of i "''1''"] that
    by (simp add: object_reasons_def qualify_reasons_def sample_policy_q_def go_time time_Add_def f(2))
      (simp add: sample_reading_def)
  have "peer 7 [Some (sample_reading 1 ''1''), Some (sample_reading 2 ''1''), None] (sample_reading i ''1'') j t \<longleftrightarrow>
      (j = 0 \<and> t = sample_reading 1 ''1'') \<or> (j = Suc 0 \<and> t = sample_reading 2 ''1'')" for i j t
    by (cases j; cases "j - 1"; cases "j - 2") (auto simp: peer_def f)
  then have peers: "peer_reasons 7 [Some (sample_reading 1 ''1''), Some (sample_reading 2 ''1''), None] 0 = []"
    "peer_reasons 7 [Some (sample_reading 1 ''1''), Some (sample_reading 2 ''1''), None] (Suc 0) =
       [because ReasonDuplicateObservation ''evidence_id'']"
    "peer_reasons 7 [Some (sample_reading 1 ''1''), Some (sample_reading 2 ''1''), None] (Suc (Suc 0)) = []"
    by (auto simp: peer_reasons_def f)
  have "[0..<3] = [0, Suc 0, Suc (Suc 0)]" by (simp add: upt_rec numeral_3_eq_3)
  then show ?thesis
    using conjunct2 [OF qualify_set_exact [of 7 "Time 200 0" ?objects ?objects sample_json "\<lambda>k. 0" sample_policy_q "\<lambda>k. 0"]]
    by (simp add: ord peers base f IsZero_def UTC_def Let_def verdict_def)
      (simp add: object_reasons_def sample_policy_q_def)
qed

section \<open>Stored evidence\<close>

definition evidence_fields_ok :: "ev_Snapshot \<Rightarrow> bool" where
  "evidence_fields_ok s \<longleftrightarrow> ev_EvidenceID s \<noteq> Nil_uuid \<and> ev_SessionID s \<noteq> Nil_uuid \<and> TrimSpace (ev_SourceID s) \<noteq> [] \<and>
     TrimSpace (ev_SourceType s) \<noteq> [] \<and> typePattern (ev_EvidenceType s) \<and> \<not> IsZero (ev_ObservedAt s) \<and>
     (case ev_Confidence s of None \<Rightarrow> True | Some c \<Rightarrow> \<not> float_less c (Finite 0) \<and> \<not> float_less float_one c) \<and>
     TrimSpace (im_SchemaVersion (ev_Integrity s)) \<noteq> [] \<and> TrimSpace (im_RuntimeVersion (ev_Integrity s)) \<noteq> [] \<and>
     TrimSpace (im_AcquisitionMethod (ev_Integrity s)) \<noteq> []"

lemma validate_evidence_None: "validate_evidence s = None \<longleftrightarrow>
    evidence_fields_ok s \<and> \<not> IsZero (ev_ReceivedAt s) \<and> \<not> Before (ev_ReceivedAt s) (ev_ObservedAt s)"
  by (cases "ev_Confidence s") (simp_all add: validate_evidence_def evidence_fields_ok_def)

lemma VerifySnapshot_None: "VerifySnapshot js s = None \<longleftrightarrow>
    validate_evidence s = None \<and> canonicalJSON (ev_Payload s) = Some (ev_Payload s) \<and>
    im_Algorithm (ev_Integrity s) = ''SHA-256'' \<and> im_PayloadDigest (ev_Integrity s) = digest (ev_Payload s)"
  by (simp add: VerifySnapshot_def split: option.split)

lemma evidence_fields_received [simp]: "evidence_fields_ok (s\<lparr>ev_ReceivedAt := t\<rparr>) = evidence_fields_ok s"
  by (simp add: evidence_fields_ok_def)























text \<open>
  C35. The PostgreSQL repository accepts a verified object whose payload the database does not render in canonical form, and
  from then on cannot read it: finding it, listing its session and repeating the submission all fail.
\<close>

theorem stored_evidence_unreadable:
  assumes "VerifySnapshot js s = None" "json_Marshal js s \<noteq> None" "object_at rows (ev_EvidenceID s) = None"
    and "canonicalJSON (jsonb (ev_Payload s)) \<noteq> Some (jsonb (ev_Payload s))"
  shows "\<exists>rows'. store_SaveEvidence js jsonb s rows = (rows', None) \<and>
    (\<exists>err. store_FindEvidence js (ev_EvidenceID s) rows' = Err err) \<and>
    (\<exists>err. store_ListEvidenceBySession js (ev_SessionID s) rows' = Err err) \<and>
    (\<exists>err. store_SaveEvidence js jsonb s rows' = (rows', Some err))"
proof -
  let ?bad = "jsonb_column jsonb s"
  have save: "store_SaveEvidence js jsonb s rows = (rows @ [?bad], None)"
    using assms(1-3) by (simp add: store_SaveEvidence_def ev_Rehydrate_def)
  have "VerifySnapshot js ?bad \<noteq> None" unfolding VerifySnapshot_None using assms(4) by (simp add: jsonb_column_def)
  then obtain err where bad: "ev_Rehydrate js ?bad = Err err" by (auto simp: ev_Rehydrate_def)
  have at: "object_at (rows @ [?bad]) (ev_EvidenceID s) = Some ?bad"
    using assms(3) by (simp add: object_at_def find_append jsonb_column_def)
  have ids: "ev_EvidenceID s \<noteq> Nil_uuid" "ev_SessionID s \<noteq> Nil_uuid"
    using assms(1) by (simp_all add: VerifySnapshot_None validate_evidence_None evidence_fields_ok_def)
  have all: "\<exists>err. rehydrate_all js ss = Err err" if "?bad \<in> set ss" for ss
    using that by (induction ss) (auto simp: bad split: sum.splits)
  show ?thesis
  proof (intro exI [of _ "rows @ [?bad]"] conjI save)
    show "\<exists>err. store_FindEvidence js (ev_EvidenceID s) (rows @ [?bad]) = Err err"
      using at bad ids by (simp add: store_FindEvidence_def)
    show "\<exists>err. store_ListEvidenceBySession js (ev_SessionID s) (rows @ [?bad]) = Err err"
      using ids all by (simp add: store_ListEvidenceBySession_def jsonb_column_def)
    show "\<exists>err. store_SaveEvidence js jsonb s (rows @ [?bad]) = (rows @ [?bad], Some err)"
      using assms(1,2) at bad by (simp add: store_SaveEvidence_def ev_Rehydrate_def [of js s])
  qed
qed

text \<open>The payload \<open>{"a":1}\<close>, which PostgreSQL renders with a space after the colon.\<close>

theorem stored_evidence_unreadable_witness:
  "\<exists>rows'. store_SaveEvidence sample_json (\<lambda>p. concat (map (\<lambda>b. if b = CHR '':'' then '': '' else [b]) p))
      (sample_reading 1 sample_payload) [] = (rows', None) \<and>
    (\<exists>err. store_FindEvidence sample_json 1 rows' = Err err)"
proof -
  let ?s = "sample_reading 1 sample_payload"
  have "ev_EvidenceID ?s = 1" "ev_Payload ?s = sample_payload" by (simp_all add: sample_reading_def)
  moreover have "VerifySnapshot sample_json ?s = None" by (rule sample_reading_verified) simp_all
  ultimately show ?thesis
    using stored_evidence_unreadable [of sample_json ?s "[]" "\<lambda>p. concat (map (\<lambda>b. if b = CHR '':'' then '': '' else [b]) p)"]
      sample_rendered by (simp add: sample_json_def object_at_def) blast
qed

end
