(* ===== verification/Policy.thy ===== *)
theory Policy
  imports Uuid Sha256 Json "HOL-Library.AList"
begin

text \<open>
  Verification policies: immutable versions and their hash (\<open>version.go\<close>), signatures and the in-memory trust
  store (\<open>signature.go\<close>), approval and activation (\<open>lifecycle.go\<close>), the registry (\<open>registry.go\<close>) and admission
  (\<open>admission.go\<close>) of \<open>src/policy\<close>.

  A \<open>Version\<close> is its snapshot and a nil pointer is \<open>None\<close>; documents are JSON texts of \<open>Json\<close>. The encoded
  envelopes that are hashed and signed are written out, with the error \<open>json.Marshal\<close> reports for a time outside
  the years 0 to 9999. Ed25519 verification is the argument \<open>ed25519\<close> of the definitions: public key, message and
  signature. The nested map of the registry is the list of its entries with their two keys.
\<close>

section \<open>Encoded times\<close>

text \<open>The proleptic Gregorian date of a day number, counted from 1 January of the year 1.\<close>

definition civil :: "int \<Rightarrow> int \<times> int \<times> int" where
  "civil days =
     (let z = days + 306; era = z div 146097; doe = z mod 146097;
          yoe = (doe - doe div 1460 + doe div 36524 - doe div 146096) div 365;
          doy = doe - (365 * yoe + yoe div 4 - yoe div 100);
          mp = (5 * doy + 2) div 153;
          m = (if mp < 10 then mp + 3 else mp - 9)
      in (yoe + era * 400 + (if m \<le> 2 then 1 else 0), m, doy - (153 * mp + 2) div 5 + 1))"

definition day_ns :: int where "day_ns = 86400 * 1000000000"

definition year :: "time \<Rightarrow> int" where
  "year t = fst (civil (instant t div day_ns))"

definition pad :: "nat \<Rightarrow> int \<Rightarrow> string" where
  "pad n k = (let s = decimal (nat k) in replicate (n - length s) (CHR ''0'') @ s)"

definition fraction :: "int \<Rightarrow> string" where
  "fraction ns = (if ns = 0 then [] else ''.'' @ rev (dropWhile (\<lambda>c. c = CHR ''0'') (rev (pad 9 ns))))"

definition rfc3339 :: "time \<Rightarrow> string" where
  "rfc3339 t =
     (let (y, m, d) = civil (instant t div day_ns); n = instant t mod day_ns; s = n div 1000000000
      in pad 4 y @ ''-'' @ pad 2 m @ ''-'' @ pad 2 d @ ''T'' @ pad 2 (s div 3600) @ '':'' @
         pad 2 (s div 60 mod 60) @ '':'' @ pad 2 (s mod 60) @ fraction (n mod 1000000000) @ ''Z'')"

text \<open>\<open>Time.MarshalJSON\<close> of a UTC time.\<close>

definition encode_time :: "time \<Rightarrow> string option" where
  "encode_time t = (if 0 \<le> year t \<and> year t \<le> 9999 then Some ([CHR 0x22] @ rfc3339 t @ [CHR 0x22]) else None)"

definition encode_string :: "string \<Rightarrow> string" where
  "encode_string s = [CHR 0x22] @ quote s @ [CHR 0x22]"

text \<open>The text of a struct whose fields have the given names and encodings; a field that fails makes it fail.\<close>

fun encode_fields :: "(string \<times> string option) list \<Rightarrow> string option" where
  "encode_fields [] = Some []"
| "encode_fields ((name, value) # fs) =
     (case (value, encode_fields fs) of
        (Some v, Some r) \<Rightarrow> Some (encode_string name @ '':'' @ v @ (if fs = [] then [] else '','') @ r)
      | _ \<Rightarrow> None)"

definition encode_struct :: "(string \<times> string option) list \<Rightarrow> string option" where
  "encode_struct fs = map_option (\<lambda>s. ''{'' @ s @ ''}'') (encode_fields fs)"

definition encode_strings :: "string list \<Rightarrow> string" where
  "encode_strings ss = Marshal (JArray (map JString ss))"

section \<open>Versions\<close>

datatype policy_error =
    ErrPolicyIDRequired
  | ErrVersionRequired
  | ErrSchemaVersionRequired
  | ErrEffectiveFromRequired
  | ErrInvalidEffectivePeriod
  | ErrRequiredRulesMissing
  | ErrDuplicateRequiredRule string
  | ErrInvalidDocument
  | ErrNonCanonicalDocument
  | ErrHashMismatch
  | ErrEncoding
  | ErrSignatureRequired
  | ErrSignerIDRequired
  | ErrKeyIDRequired
  | ErrAlgorithmRequired
  | ErrSignedAtRequired
  | ErrVerificationTimeRequired
  | ErrTrustStoreRequired
  | ErrVerificationKeyAbsent
  | ErrUnsupportedAlgorithm
  | ErrInvalidSignature
  | ErrKeyNotYetValid
  | ErrKeyExpired
  | ErrKeyRevoked
  | ErrVerificationKeyConflict
  | ErrApproverRequired
  | ErrApprovedAtRequired
  | ErrActivationTimeRequired
  | ErrApprovalIdentityMismatch
  | ErrApprovalAfterActivation
  | ErrInvalidLifecycleChange
  | ErrVersionConflict
  | ErrEffectiveOverlap
  | ErrPolicyNotFound
  | ErrAmbiguousPolicy
  | ErrPolicyRegistryRequired
  | ErrDocumentValidatorRequired
  | ErrVerificationAfterActivation
  | ErrDocument string

record po_Input =
  pi_PolicyID :: string
  pi_Version :: string
  pi_SchemaVersion :: string
  pi_EffectiveFrom :: time
  pi_EffectiveUntil :: "time option"
  pi_RequiredRuleIDs :: "string list"
  pi_Document :: string

record po_Snapshot =
  po_PolicyID :: string
  po_Version :: string
  po_SchemaVersion :: string
  po_EffectiveFrom :: time
  po_EffectiveUntil :: "time option"
  po_RequiredRuleIDs :: "string list"
  po_Document :: string
  po_Hash :: string

fun normalizeRules :: "string list \<Rightarrow> string list \<Rightarrow> policy_error + string list" where
  "normalizeRules seen [] = Ok []"
| "normalizeRules seen (r # rs) =
     (if TrimSpace r = [] then Err ErrRequiredRulesMissing
      else if TrimSpace r \<in> set seen then Err (ErrDuplicateRequiredRule (TrimSpace r))
      else case normalizeRules (TrimSpace r # seen) rs of
          Inl err \<Rightarrow> Err err
        | Inr rs' \<Rightarrow> Ok (TrimSpace r # rs'))"

definition normalizeAndValidate :: "po_Snapshot \<Rightarrow> policy_error + po_Snapshot" where
  "normalizeAndValidate s0 =
     (let s = s0\<lparr>po_PolicyID := TrimSpace (po_PolicyID s0), po_Version := TrimSpace (po_Version s0),
            po_SchemaVersion := TrimSpace (po_SchemaVersion s0), po_EffectiveFrom := UTC (po_EffectiveFrom s0),
            po_EffectiveUntil := map_option UTC (po_EffectiveUntil s0)\<rparr>
      in if po_PolicyID s = [] then Err ErrPolicyIDRequired
         else if po_Version s = [] then Err ErrVersionRequired
         else if po_SchemaVersion s = [] then Err ErrSchemaVersionRequired
         else if IsZero (po_EffectiveFrom s) then Err ErrEffectiveFromRequired
         else if (case po_EffectiveUntil s of None \<Rightarrow> False | Some u \<Rightarrow> \<not> After u (po_EffectiveFrom s))
         then Err ErrInvalidEffectivePeriod
         else if po_RequiredRuleIDs s = [] then Err ErrRequiredRulesMissing
         else case normalizeRules [] (po_RequiredRuleIDs s) of
             Inl err \<Rightarrow> Err err
           | Inr rs \<Rightarrow> Ok (s\<lparr>po_RequiredRuleIDs := rs\<rparr>))"

text \<open>
  The hash of the encoded envelope. When the encoding fails the code hashes the empty payload. The document
  is canonical text here, which the encoder copies.
\<close>

definition hash_fields :: "po_Snapshot \<Rightarrow> (string \<times> string option) list" where
  "hash_fields s =
     [(''policy_id'', Some (encode_string (po_PolicyID s))), (''version'', Some (encode_string (po_Version s))),
      (''schema_version'', Some (encode_string (po_SchemaVersion s))),
      (''effective_from'', encode_time (po_EffectiveFrom s))] @
     (case po_EffectiveUntil s of None \<Rightarrow> [] | Some u \<Rightarrow> [(''effective_until'', encode_time u)]) @
     [(''required_rule_ids'', Some (encode_strings (po_RequiredRuleIDs s))),
      (''document'', Some (po_Document s))]"

definition hash_envelope :: "po_Snapshot \<Rightarrow> string option" where
  "hash_envelope s = encode_struct (hash_fields s)"

definition calculateHash :: "po_Snapshot \<Rightarrow> string" where
  "calculateHash s =
     (let payload = (case hash_envelope s of None \<Rightarrow> [] | Some p \<Rightarrow> p)
      in ''sha256:'' @ concat (map (\<lambda>b. hex_Encode 2 (unat b)) (sha256 (bytes_of payload))))"

definition NewVersion :: "po_Input \<Rightarrow> policy_error + po_Snapshot" where
  "NewVersion input =
     (case canonicalJSON (pi_Document input) of
        None \<Rightarrow> Err ErrInvalidDocument
      | Some document \<Rightarrow>
          (case normalizeAndValidate \<lparr>po_PolicyID = TrimSpace (pi_PolicyID input), po_Version = TrimSpace (pi_Version input),
             po_SchemaVersion = TrimSpace (pi_SchemaVersion input), po_EffectiveFrom = UTC (pi_EffectiveFrom input),
             po_EffectiveUntil = map_option UTC (pi_EffectiveUntil input), po_RequiredRuleIDs = pi_RequiredRuleIDs input,
             po_Document = document, po_Hash = []\<rparr> of
             Inl err \<Rightarrow> Err err
           | Inr s \<Rightarrow> Ok (s\<lparr>po_Hash := calculateHash s\<rparr>)))"

definition copySnapshot :: "po_Snapshot \<Rightarrow> po_Snapshot" where
  "copySnapshot s = s\<lparr>po_EffectiveUntil := map_option UTC (po_EffectiveUntil s)\<rparr>"

definition po_Rehydrate :: "po_Snapshot \<Rightarrow> policy_error + po_Snapshot" where
  "po_Rehydrate snapshot =
     (case normalizeAndValidate (copySnapshot snapshot) of
        Inl err \<Rightarrow> Err err
      | Inr s \<Rightarrow>
          (case canonicalJSON (po_Document s) of
             None \<Rightarrow> Err ErrInvalidDocument
           | Some canonical \<Rightarrow>
               if canonical \<noteq> po_Document s then Err ErrNonCanonicalDocument
               else if po_Hash s \<noteq> calculateHash s then Err ErrHashMismatch
               else Ok s))"

definition IsEffectiveAt :: "po_Snapshot option \<Rightarrow> time \<Rightarrow> bool" where
  "IsEffectiveAt version at =
     (case version of
        None \<Rightarrow> False
      | Some s \<Rightarrow>
          if IsZero at then False
          else \<not> Before (UTC at) (po_EffectiveFrom s) \<and>
               (case po_EffectiveUntil s of None \<Rightarrow> True | Some u \<Rightarrow> Before (UTC at) u))"

section \<open>Signatures\<close>

record Signature =
  sg_SignerID :: string
  sg_KeyID :: string
  sg_Algorithm :: string
  sg_SignedAt :: time
  sg_Value :: string

record VerificationKey =
  vk_SignerID :: string
  vk_KeyID :: string
  vk_Algorithm :: string
  vk_PublicKey :: bytes
  vk_ValidFrom :: time
  vk_ValidUntil :: "time option"
  vk_RevokedAt :: "time option"

record VerifiedVersion =
  vv_version :: po_Snapshot
  vv_signature :: Signature

type_synonym ed25519 = "bytes \<Rightarrow> bytes \<Rightarrow> bytes \<Rightarrow> bool"
type_synonym trust_store = "string \<Rightarrow> string \<Rightarrow> policy_error + VerificationKey"

definition AlgorithmEd25519 :: string where "AlgorithmEd25519 = ''ED25519''"

text \<open>\<open>base64.StdEncoding.DecodeString\<close>: line breaks are skipped and padding is required.\<close>

definition base64_digit :: "char \<Rightarrow> nat option" where
  "base64_digit c =
     (if char_range (CHR ''A'') (CHR ''Z'') c then Some (of_char c - 65)
      else if char_range (CHR ''a'') (CHR ''z'') c then Some (of_char c - 71)
      else if char_range (CHR ''0'') (CHR ''9'') c then Some (of_char c + 4)
      else if c = CHR ''+'' then Some 62
      else if c = CHR ''/'' then Some 63
      else None)"

definition quantum :: "nat \<Rightarrow> char \<Rightarrow> char \<Rightarrow> char \<Rightarrow> char \<Rightarrow> bytes option" where
  "quantum n a b c d =
     (case (base64_digit a, base64_digit b, base64_digit c, base64_digit d) of
        (Some i, Some j, Some k, Some l) \<Rightarrow>
          let v = ((i * 64 + j) * 64 + k) * 64 + l
          in Some (take n [of_nat (v div 65536), of_nat (v div 256 mod 256), of_nat (v mod 256)])
      | _ \<Rightarrow> None)"

fun base64_quanta :: "string \<Rightarrow> bytes option" where
  "base64_quanta [] = Some []"
| "base64_quanta (a # b # c # d # r) =
     (if d = CHR ''='' then
        (if r \<noteq> [] then None
         else if c = CHR ''='' then quantum 1 a b (CHR ''A'') (CHR ''A'')
         else quantum 2 a b c (CHR ''A''))
      else case (quantum 3 a b c d, base64_quanta r) of (Some x, Some y) \<Rightarrow> Some (x @ y) | _ \<Rightarrow> None)"
| "base64_quanta _ = None"

definition DecodeString :: "string \<Rightarrow> bytes option" where
  "DecodeString s = base64_quanta (filter (\<lambda>c. c \<noteq> CHR 0x0A \<and> c \<noteq> CHR 0x0D) s)"

definition SigningPayload :: "po_Snapshot option \<Rightarrow> Signature \<Rightarrow> policy_error + bytes" where
  "SigningPayload version sig =
     (case version of
        None \<Rightarrow> Err ErrPolicyNotFound
      | Some v \<Rightarrow>
          (case encode_struct
             [(''domain'', Some (encode_string ''cargoos:policy-signature:v1'')),
              (''policy_hash'', Some (encode_string (po_Hash v))),
              (''signer_id'', Some (encode_string (TrimSpace (sg_SignerID sig)))),
              (''key_id'', Some (encode_string (TrimSpace (sg_KeyID sig)))),
              (''algorithm'', Some (encode_string (TrimSpace (sg_Algorithm sig)))),
              (''signed_at'', encode_time (UTC (sg_SignedAt sig)))] of
             None \<Rightarrow> Err ErrEncoding
           | Some payload \<Rightarrow> Ok (sha256 (bytes_of payload))))"

definition normalizeSignature :: "Signature \<Rightarrow> Signature" where
  "normalizeSignature sig = sig\<lparr>sg_SignerID := TrimSpace (sg_SignerID sig), sg_KeyID := TrimSpace (sg_KeyID sig),
     sg_Algorithm := TrimSpace (sg_Algorithm sig), sg_SignedAt := UTC (sg_SignedAt sig)\<rparr>"

definition signature_fields :: "Signature \<Rightarrow> time \<Rightarrow> policy_error option" where
  "signature_fields sig verifiedAt =
     (if sg_SignerID sig = [] then Some ErrSignerIDRequired
      else if sg_KeyID sig = [] then Some ErrKeyIDRequired
      else if sg_Algorithm sig = [] then Some ErrAlgorithmRequired
      else if IsZero (sg_SignedAt sig) then Some ErrSignedAtRequired
      else if sg_Value sig = [] then Some ErrSignatureRequired
      else if IsZero verifiedAt then Some ErrVerificationTimeRequired
      else None)"

definition reached :: "time option \<Rightarrow> time \<Rightarrow> bool" where
  "reached limit t = (case limit of None \<Rightarrow> False | Some l \<Rightarrow> \<not> Before t (UTC l))"

definition key_usable :: "VerificationKey \<Rightarrow> Signature \<Rightarrow> time \<Rightarrow> policy_error option" where
  "key_usable key sig verifiedAt =
     (if vk_SignerID key \<noteq> sg_SignerID sig \<or> vk_KeyID key \<noteq> sg_KeyID sig then Some ErrVerificationKeyAbsent
      else if vk_Algorithm key \<noteq> sg_Algorithm sig \<or> sg_Algorithm sig \<noteq> AlgorithmEd25519 then Some ErrUnsupportedAlgorithm
      else if \<not> IsZero (vk_ValidFrom key) \<and> Before (sg_SignedAt sig) (UTC (vk_ValidFrom key)) then Some ErrKeyNotYetValid
      else if reached (vk_ValidUntil key) (sg_SignedAt sig) then Some ErrKeyExpired
      else if reached (vk_RevokedAt key) (sg_SignedAt sig) then Some ErrKeyRevoked
      else if reached (vk_ValidUntil key) verifiedAt then Some ErrKeyExpired
      else if reached (vk_RevokedAt key) verifiedAt then Some ErrKeyRevoked
      else None)"

definition Verifier_Verify ::
  "ed25519 \<Rightarrow> trust_store option \<Rightarrow> po_Snapshot option \<Rightarrow> Signature \<Rightarrow> time \<Rightarrow> policy_error + VerifiedVersion" where
  "Verifier_Verify ed25519 trustStore version signature verifiedAt =
     (case trustStore of None \<Rightarrow> Err ErrTrustStoreRequired | Some resolve \<Rightarrow>
      (case version of None \<Rightarrow> Err ErrPolicyNotFound | Some v \<Rightarrow>
       let sig = normalizeSignature signature in
       (case signature_fields sig (UTC verifiedAt) of Some err \<Rightarrow> Err err | None \<Rightarrow>
        (case resolve (sg_SignerID sig) (sg_KeyID sig) of Inl err \<Rightarrow> Err err | Inr key \<Rightarrow>
         (case key_usable key sig (UTC verifiedAt) of Some err \<Rightarrow> Err err | None \<Rightarrow>
          (case DecodeString (sg_Value sig) of None \<Rightarrow> Err ErrInvalidSignature | Some val \<Rightarrow>
           if length val \<noteq> 64 \<or> length (vk_PublicKey key) \<noteq> 32 then Err ErrInvalidSignature
           else let payload = (case SigningPayload version sig of Inl _ \<Rightarrow> [] | Inr p \<Rightarrow> p)
             in if \<not> ed25519 (vk_PublicKey key) payload val then Err ErrInvalidSignature
                else Ok \<lparr>vv_version = v, vv_signature = sig\<rparr>))))))"

subsection \<open>The in-memory trust store\<close>

type_synonym MemoryTrustStore = "string \<rightharpoonup> VerificationKey"

definition identity :: "string \<Rightarrow> string \<Rightarrow> string" where
  "identity signerID keyID = signerID @ [CHR 0x00] @ keyID"

fun sameOptionalTime :: "time option \<Rightarrow> time option \<Rightarrow> bool" where
  "sameOptionalTime None None = True"
| "sameOptionalTime (Some l) (Some r) = time_Equal l r"
| "sameOptionalTime _ _ = False"

definition sameVerificationKey :: "VerificationKey \<Rightarrow> VerificationKey \<Rightarrow> bool" where
  "sameVerificationKey l r \<longleftrightarrow> vk_SignerID l = vk_SignerID r \<and> vk_KeyID l = vk_KeyID r \<and>
     vk_Algorithm l = vk_Algorithm r \<and> vk_PublicKey l = vk_PublicKey r \<and> time_Equal (vk_ValidFrom l) (vk_ValidFrom r) \<and>
     sameOptionalTime (vk_ValidUntil l) (vk_ValidUntil r) \<and> sameOptionalTime (vk_RevokedAt l) (vk_RevokedAt r)"

definition trust_Add :: "VerificationKey \<Rightarrow> MemoryTrustStore \<Rightarrow> MemoryTrustStore \<times> policy_error option" where
  "trust_Add key0 keys =
     (let key = key0\<lparr>vk_SignerID := TrimSpace (vk_SignerID key0), vk_KeyID := TrimSpace (vk_KeyID key0),
            vk_Algorithm := TrimSpace (vk_Algorithm key0)\<rparr>
      in if vk_SignerID key = [] \<or> vk_KeyID key = [] \<or> vk_Algorithm key = [] \<or> vk_PublicKey key = []
         then (keys, Some ErrVerificationKeyAbsent)
         else case keys (identity (vk_SignerID key) (vk_KeyID key)) of
             Some existing \<Rightarrow> (keys, if sameVerificationKey existing key then None else Some ErrVerificationKeyConflict)
           | None \<Rightarrow> (keys(identity (vk_SignerID key) (vk_KeyID key) \<mapsto> key), None))"

fun NewMemoryTrustStore :: "VerificationKey list \<Rightarrow> MemoryTrustStore \<Rightarrow> policy_error + MemoryTrustStore" where
  "NewMemoryTrustStore [] store = Ok store"
| "NewMemoryTrustStore (key # ks) store =
     (case trust_Add key store of (store', Some err) \<Rightarrow> Err err | (store', None) \<Rightarrow> NewMemoryTrustStore ks store')"

definition Revoke :: "string \<Rightarrow> string \<Rightarrow> time \<Rightarrow> MemoryTrustStore \<Rightarrow> MemoryTrustStore \<times> policy_error option" where
  "Revoke signerID keyID revokedAt keys =
     (if IsZero revokedAt then (keys, Some ErrVerificationKeyAbsent)
      else let i = identity (TrimSpace signerID) (TrimSpace keyID)
      in case keys i of
          None \<Rightarrow> (keys, Some ErrVerificationKeyAbsent)
        | Some key \<Rightarrow> (case vk_RevokedAt key of
            Some t \<Rightarrow> (keys, if time_Equal t (UTC revokedAt) then None else Some ErrVerificationKeyConflict)
          | None \<Rightarrow> (keys(i \<mapsto> key\<lparr>vk_RevokedAt := Some (UTC revokedAt)\<rparr>), None)))"

definition ResolveVerificationKey :: "MemoryTrustStore \<Rightarrow> trust_store" where
  "ResolveVerificationKey keys signerID keyID =
     (case keys (identity signerID keyID) of None \<Rightarrow> Err ErrVerificationKeyAbsent | Some key \<Rightarrow> Ok key)"

section \<open>Well-formed versions\<close>

text \<open>What a \<open>Version\<close> guarantees: normal fields, a proper period, distinct rules, a canonical document and its hash.\<close>

definition period_ok :: "po_Snapshot \<Rightarrow> bool" where
  "period_ok s \<longleftrightarrow> \<not> IsZero (po_EffectiveFrom s) \<and>
     (case po_EffectiveUntil s of None \<Rightarrow> True | Some u \<Rightarrow> After u (po_EffectiveFrom s))"

definition normal_policy :: "po_Snapshot \<Rightarrow> bool" where
  "normal_policy s \<longleftrightarrow>
     TrimSpace (po_PolicyID s) = po_PolicyID s \<and> po_PolicyID s \<noteq> [] \<and>
     TrimSpace (po_Version s) = po_Version s \<and> po_Version s \<noteq> [] \<and>
     TrimSpace (po_SchemaVersion s) = po_SchemaVersion s \<and> po_SchemaVersion s \<noteq> [] \<and>
     UTC (po_EffectiveFrom s) = po_EffectiveFrom s \<and> map_option UTC (po_EffectiveUntil s) = po_EffectiveUntil s \<and>
     period_ok s \<and>
     po_RequiredRuleIDs s \<noteq> [] \<and> distinct (po_RequiredRuleIDs s) \<and>
     list_all (\<lambda>r. TrimSpace r = r \<and> r \<noteq> []) (po_RequiredRuleIDs s)"

definition wf_policy :: "po_Snapshot \<Rightarrow> bool" where
  "wf_policy s \<longleftrightarrow> normal_policy s \<and> canonicalJSON (po_Document s) = Some (po_Document s) \<and> po_Hash s = calculateHash s"

lemma normalizeRules_normal:
  "normalizeRules seen rs = Ok rs' \<Longrightarrow> distinct rs' \<and> list_all (\<lambda>r. TrimSpace r = r \<and> r \<noteq> []) rs' \<and>
     set rs' \<inter> set seen = {} \<and> length rs' = length rs"
  by (induction seen rs arbitrary: rs' rule: normalizeRules.induct) (force split: if_splits sum.splits)+

lemma normalizeRules_fixed:
  "distinct rs \<Longrightarrow> list_all (\<lambda>r. TrimSpace r = r \<and> r \<noteq> []) rs \<Longrightarrow> set rs \<inter> set seen = {} \<Longrightarrow>
   normalizeRules seen rs = Ok rs"
  by (induction rs arbitrary: seen) auto

lemma normalizeAndValidate_normal:
  assumes "normalizeAndValidate s0 = Ok s"
  shows "normal_policy s" "po_Document s = po_Document s0" "po_Hash s = po_Hash s0"
proof -
  obtain rs where "normalizeRules [] (po_RequiredRuleIDs s0) = Ok rs" and ne: "po_RequiredRuleIDs s0 \<noteq> []"
    and s: "s = s0\<lparr>po_PolicyID := TrimSpace (po_PolicyID s0), po_Version := TrimSpace (po_Version s0),
            po_SchemaVersion := TrimSpace (po_SchemaVersion s0), po_EffectiveFrom := UTC (po_EffectiveFrom s0),
            po_EffectiveUntil := map_option UTC (po_EffectiveUntil s0), po_RequiredRuleIDs := rs\<rparr>"
    and f: "TrimSpace (po_PolicyID s0) \<noteq> []" "TrimSpace (po_Version s0) \<noteq> []" "TrimSpace (po_SchemaVersion s0) \<noteq> []"
      "period_ok s"
    using assms
    by (auto simp: normalizeAndValidate_def Let_def period_ok_def split: if_splits sum.splits option.splits)
  then have "distinct rs" "list_all (\<lambda>r. TrimSpace r = r \<and> r \<noteq> []) rs" "rs \<noteq> []"
    using normalizeRules_normal by fastforce+
  with f s show "normal_policy s" "po_Document s = po_Document s0" "po_Hash s = po_Hash s0"
    by (auto simp: normal_policy_def option.map_comp comp_def)
qed

lemma normalizeAndValidate_fixed: "normal_policy s \<Longrightarrow> normalizeAndValidate s = Ok s"
  by (auto simp: normal_policy_def period_ok_def normalizeAndValidate_def normalizeRules_fixed Let_def
      split: option.splits)

lemma calculateHash_Hash [simp]: "calculateHash (s\<lparr>po_Hash := h\<rparr>) = calculateHash s"
  by (simp add: calculateHash_def hash_envelope_def hash_fields_def)

lemma normal_policy_Hash [simp]: "normal_policy (s\<lparr>po_Hash := h\<rparr>) = normal_policy s"
  by (simp add: normal_policy_def period_ok_def split: option.split)

lemma NewVersion_wf: "NewVersion input = Ok s \<Longrightarrow> wf_policy s"
  using normalizeAndValidate_normal canonicalJSON_idem
  by (fastforce simp: NewVersion_def wf_policy_def split: option.splits sum.splits)

lemma copySnapshot_normal: "normal_policy s \<Longrightarrow> copySnapshot s = s"
  by (simp add: copySnapshot_def normal_policy_def)

lemma Rehydrate_wf: "po_Rehydrate s = Ok v \<Longrightarrow> wf_policy v"
  using normalizeAndValidate_normal
  by (fastforce simp: po_Rehydrate_def wf_policy_def split: option.splits sum.splits if_splits)

lemma Rehydrate_fixed: "wf_policy s \<Longrightarrow> po_Rehydrate s = Ok s"
  by (simp add: wf_policy_def po_Rehydrate_def copySnapshot_normal normalizeAndValidate_fixed)

section \<open>Accepted signatures\<close>

text \<open>What \<open>Verifier_Verify\<close> requires of the key and of the signature value, and the message it checks.\<close>

definition signed_message :: "po_Snapshot \<Rightarrow> Signature \<Rightarrow> bytes" where
  "signed_message v sig = (case SigningPayload (Some v) sig of Inl _ \<Rightarrow> [] | Inr p \<Rightarrow> p)"

lemma Verifier_Ok:
  "Verifier_Verify ed25519 (Some resolve) (Some v) signature verifiedAt = Ok vv \<longleftrightarrow>
   (let sig = normalizeSignature signature in
    vv = \<lparr>vv_version = v, vv_signature = sig\<rparr> \<and> signature_fields sig (UTC verifiedAt) = None \<and>
    (\<exists>key val. resolve (sg_SignerID sig) (sg_KeyID sig) = Ok key \<and> key_usable key sig (UTC verifiedAt) = None \<and>
       DecodeString (sg_Value sig) = Some val \<and> length val = 64 \<and> length (vk_PublicKey key) = 32 \<and>
       ed25519 (vk_PublicKey key) (signed_message v sig) val))"
  by (auto simp: Verifier_Verify_def signed_message_def Let_def split: option.splits sum.splits if_splits)

lemma encode_fields_None: "(name, None) \<in> set fs \<Longrightarrow> encode_fields fs = None"
  by (induction fs rule: encode_fields.induct) (auto split: option.splits)

lemma encode_struct_None: "(name, None) \<in> set fs \<Longrightarrow> encode_struct fs = None"
  by (simp add: encode_struct_def encode_fields_None)

lemma hash_envelope_None:
  assumes "encode_time (po_EffectiveFrom s) = None \<or> (\<exists>u. po_EffectiveUntil s = Some u \<and> encode_time u = None)"
  shows "hash_envelope s = None"
proof -
  have "(''effective_from'', None) \<in> set (hash_fields s) \<or> (''effective_until'', None) \<in> set (hash_fields s)"
    using assms by (auto simp: hash_fields_def)
  then show ?thesis unfolding hash_envelope_def using encode_struct_None by blast
qed

lemma signed_message_unencodable:
  assumes "encode_time (UTC (sg_SignedAt sig)) = None"
  shows "signed_message v sig = []"
  using assms by (simp add: signed_message_def SigningPayload_def encode_struct_def)

end
