(* ===== verification/Policy_Registry.thy ===== *)
theory Policy_Registry
  imports Policy
begin

text \<open>
  Approval and activation of policies (\<open>lifecycle.go\<close>), the registry of active versions (\<open>registry.go\<close>) and the
  admission service (\<open>admission.go\<close>) of \<open>src/policy\<close>, and the tables that keep the registry in PostgreSQL
  (\<open>src/persistence/postgres/policy_repository.go\<close>, migrations 0003 to 0005).
\<close>

section \<open>Activation\<close>

datatype LifecycleStatus = LifecycleActive | LifecycleSuspended | LifecycleRetired

record ApprovalRecord =
  ar_PolicyID :: string
  ar_Version :: string
  ar_PolicyHash :: string
  ar_ApprovedBy :: string
  ar_ApprovedAt :: time

record ActivatedVersion =
  av_verified :: VerifiedVersion
  av_approval :: ApprovalRecord
  av_activated :: time

definition normalizeApproval :: "ApprovalRecord \<Rightarrow> ApprovalRecord" where
  "normalizeApproval a = \<lparr>ar_PolicyID = TrimSpace (ar_PolicyID a), ar_Version = TrimSpace (ar_Version a),
     ar_PolicyHash = TrimSpace (ar_PolicyHash a), ar_ApprovedBy = TrimSpace (ar_ApprovedBy a),
     ar_ApprovedAt = UTC (ar_ApprovedAt a)\<rparr>"

definition Activate ::
  "VerifiedVersion option \<Rightarrow> ApprovalRecord \<Rightarrow> time \<Rightarrow> policy_error + ActivatedVersion" where
  "Activate verified approval activatedAt =
     (case verified of
        None \<Rightarrow> Err ErrPolicyNotFound
      | Some v \<Rightarrow>
          let a = normalizeApproval approval; s = vv_version v in
          if ar_ApprovedBy a = [] then Err ErrApproverRequired
          else if IsZero (ar_ApprovedAt a) then Err ErrApprovedAtRequired
          else if IsZero (UTC activatedAt) then Err ErrActivationTimeRequired
          else if ar_PolicyID a \<noteq> po_PolicyID s \<or> ar_Version a \<noteq> po_Version s \<or> ar_PolicyHash a \<noteq> po_Hash s
          then Err ErrApprovalIdentityMismatch
          else if After (ar_ApprovedAt a) (UTC activatedAt) then Err ErrApprovalAfterActivation
          else Ok \<lparr>av_verified = v, av_approval = a, av_activated = UTC activatedAt\<rparr>)"

section \<open>The registry\<close>

record registryEntry =
  re_snapshot :: po_Snapshot
  re_status :: LifecycleStatus
  re_statusAt :: time

type_synonym Registry = "((string \<times> string) \<times> registryEntry) list"

definition effectiveAt :: "po_Snapshot \<Rightarrow> time \<Rightarrow> bool" where
  "effectiveAt s at \<longleftrightarrow> \<not> IsZero (UTC at) \<and> \<not> Before (UTC at) (po_EffectiveFrom s) \<and>
     (case po_EffectiveUntil s of None \<Rightarrow> True | Some u \<Rightarrow> Before (UTC at) u)"

definition effectivePeriodsOverlap :: "po_Snapshot \<Rightarrow> po_Snapshot \<Rightarrow> bool" where
  "effectivePeriodsOverlap l r \<longleftrightarrow>
     (case po_EffectiveUntil l of None \<Rightarrow> True | Some u \<Rightarrow> Before (po_EffectiveFrom r) u) \<and>
     (case po_EffectiveUntil r of None \<Rightarrow> True | Some u \<Rightarrow> Before (po_EffectiveFrom l) u)"

definition by_policy :: "string \<Rightarrow> Registry \<Rightarrow> registryEntry list" where
  "by_policy policyID r = map snd (filter (\<lambda>((p, v), e). p = policyID) r)"

definition registry_Add :: "ActivatedVersion option \<Rightarrow> Registry \<Rightarrow> Registry \<times> policy_error option" where
  "registry_Add activated r =
     (case activated of
        None \<Rightarrow> (r, Some ErrPolicyNotFound)
      | Some a \<Rightarrow>
          let s = vv_version (av_verified a) in
          (case map_of r (po_PolicyID s, po_Version s) of
             Some existing \<Rightarrow>
               (r, if po_Hash (re_snapshot existing) = po_Hash s then None else Some ErrVersionConflict)
           | None \<Rightarrow>
               if list_ex (\<lambda>existing. effectivePeriodsOverlap (re_snapshot existing) s) (by_policy (po_PolicyID s) r)
               then (r, Some ErrEffectiveOverlap)
               else (((po_PolicyID s, po_Version s), \<lparr>re_snapshot = copySnapshot s, re_status = LifecycleActive,
                       re_statusAt = av_activated a\<rparr>) # r, None)))"

definition transition_valid :: "LifecycleStatus \<Rightarrow> LifecycleStatus \<Rightarrow> bool" where
  "transition_valid current target \<longleftrightarrow>
     (current = LifecycleActive \<and> (target = LifecycleSuspended \<or> target = LifecycleRetired)) \<or>
     (current = LifecycleSuspended \<and> target = LifecycleRetired)"

definition registry_transition ::
  "string \<Rightarrow> string \<Rightarrow> LifecycleStatus \<Rightarrow> time \<Rightarrow> Registry \<Rightarrow> Registry \<times> policy_error option" where
  "registry_transition policyID version target at r =
     (if IsZero at then (r, Some ErrInvalidLifecycleChange)
      else case map_of r (policyID, version) of
          None \<Rightarrow> (r, Some ErrInvalidLifecycleChange)
        | Some e \<Rightarrow>
            if Before (UTC at) (re_statusAt e) then (r, Some ErrInvalidLifecycleChange)
            else if \<not> transition_valid (re_status e) target then (r, Some ErrInvalidLifecycleChange)
            else (AList.update (policyID, version) (e\<lparr>re_status := target, re_statusAt := UTC at\<rparr>) r, None))"

definition registry_Suspend :: "string \<Rightarrow> string \<Rightarrow> time \<Rightarrow> Registry \<Rightarrow> Registry \<times> policy_error option" where
  "registry_Suspend policyID version at = registry_transition policyID version LifecycleSuspended at"

definition registry_Retire :: "string \<Rightarrow> string \<Rightarrow> time \<Rightarrow> Registry \<Rightarrow> Registry \<times> policy_error option" where
  "registry_Retire policyID version at = registry_transition policyID version LifecycleRetired at"

definition registry_matches :: "string \<Rightarrow> time \<Rightarrow> Registry \<Rightarrow> po_Snapshot list" where
  "registry_matches policyID at r = map re_snapshot (filter (\<lambda>e. re_status e = LifecycleActive \<and>
     \<not> Before at (re_statusAt e) \<and> effectiveAt (re_snapshot e) at) (by_policy policyID r))"

definition registry_Resolve :: "string \<Rightarrow> time \<Rightarrow> Registry \<Rightarrow> policy_error + po_Snapshot" where
  "registry_Resolve policyID at r =
     (case registry_matches policyID at r of
        [] \<Rightarrow> Err ErrPolicyNotFound
      | [s] \<Rightarrow> po_Rehydrate s
      | _ \<Rightarrow> Err ErrAmbiguousPolicy)"

definition registry_FindVersion :: "string \<Rightarrow> string \<Rightarrow> string \<Rightarrow> Registry \<Rightarrow> policy_error + po_Snapshot" where
  "registry_FindVersion policyID version hash r =
     (case map_of r (policyID, version) of
        None \<Rightarrow> Err ErrPolicyNotFound
      | Some e \<Rightarrow> if po_Hash (re_snapshot e) = hash then po_Rehydrate (re_snapshot e) else Err ErrPolicyNotFound)"

section \<open>Admission\<close>

text \<open>
  The registry and the document validator are interfaces of the service: the operation \<open>add\<close> on the state of the
  registry, and the validator's verdict on a version. A nil interface is \<open>None\<close>.
\<close>

type_synonym validator = "po_Snapshot \<Rightarrow> policy_error option"
type_synonym 'r registry_add = "ActivatedVersion option \<Rightarrow> 'r \<Rightarrow> 'r \<times> policy_error option"

definition NewAdmissionService ::
  "trust_store option \<Rightarrow> validator option \<Rightarrow> 'r registry_add option \<Rightarrow> policy_error option" where
  "NewAdmissionService trustStore validator registry =
     (if trustStore = None then Some ErrTrustStoreRequired
      else if validator = None then Some ErrDocumentValidatorRequired
      else if registry = None then Some ErrPolicyRegistryRequired
      else None)"

definition Admit ::
  "ed25519 \<Rightarrow> trust_store option \<Rightarrow> validator option \<Rightarrow> 'r registry_add option \<Rightarrow> po_Snapshot option \<Rightarrow> Signature \<Rightarrow>
   ApprovalRecord \<Rightarrow> time \<Rightarrow> time \<Rightarrow> 'r \<Rightarrow> 'r \<times> (policy_error + ActivatedVersion)" where
  "Admit ed25519 trustStore validator registry version signature approval verifiedAt activatedAt r =
     (if trustStore = None then (r, Err ErrTrustStoreRequired) else
      case registry of None \<Rightarrow> (r, Err ErrPolicyRegistryRequired) | Some add \<Rightarrow>
      case validator of None \<Rightarrow> (r, Err ErrDocumentValidatorRequired) | Some validate \<Rightarrow>
      if \<not> IsZero (UTC verifiedAt) \<and> \<not> IsZero (UTC activatedAt) \<and> After (UTC verifiedAt) (UTC activatedAt)
      then (r, Err ErrVerificationAfterActivation) else
      case Verifier_Verify ed25519 trustStore version signature (UTC verifiedAt) of Inl err \<Rightarrow> (r, Err err) | Inr verified \<Rightarrow>
      case validate (vv_version verified) of Some err \<Rightarrow> (r, Err err) | None \<Rightarrow>
      case Activate (Some verified) approval (UTC activatedAt) of Inl err \<Rightarrow> (r, Err err) | Inr activated \<Rightarrow>
      case add (Some activated) r of
        (r', Some err) \<Rightarrow> (r', Err err)
      | (r', None) \<Rightarrow> (r', Ok activated))"

section \<open>The PostgreSQL tables\<close>

text \<open>
  A row of \<open>policy_versions\<close> has the columns the queries use beside the encoded snapshot; \<open>TIMESTAMPTZ\<close> columns keep
  microseconds. The rows of \<open>policy_lifecycle_events\<close> are in the order of their \<open>event_id\<close>. Both tables are
  append-only. A failed statement rolls the transaction back; its error is \<open>ErrDatabase\<close> unless the code names it.
\<close>

datatype store_error = PolicyError policy_error | ErrDatabase

record policy_row =
  pr_snapshot :: po_Snapshot
  pr_effective_from :: time
  pr_effective_until :: "time option"
  pr_signed :: bool

record lifecycle_event =
  le_key :: "string \<times> string"
  le_status :: LifecycleStatus
  le_event_at :: time
  le_approval :: "(string \<times> time) option"

record policy_db =
  policy_versions :: "policy_row list"
  policy_lifecycle_events :: "lifecycle_event list"

abbreviation pr_key :: "policy_row \<Rightarrow> string \<times> string" where
  "pr_key row \<equiv> (po_PolicyID (pr_snapshot row), po_Version (pr_snapshot row))"

text \<open>A \<open>TEXT\<close> value: UTF-8 without the zero byte.\<close>

definition text_ok :: "string \<Rightarrow> bool" where
  "text_ok s \<longleftrightarrow> valid_utf8 s \<and> CHR 0x00 \<notin> set s"

text \<open>The snapshot in the \<open>BYTEA\<close> column: encoded after a check, and decoded and checked again when it is read.\<close>

definition encodePolicySnapshot :: "po_Snapshot \<Rightarrow> store_error option" where
  "encodePolicySnapshot s =
     (case po_Rehydrate s of
        Inl err \<Rightarrow> Some (PolicyError err)
      | Inr _ \<Rightarrow> if hash_envelope s = None then Some (PolicyError ErrEncoding) else None)"

definition reread :: "string \<Rightarrow> string" where
  "reread s = (case unquote (quote s @ [CHR 0x22]) of Some (t, _) \<Rightarrow> t | None \<Rightarrow> [])"

definition decodePolicySnapshot :: "po_Snapshot \<Rightarrow> store_error + po_Snapshot" where
  "decodePolicySnapshot s =
     (case po_Rehydrate (s\<lparr>po_PolicyID := reread (po_PolicyID s), po_Version := reread (po_Version s),
          po_SchemaVersion := reread (po_SchemaVersion s), po_RequiredRuleIDs := map reread (po_RequiredRuleIDs s),
          po_Hash := reread (po_Hash s)\<rparr>) of
        Inl err \<Rightarrow> Err (PolicyError err)
      | Inr v \<Rightarrow> Ok v)"

text \<open>The half-open ranges of the exclusion constraint.\<close>

definition ranges_overlap :: "time \<times> time option \<Rightarrow> time \<times> time option \<Rightarrow> bool" where
  "ranges_overlap l r \<longleftrightarrow>
     (case snd l of None \<Rightarrow> True | Some u \<Rightarrow> Before (fst r) u) \<and>
     (case snd r of None \<Rightarrow> True | Some u \<Rightarrow> Before (fst l) u)"

abbreviation pr_range :: "policy_row \<Rightarrow> time \<times> time option" where
  "pr_range row \<equiv> (pr_effective_from row, pr_effective_until row)"

definition insert_policy_version :: "po_Snapshot \<Rightarrow> Signature \<Rightarrow> policy_db \<Rightarrow> store_error + policy_db" where
  "insert_policy_version s sig db =
     (let row = \<lparr>pr_snapshot = s, pr_effective_from = truncate_micro (po_EffectiveFrom s),
            pr_effective_until = map_option truncate_micro (po_EffectiveUntil s), pr_signed = True\<rparr>
      in if \<not> list_all text_ok [po_PolicyID s, po_Version s, po_SchemaVersion s, sg_SignerID sig, sg_KeyID sig,
              sg_Algorithm sig, sg_Value sig]
         then Err ErrDatabase
         else if (case pr_effective_until row of None \<Rightarrow> False | Some u \<Rightarrow> \<not> After u (pr_effective_from row))
         then Err ErrDatabase
         else if list_ex (\<lambda>old. po_PolicyID (pr_snapshot old) = po_PolicyID s \<and> ranges_overlap (pr_range old) (pr_range row))
           (policy_versions db)
         then Err (PolicyError ErrEffectiveOverlap)
         else Ok (db\<lparr>policy_versions := policy_versions db @ [row]\<rparr>))"

definition insertActivation :: "po_Snapshot \<Rightarrow> ApprovalRecord \<Rightarrow> time \<Rightarrow> policy_db \<Rightarrow> store_error + policy_db" where
  "insertActivation s approval activatedAt db =
     (case find (\<lambda>e. le_key e = (po_PolicyID s, po_Version s) \<and> le_status e = LifecycleActive)
          (policy_lifecycle_events db) of
        Some e \<Rightarrow>
          if time_Equal (le_event_at e) activatedAt \<and>
             (case le_approval e of None \<Rightarrow> False
              | Some (by, at) \<Rightarrow> by = ar_ApprovedBy approval \<and> time_Equal at (ar_ApprovedAt approval))
          then Ok db else Err (PolicyError ErrInvalidLifecycleChange)
      | None \<Rightarrow>
          let approvedAt = truncate_micro (ar_ApprovedAt approval); eventAt = truncate_micro activatedAt in
          if \<not> text_ok (ar_ApprovedBy approval) \<or> ar_ApprovedBy approval = [] \<or> After approvedAt eventAt
          then Err ErrDatabase
          else Ok (db\<lparr>policy_lifecycle_events := policy_lifecycle_events db @
                 [\<lparr>le_key = (po_PolicyID s, po_Version s), le_status = LifecycleActive, le_event_at = eventAt,
                   le_approval = Some (ar_ApprovedBy approval, approvedAt)\<rparr>]\<rparr>))"

definition store_Add :: "ActivatedVersion option \<Rightarrow> policy_db \<Rightarrow> policy_db \<times> store_error option" where
  "store_Add activated db =
     (case activated of None \<Rightarrow> (db, Some (PolicyError ErrPolicyNotFound)) | Some a \<Rightarrow>
      let s = vv_version (av_verified a) in
      case encodePolicySnapshot s of Some err \<Rightarrow> (db, Some err) | None \<Rightarrow>
      case (case find (\<lambda>row. pr_key row = (po_PolicyID s, po_Version s)) (policy_versions db) of
              Some row \<Rightarrow> if po_Hash (pr_snapshot row) = po_Hash s \<and> pr_signed row then Ok db
                else Err (PolicyError ErrVersionConflict)
            | None \<Rightarrow> insert_policy_version s (vv_signature (av_verified a)) db) of
        Inl err \<Rightarrow> (db, Some err)
      | Inr db' \<Rightarrow>
          (case insertActivation s (av_approval a) (av_activated a) db' of
             Inl err \<Rightarrow> (db, Some err)
           | Inr db'' \<Rightarrow> (db'', None)))"

text \<open>The event with the latest time, the later one of two with the same time.\<close>

definition latest_event :: "string \<times> string \<Rightarrow> lifecycle_event list \<Rightarrow> lifecycle_event option" where
  "latest_event key events =
     foldl (\<lambda>best e. if le_key e \<noteq> key then best
       else case best of None \<Rightarrow> Some e | Some b \<Rightarrow> if Before (le_event_at e) (le_event_at b) then best else Some e)
     None events"

definition transitionPolicy ::
  "string \<Rightarrow> string \<Rightarrow> LifecycleStatus \<Rightarrow> time \<Rightarrow> policy_db \<Rightarrow> policy_db \<times> store_error option" where
  "transitionPolicy policyID version target at db =
     (if policyID = [] \<or> version = [] \<or> IsZero at then (db, Some (PolicyError ErrInvalidLifecycleChange))
      else case latest_event (policyID, version) (policy_lifecycle_events db) of
          None \<Rightarrow> (db, Some (PolicyError ErrInvalidLifecycleChange))
        | Some e \<Rightarrow>
            if le_status e = target \<and> time_Equal (le_event_at e) (UTC at) then (db, None)
            else if \<not> transition_valid (le_status e) target \<or> Before (UTC at) (le_event_at e)
            then (db, Some (PolicyError ErrInvalidLifecycleChange))
            else if list_ex (\<lambda>old. le_key old = (policyID, version) \<and> le_status old = target) (policy_lifecycle_events db)
            then (db, Some ErrDatabase)
            else (db\<lparr>policy_lifecycle_events := policy_lifecycle_events db @
                    [\<lparr>le_key = (policyID, version), le_status = target, le_event_at = truncate_micro (UTC at),
                      le_approval = None\<rparr>]\<rparr>, None))"

definition store_Suspend :: "string \<Rightarrow> string \<Rightarrow> time \<Rightarrow> policy_db \<Rightarrow> policy_db \<times> store_error option" where
  "store_Suspend policyID version at = transitionPolicy policyID version LifecycleSuspended at"

definition store_Retire :: "string \<Rightarrow> string \<Rightarrow> time \<Rightarrow> policy_db \<Rightarrow> policy_db \<times> store_error option" where
  "store_Retire policyID version at = transitionPolicy policyID version LifecycleRetired at"

definition resolvable :: "string \<Rightarrow> time \<Rightarrow> policy_db \<Rightarrow> policy_row \<Rightarrow> bool" where
  "resolvable policyID at db row \<longleftrightarrow> po_PolicyID (pr_snapshot row) = policyID \<and> pr_signed row \<and>
     (case latest_event (pr_key row) (policy_lifecycle_events db) of
        None \<Rightarrow> False
      | Some e \<Rightarrow> le_status e = LifecycleActive \<and> \<not> Before at (le_event_at e)) \<and>
     \<not> Before at (pr_effective_from row) \<and>
     (case pr_effective_until row of None \<Rightarrow> True | Some u \<Rightarrow> Before at u)"

fun decode_rows :: "policy_row list \<Rightarrow> store_error + po_Snapshot list" where
  "decode_rows [] = Ok []"
| "decode_rows (row # rows) =
     (case decodePolicySnapshot (pr_snapshot row) of
        Inl err \<Rightarrow> Err err
      | Inr v \<Rightarrow> (case decode_rows rows of Inl err \<Rightarrow> Err err | Inr vs \<Rightarrow> Ok (v # vs)))"

definition store_Resolve :: "string \<Rightarrow> time \<Rightarrow> policy_db \<Rightarrow> store_error + po_Snapshot" where
  "store_Resolve policyID at db =
     (if policyID = [] \<or> IsZero at then Err (PolicyError ErrPolicyNotFound)
      else case decode_rows (take 2 (sort_key (\<lambda>row. instant (pr_effective_from row))
             (sort_key (\<lambda>row. po_Version (pr_snapshot row))
             (filter (resolvable policyID (truncate_micro (UTC at)) db) (policy_versions db))))) of
          Inl err \<Rightarrow> Err err
        | Inr [] \<Rightarrow> Err (PolicyError ErrPolicyNotFound)
        | Inr [v] \<Rightarrow> Ok v
        | Inr _ \<Rightarrow> Err (PolicyError ErrAmbiguousPolicy))"

definition store_FindVersion :: "string \<Rightarrow> string \<Rightarrow> string \<Rightarrow> policy_db \<Rightarrow> store_error + po_Snapshot" where
  "store_FindVersion policyID version hash db =
     (case find (\<lambda>row. pr_key row = (policyID, version) \<and> po_Hash (pr_snapshot row) = hash \<and> pr_signed row)
          (policy_versions db) of
        None \<Rightarrow> Err (PolicyError ErrPolicyNotFound)
      | Some row \<Rightarrow> decodePolicySnapshot (pr_snapshot row))"

section \<open>The contract of a registry\<close>

text \<open>
  A registry keeps, for each policy and version, an immutable snapshot and a period. Every operation keeps
  what is there, and adds at most one version, whose key is new and whose period meets no period of the same policy.
\<close>

type_synonym period = "time \<times> time option"
type_synonym catalogue = "((string \<times> string) \<times> period) list"

definition apart :: "(string \<times> string) \<times> period \<Rightarrow> (string \<times> string) \<times> period \<Rightarrow> bool" where
  "apart x y \<longleftrightarrow> fst x \<noteq> fst y \<and> (fst (fst x) = fst (fst y) \<longrightarrow> \<not> ranges_overlap (snd x) (snd y))"

definition all_apart :: "catalogue \<Rightarrow> bool" where
  "all_apart = sorted_wrt apart"

definition covers :: "string \<Rightarrow> time \<Rightarrow> (string \<times> string) \<times> period \<Rightarrow> bool" where
  "covers policyID at x \<longleftrightarrow> fst (fst x) = policyID \<and> \<not> Before at (fst (snd x)) \<and>
     (case snd (snd x) of None \<Rightarrow> True | Some u \<Rightarrow> Before at u)"

lemma ranges_overlap_sym: "ranges_overlap p q \<longleftrightarrow> ranges_overlap q p"
  by (auto simp: ranges_overlap_def)

lemma apart_sym: "apart x y \<Longrightarrow> apart y x"
  using ranges_overlap_sym [of "snd x" "snd y"] by (auto simp: apart_def)

lemma covers_overlap: "covers p at x \<Longrightarrow> covers p at y \<Longrightarrow> ranges_overlap (snd x) (snd y)"
  by (auto simp: covers_def ranges_overlap_def go_time split: option.splits)

lemma covers_unique:
  assumes "all_apart cat"
  shows "length (filter (covers p at) cat) \<le> 1"
  using assms unfolding all_apart_def
proof (induction cat)
  case (Cons x cat)
  show ?case
  proof (cases "covers p at x")
    case True
    have "\<not> covers p at y" if "y \<in> set cat" for y
    proof
      assume "covers p at y"
      then have "ranges_overlap (snd x) (snd y)" "fst (fst x) = fst (fst y)"
        using True covers_overlap [of p at x y] unfolding covers_def by blast+
      then show False using Cons.prems that by (auto simp: apart_def)
    qed
    then show ?thesis by (simp add: filter_empty_conv)
  qed (use Cons in simp)
qed simp

locale policy_registry =
  fixes exec :: "'c \<Rightarrow> 's \<Rightarrow> 's \<times> 'e option"
    and catalogue :: "'s \<Rightarrow> catalogue"
    and version_of :: "'s \<Rightarrow> string \<times> string \<rightharpoonup> po_Snapshot"
  assumes grows: "catalogue (fst (exec c s)) = catalogue s \<or>
      (\<exists>x. catalogue (fst (exec c s)) \<in> {x # catalogue s, catalogue s @ [x]} \<and> (\<forall>y\<in>set (catalogue s). apart y x))"
    and immutable: "version_of s k = Some v \<Longrightarrow> version_of (fst (exec c s)) k = Some v"
begin

lemma exec_apart: "all_apart (catalogue s) \<Longrightarrow> all_apart (catalogue (fst (exec c s)))"
proof -
  assume s: "all_apart (catalogue s)"
  consider "catalogue (fst (exec c s)) = catalogue s"
    | x where "catalogue (fst (exec c s)) = x # catalogue s" "\<forall>y\<in>set (catalogue s). apart x y"
    | x where "catalogue (fst (exec c s)) = catalogue s @ [x]" "\<forall>y\<in>set (catalogue s). apart y x"
    using grows [of c s] apart_sym by blast
  then show ?thesis using s by cases (simp_all add: all_apart_def sorted_wrt_append)
qed

sublocale machine exec "\<lambda>s. all_apart (catalogue s)"
  by unfold_locales (rule exec_apart)

lemma run_unique: "all_apart (catalogue s) \<Longrightarrow> length (filter (covers p at) (catalogue (run exec cs s))) \<le> 1"
  by (rule covers_unique) (rule run_inv)

lemma run_version: "version_of s k = Some v \<Longrightarrow> version_of (run exec cs s) k = Some v"
  by (induction cs arbitrary: s) (auto simp: immutable)

end

datatype policy_command =
    PAdd "ActivatedVersion option"
  | PSuspend string string time
  | PRetire string string time

primrec registry_exec :: "policy_command \<Rightarrow> Registry \<Rightarrow> Registry \<times> policy_error option" where
  "registry_exec (PAdd a) r = registry_Add a r"
| "registry_exec (PSuspend p v at) r = registry_Suspend p v at r"
| "registry_exec (PRetire p v at) r = registry_Retire p v at r"

primrec store_policy_exec :: "policy_command \<Rightarrow> policy_db \<Rightarrow> policy_db \<times> store_error option" where
  "store_policy_exec (PAdd a) db = store_Add a db"
| "store_policy_exec (PSuspend p v at) db = store_Suspend p v at db"
| "store_policy_exec (PRetire p v at) db = store_Retire p v at db"

subsection \<open>The in-memory registry\<close>

definition entry_period :: "registryEntry \<Rightarrow> period" where
  "entry_period e = (po_EffectiveFrom (re_snapshot e), po_EffectiveUntil (re_snapshot e))"

definition registry_catalogue :: "Registry \<Rightarrow> catalogue" where
  "registry_catalogue r = map (\<lambda>(k, e). (k, entry_period e)) r"

definition registry_version :: "Registry \<Rightarrow> string \<times> string \<rightharpoonup> po_Snapshot" where
  "registry_version r k = map_option re_snapshot (map_of r k)"

lemma effectivePeriodsOverlap_ranges:
  "effectivePeriodsOverlap s t =
   ranges_overlap (po_EffectiveFrom s, po_EffectiveUntil s) (po_EffectiveFrom t, po_EffectiveUntil t)"
  by (simp add: effectivePeriodsOverlap_def ranges_overlap_def split: option.split)

lemma ranges_overlap_UTC:
  "ranges_overlap p (f, map_option UTC u) = ranges_overlap p (f, u)"
  by (cases u; cases "snd p") (auto simp: ranges_overlap_def)

lemma map_update_same:
  "map_of r k = Some e \<Longrightarrow> f e' = f e \<Longrightarrow> map (\<lambda>(k, e). (k, f e)) (AList.update k e' r) = map (\<lambda>(k, e). (k, f e)) r"
  by (induction r) auto

lemma registry_transition_cases:
  "fst (registry_transition p v target at r) = r \<or>
   (\<exists>e. map_of r (p, v) = Some e \<and> transition_valid (re_status e) target \<and> \<not> Before at (re_statusAt e) \<and>
      fst (registry_transition p v target at r) =
        AList.update (p, v) (e\<lparr>re_status := target, re_statusAt := UTC at\<rparr>) r)"
  by (simp add: registry_transition_def split: option.split)

lemma registry_transition_law:
  "registry_catalogue (fst (registry_transition p v target at r)) = registry_catalogue r"
  "registry_version (fst (registry_transition p v target at r)) = registry_version r"
  using registry_transition_cases [of p v target at r]
  by (auto simp: registry_catalogue_def registry_version_def entry_period_def update_conv' fun_eq_iff intro!: map_update_same)

lemma registry_Add_cases:
  obtains (same) "fst (registry_Add activated r) = r"
  | (added) a s where "activated = Some a" "s = vv_version (av_verified a)" "map_of r (po_PolicyID s, po_Version s) = None"
      "\<And>e. e \<in> set (by_policy (po_PolicyID s) r) \<Longrightarrow> \<not> effectivePeriodsOverlap (re_snapshot e) s"
      "registry_Add activated r = (((po_PolicyID s, po_Version s), \<lparr>re_snapshot = copySnapshot s,
         re_status = LifecycleActive, re_statusAt = av_activated a\<rparr>) # r, None)"
proof (cases "fst (registry_Add activated r) = r")
  case False
  then obtain a where "activated = Some a" by (cases activated) (auto simp: registry_Add_def)
  with False show ?thesis
    by (intro added [of a]) (auto simp: registry_Add_def Let_def list_ex_iff split: option.splits if_splits)
qed (rule same)

lemma registry_Add_law:
  "registry_catalogue (fst (registry_Add a r)) = registry_catalogue r \<or>
     (\<exists>x. registry_catalogue (fst (registry_Add a r)) = x # registry_catalogue r \<and>
          (\<forall>y\<in>set (registry_catalogue r). apart y x))"
  "registry_version r k = Some v \<Longrightarrow> registry_version (fst (registry_Add a r)) k = Some v"
proof -
  show "registry_version r k = Some v \<Longrightarrow> registry_version (fst (registry_Add a r)) k = Some v"
    by (cases rule: registry_Add_cases [of a r]) (auto simp: registry_version_def split: if_splits)
  show "registry_catalogue (fst (registry_Add a r)) = registry_catalogue r \<or>
     (\<exists>x. registry_catalogue (fst (registry_Add a r)) = x # registry_catalogue r \<and>
          (\<forall>y\<in>set (registry_catalogue r). apart y x))"
  proof (cases rule: registry_Add_cases [of a r])
    case (added b s)
    let ?x = "((po_PolicyID s, po_Version s), (po_EffectiveFrom s, map_option UTC (po_EffectiveUntil s)))"
    have "apart (k, entry_period e) ?x" if "(k, e) \<in> set r" for k e
    proof -
      have "k \<noteq> (po_PolicyID s, po_Version s)" using added(3) that by (auto simp: map_of_eq_None_iff rev_image_eqI)
      moreover have "\<not> effectivePeriodsOverlap (re_snapshot e) s" if "fst k = po_PolicyID s"
        using added(4) that \<open>(k, e) \<in> set r\<close> by (force simp: by_policy_def)
      ultimately show ?thesis
        by (auto simp: apart_def ranges_overlap_UTC effectivePeriodsOverlap_ranges entry_period_def)
    qed
    then have "\<forall>y\<in>set (registry_catalogue r). apart y ?x" by (auto simp: registry_catalogue_def)
    moreover have "registry_catalogue (fst (registry_Add a r)) = ?x # registry_catalogue r"
      using added(5) by (simp add: registry_catalogue_def entry_period_def copySnapshot_def)
    ultimately show ?thesis by blast
  qed simp
qed

interpretation memory_registry: policy_registry registry_exec registry_catalogue registry_version
proof
  show "registry_catalogue (fst (registry_exec c s)) = registry_catalogue s \<or>
      (\<exists>x. registry_catalogue (fst (registry_exec c s)) \<in> {x # registry_catalogue s, registry_catalogue s @ [x]} \<and>
           (\<forall>y\<in>set (registry_catalogue s). apart y x))" for c s
  proof (cases c)
    case (PAdd a)
    show ?thesis using registry_Add_law(1) [of a s] unfolding PAdd registry_exec.simps by blast
  qed (simp_all add: registry_Suspend_def registry_Retire_def registry_transition_law)
  show "registry_version s k = Some v \<Longrightarrow> registry_version (fst (registry_exec c s)) k = Some v" for s k v c
    by (cases c) (auto simp: registry_Suspend_def registry_Retire_def registry_transition_law registry_Add_law)
qed

subsection \<open>The PostgreSQL tables\<close>

definition store_catalogue :: "policy_db \<Rightarrow> catalogue" where
  "store_catalogue db = map (\<lambda>row. (pr_key row, pr_range row)) (policy_versions db)"

definition store_version :: "policy_db \<Rightarrow> string \<times> string \<rightharpoonup> po_Snapshot" where
  "store_version db k = map_option pr_snapshot (find (\<lambda>row. pr_key row = k) (policy_versions db))"

lemma transitionPolicy_versions: "policy_versions (fst (transitionPolicy p v target at db)) = policy_versions db"
  by (simp add: transitionPolicy_def split: option.split)

lemma transitionPolicy_law:
  "store_catalogue (fst (transitionPolicy p v target at db)) = store_catalogue db"
  "store_version (fst (transitionPolicy p v target at db)) = store_version db"
  by (simp_all add: store_catalogue_def store_version_def fun_eq_iff transitionPolicy_versions)

lemma insertActivation_versions:
  "insertActivation s approval at db = Ok db' \<Longrightarrow> policy_versions db' = policy_versions db"
  by (auto simp: insertActivation_def Let_def split: option.splits if_splits)

lemma insert_policy_version_row:
  assumes "insert_policy_version s sig db = Ok db'"
  obtains row where "policy_versions db' = policy_versions db @ [row]" "pr_snapshot row = s"
    "\<And>old. old \<in> set (policy_versions db) \<Longrightarrow> po_PolicyID (pr_snapshot old) = po_PolicyID s \<Longrightarrow>
       \<not> ranges_overlap (pr_range old) (pr_range row)"
proof -
  let ?row = "\<lparr>pr_snapshot = s, pr_effective_from = truncate_micro (po_EffectiveFrom s),
      pr_effective_until = map_option truncate_micro (po_EffectiveUntil s), pr_signed = True\<rparr>"
  have "policy_versions db' = policy_versions db @ [?row] \<and>
      \<not> list_ex (\<lambda>old. po_PolicyID (pr_snapshot old) = po_PolicyID s \<and> ranges_overlap (pr_range old) (pr_range ?row))
        (policy_versions db)"
    using assms unfolding insert_policy_version_def Let_def by (simp split: if_splits) auto
  then show ?thesis using that [of ?row] by (auto simp: list_ex_iff)
qed

lemma store_Add_cases:
  obtains (same) "policy_versions (fst (store_Add activated db)) = policy_versions db"
  | (added) row where "policy_versions (fst (store_Add activated db)) = policy_versions db @ [row]"
      "find (\<lambda>old. pr_key old = pr_key row) (policy_versions db) = None"
      "\<And>old. old \<in> set (policy_versions db) \<Longrightarrow> po_PolicyID (pr_snapshot old) = po_PolicyID (pr_snapshot row) \<Longrightarrow>
         \<not> ranges_overlap (pr_range old) (pr_range row)"
proof (cases "policy_versions (fst (store_Add activated db)) = policy_versions db")
  case False
  then obtain a where a: "activated = Some a" by (cases activated) (auto simp: store_Add_def)
  let ?s = "vv_version (av_verified a)"
  have none: "find (\<lambda>row. pr_key row = (po_PolicyID ?s, po_Version ?s)) (policy_versions db) = None"
  proof (rule ccontr)
    assume "\<not> ?thesis"
    then show False using False a insertActivation_versions
      by (auto simp: store_Add_def Let_def split: option.splits sum.splits if_splits)
  qed
  then obtain db' db'' where "insert_policy_version ?s (vv_signature (av_verified a)) db = Ok db'"
    "insertActivation ?s (av_approval a) (av_activated a) db' = Ok db''" "fst (store_Add activated db) = db''"
    using False a by (auto simp: store_Add_def Let_def split: option.splits sum.splits)
  then show ?thesis
    using none insertActivation_versions by (elim insert_policy_version_row) (auto intro!: added)
qed (rule same)

lemma store_Add_law:
  "store_catalogue (fst (store_Add a db)) = store_catalogue db \<or>
     (\<exists>x. store_catalogue (fst (store_Add a db)) = store_catalogue db @ [x] \<and> (\<forall>y\<in>set (store_catalogue db). apart y x))"
  "store_version db k = Some v \<Longrightarrow> store_version (fst (store_Add a db)) k = Some v"
proof -
  show "store_version db k = Some v \<Longrightarrow> store_version (fst (store_Add a db)) k = Some v"
    by (cases rule: store_Add_cases [of a db]) (auto simp: store_version_def find_append)
  show "store_catalogue (fst (store_Add a db)) = store_catalogue db \<or>
     (\<exists>x. store_catalogue (fst (store_Add a db)) = store_catalogue db @ [x] \<and> (\<forall>y\<in>set (store_catalogue db). apart y x))"
  proof (cases rule: store_Add_cases [of a db])
    case same
    then show ?thesis by (simp add: store_catalogue_def)
  next
    case (added row)
    then have "\<forall>y\<in>set (store_catalogue db). apart y (pr_key row, pr_range row)"
      by (auto simp: store_catalogue_def apart_def find_None_iff)
    moreover have "store_catalogue (fst (store_Add a db)) = store_catalogue db @ [(pr_key row, pr_range row)]"
      using added(1) by (simp add: store_catalogue_def)
    ultimately show ?thesis by blast
  qed
qed

interpretation postgres_registry: policy_registry store_policy_exec store_catalogue store_version
proof
  show "store_catalogue (fst (store_policy_exec c s)) = store_catalogue s \<or>
      (\<exists>x. store_catalogue (fst (store_policy_exec c s)) \<in> {x # store_catalogue s, store_catalogue s @ [x]} \<and>
           (\<forall>y\<in>set (store_catalogue s). apart y x))" for c s
  proof (cases c)
    case (PAdd a)
    show ?thesis using store_Add_law(1) [of a s] unfolding PAdd store_policy_exec.simps by blast
  qed (simp_all add: store_Suspend_def store_Retire_def transitionPolicy_law)
  show "store_version s k = Some v \<Longrightarrow> store_version (fst (store_policy_exec c s)) k = Some v" for s k v c
    by (cases c) (simp_all add: store_Add_law store_Suspend_def store_Retire_def transitionPolicy_law)
qed

end
