(* ===== verification/Policy_Properties.thy ===== *)
theory Policy_Properties
  imports Policy_Registry
begin

text \<open>
  The properties of policies: which version a registry resolves, in memory and in PostgreSQL, what admission
  establishes about an active version, and which versions share a hash and their signatures.
\<close>

section \<open>Resolution\<close>

definition empty_policy_db :: policy_db where
  "empty_policy_db = \<lparr>policy_versions = [], policy_lifecycle_events = []\<rparr>"

definition active_at :: "time \<Rightarrow> registryEntry \<Rightarrow> bool" where
  "active_at at e \<longleftrightarrow> re_status e = LifecycleActive \<and> \<not> Before at (re_statusAt e) \<and> effectiveAt (re_snapshot e) at"

lemma length_filter_le: "(\<And>x. P x \<Longrightarrow> Q x) \<Longrightarrow> length (filter P xs) \<le> length (filter Q xs)"
  by (induction xs) (auto intro: le_SucI)

lemma filter_unique: "length (filter P xs) \<le> 1 \<Longrightarrow> filter P xs = (case find P xs of None \<Rightarrow> [] | Some x \<Rightarrow> [x])"
  by (induction xs) auto

lemma Rehydrate_not_ambiguous: "po_Rehydrate s \<noteq> Err ErrAmbiguousPolicy"
proof -
  have "normalizeRules seen rs \<noteq> Err ErrAmbiguousPolicy" for seen rs
    by (induction seen rs rule: normalizeRules.induct) (auto split: sum.splits)
  then show ?thesis
    by (auto simp: po_Rehydrate_def normalizeAndValidate_def Let_def split: sum.splits option.splits if_splits)
qed

lemma active_at_unique:
  assumes "all_apart (registry_catalogue r)"
  shows "length (filter (active_at at) (by_policy p r)) \<le> 1"
proof -
  have "length (filter (active_at at) (by_policy p r)) =
      length (filter (\<lambda>((q, v), e). q = p \<and> active_at at e) r)"
    by (induction r) (auto simp: by_policy_def)
  also have "\<dots> \<le> length (filter (\<lambda>(k, e). covers p at (k, entry_period e)) r)"
    by (rule length_filter_le)
      (auto simp: active_at_def covers_def effectiveAt_def entry_period_def split: option.splits)
  also have "\<dots> = length (filter (covers p at) (registry_catalogue r))"
    by (simp add: registry_catalogue_def filter_map comp_def case_prod_beta')
  also have "\<dots> \<le> 1" by (rule covers_unique [OF assms])
  finally show ?thesis .
qed

lemma registry_Resolve_find:
  assumes "all_apart (registry_catalogue r)"
  shows "registry_Resolve p at r = (case find (active_at at) (by_policy p r) of
      None \<Rightarrow> Err ErrPolicyNotFound | Some e \<Rightarrow> po_Rehydrate (re_snapshot e))"
proof -
  have "registry_matches p at r = map re_snapshot (filter (active_at at) (by_policy p r))"
    by (simp add: registry_matches_def active_at_def [abs_def])
  then show ?thesis
    unfolding registry_Resolve_def filter_unique [OF active_at_unique [OF assms]] by (simp split: option.split)
qed

lemma store_Resolve_find:
  assumes "all_apart (store_catalogue db)"
  shows "store_Resolve p at db =
    (if p = [] \<or> IsZero at then Err (PolicyError ErrPolicyNotFound)
     else case find (resolvable p (truncate_micro (UTC at)) db) (policy_versions db) of
       None \<Rightarrow> Err (PolicyError ErrPolicyNotFound) | Some row \<Rightarrow> decodePolicySnapshot (pr_snapshot row))"
proof -
  let ?P = "resolvable p (truncate_micro (UTC at)) db"
  have "length (filter ?P (policy_versions db)) \<le>
      length (filter (\<lambda>row. covers p (truncate_micro (UTC at)) (pr_key row, pr_range row)) (policy_versions db))"
    by (rule length_filter_le) (auto simp: resolvable_def covers_def)
  also have "\<dots> = length (filter (covers p (truncate_micro (UTC at))) (store_catalogue db))"
    by (simp add: store_catalogue_def filter_map comp_def)
  also have "\<dots> \<le> 1" by (rule covers_unique [OF assms])
  finally have u: "length (filter ?P (policy_versions db)) \<le> 1" .
  show ?thesis
    unfolding store_Resolve_def filter_unique [OF u]
    by (simp split: option.split sum.split)
qed

lemma FindVersion_registry:
  "registry_FindVersion p v h r = (case registry_version r (p, v) of None \<Rightarrow> Err ErrPolicyNotFound
     | Some s \<Rightarrow> if po_Hash s = h then po_Rehydrate s else Err ErrPolicyNotFound)"
  by (simp add: registry_FindVersion_def registry_version_def split: option.split)

text \<open>
  C36. After any sequence of additions, suspensions and retirements, the registry resolves a policy to the single
  version that is active and effective at the given time, and reports that there is none otherwise; several candidates never
  occur. The PostgreSQL tables give the same guarantee. A version found by its complete identity is found with the same
  content after any further operations, whatever its lifecycle.
\<close>

theorem policy_resolution:
  "registry_Resolve p at (run registry_exec cs []) =
     (case find (active_at at) (by_policy p (run registry_exec cs [])) of
        None \<Rightarrow> Err ErrPolicyNotFound | Some e \<Rightarrow> po_Rehydrate (re_snapshot e)) \<and>
   registry_Resolve p at (run registry_exec cs []) \<noteq> Err ErrAmbiguousPolicy \<and>
   store_Resolve p at (run store_policy_exec cs empty_policy_db) =
     (if p = [] \<or> IsZero at then Err (PolicyError ErrPolicyNotFound)
      else case find (resolvable p (truncate_micro (UTC at)) (run store_policy_exec cs empty_policy_db))
          (policy_versions (run store_policy_exec cs empty_policy_db)) of
        None \<Rightarrow> Err (PolicyError ErrPolicyNotFound) | Some row \<Rightarrow> decodePolicySnapshot (pr_snapshot row)) \<and>
   (case registry_FindVersion p v h r of
      Inl _ \<Rightarrow> True | Inr s \<Rightarrow> registry_FindVersion p v h (run registry_exec ds r) = Ok s)"
proof (intro conjI)
  have "all_apart (registry_catalogue [])" by (simp add: registry_catalogue_def all_apart_def)
  then have "all_apart (registry_catalogue (run registry_exec cs []))" by (rule memory_registry.run_inv)
  then show *: "registry_Resolve p at (run registry_exec cs []) =
     (case find (active_at at) (by_policy p (run registry_exec cs [])) of
        None \<Rightarrow> Err ErrPolicyNotFound | Some e \<Rightarrow> po_Rehydrate (re_snapshot e))"
    by (rule registry_Resolve_find)
  show "registry_Resolve p at (run registry_exec cs []) \<noteq> Err ErrAmbiguousPolicy"
    unfolding * by (simp add: Rehydrate_not_ambiguous split: option.split)
  have "all_apart (store_catalogue empty_policy_db)"
    by (simp add: store_catalogue_def all_apart_def empty_policy_db_def)
  then show "store_Resolve p at (run store_policy_exec cs empty_policy_db) =
     (if p = [] \<or> IsZero at then Err (PolicyError ErrPolicyNotFound)
      else case find (resolvable p (truncate_micro (UTC at)) (run store_policy_exec cs empty_policy_db))
          (policy_versions (run store_policy_exec cs empty_policy_db)) of
        None \<Rightarrow> Err (PolicyError ErrPolicyNotFound) | Some row \<Rightarrow> decodePolicySnapshot (pr_snapshot row))"
    by (intro store_Resolve_find postgres_registry.run_inv)
  show "case registry_FindVersion p v h r of
      Inl _ \<Rightarrow> True | Inr s \<Rightarrow> registry_FindVersion p v h (run registry_exec ds r) = Ok s"
    using memory_registry.run_version [of r "(p, v)" _ ds]
    by (auto simp: FindVersion_registry split: sum.split option.splits)
qed

section \<open>Admission\<close>

lemma Activate_Ok:
  "Activate (Some vv) approval activatedAt = Ok a \<longleftrightarrow>
   (let ap = normalizeApproval approval; s = vv_version vv in
    a = \<lparr>av_verified = vv, av_approval = ap, av_activated = UTC activatedAt\<rparr> \<and> ar_ApprovedBy ap \<noteq> [] \<and>
    \<not> IsZero (ar_ApprovedAt ap) \<and> \<not> IsZero activatedAt \<and> ar_PolicyID ap = po_PolicyID s \<and> ar_Version ap = po_Version s \<and>
    ar_PolicyHash ap = po_Hash s \<and> \<not> After (ar_ApprovedAt ap) activatedAt)"
  by (auto simp: Activate_def Let_def)

text \<open>Everything an admitted version was checked for, and the record of its activation.\<close>

definition admissible ::
  "ed25519 \<Rightarrow> trust_store \<Rightarrow> validator \<Rightarrow> po_Snapshot \<Rightarrow> Signature \<Rightarrow> ApprovalRecord \<Rightarrow> time \<Rightarrow> time \<Rightarrow> bool" where
  "admissible ed25519 resolve validate v signature approval verifiedAt activatedAt \<longleftrightarrow>
     (let sig = normalizeSignature signature; ap = normalizeApproval approval in
      (\<exists>key val. resolve (sg_SignerID sig) (sg_KeyID sig) = Ok key \<and> key_usable key sig (UTC verifiedAt) = None \<and>
         DecodeString (sg_Value sig) = Some val \<and> ed25519 (vk_PublicKey key) (signed_message v sig) val) \<and>
      validate v = None \<and> ar_ApprovedBy ap \<noteq> [] \<and>
      ar_PolicyID ap = po_PolicyID v \<and> ar_Version ap = po_Version v \<and> ar_PolicyHash ap = po_Hash v \<and>
      \<not> After (ar_ApprovedAt ap) activatedAt \<and> \<not> After verifiedAt activatedAt)"

lemma registry_Add_unchanged: "registry_Add a r = (r', Some err) \<Longrightarrow> r' = r"
  by (cases rule: registry_Add_cases [of a r]) auto

lemma registry_Add_stored:
  assumes "registry_Add (Some a) r = (r', None)" "s = vv_version (av_verified a)" "normal_policy s"
    and "registry_version r (po_PolicyID s, po_Version s) = None"
  shows "registry_version r' (po_PolicyID s, po_Version s) = Some s"
  using assms by (auto simp: registry_Add_def registry_version_def copySnapshot_normal Let_def split: if_splits)

lemma Admit_Ok:
  assumes "Admit ed25519 (Some resolve) (Some validate) (Some add) (Some v) signature approval verifiedAt activatedAt r = (r', Ok a)"
  obtains "admissible ed25519 resolve validate v signature approval verifiedAt activatedAt"
    "vv_version (av_verified a) = v" "add (Some a) r = (r', None)"
proof -
  obtain vv where vv: "Verifier_Verify ed25519 (Some resolve) (Some v) signature (UTC verifiedAt) = Ok vv"
    and order: "\<not> (\<not> IsZero verifiedAt \<and> \<not> IsZero activatedAt \<and> After verifiedAt activatedAt)"
    and valid: "validate (vv_version vv) = None" and act: "Activate (Some vv) approval (UTC activatedAt) = Ok a"
    and add: "add (Some a) r = (r', None)"
    using assms by (auto simp: Admit_def split: if_splits sum.splits option.splits prod.splits)
  have "signature_fields (normalizeSignature signature) (UTC verifiedAt) = None"
    using vv by (simp add: Verifier_Ok Let_def)
  then have "\<not> IsZero verifiedAt" by (auto simp: signature_fields_def split: if_splits)
  then show ?thesis
    using vv order valid act add
    by (intro that) (auto simp: Verifier_Ok Activate_Ok Let_def admissible_def)
qed

lemma Admit_Err:
  assumes "Admit ed25519 ts val (Some registry_Add) v signature approval verifiedAt activatedAt r = (r', Err err)"
  shows "r' = r"
  using assms registry_Add_unchanged
  by (auto simp: Admit_def split: if_splits sum.splits option.splits prod.splits)

text \<open>
  C37. Admission is fail-closed. When it refuses a version the registry is unchanged. When it accepts a version that was
  made by \<open>NewVersion\<close> and is new to the registry, the signature was checked with a usable key of the trust store, the
  document was validated, and the approval names this version and precedes the activation; from then on the registry finds
  exactly this version by its identity and hash, after any further operations.
\<close>

theorem admission_fail_closed:
  assumes "NewVersion input = Ok v" "registry_version r (po_PolicyID v, po_Version v) = None"
  shows "case Admit ed25519 (Some resolve) (Some validate) (Some registry_Add) (Some v) signature approval verifiedAt activatedAt r of
      (r', Inl err) \<Rightarrow> r' = r
    | (r', Inr a) \<Rightarrow> admissible ed25519 resolve validate v signature approval verifiedAt activatedAt \<and>
        registry_FindVersion (po_PolicyID v) (po_Version v) (po_Hash v) (run registry_exec cs r') = Ok v"
proof -
  have wf: "wf_policy v" using assms(1) by (rule NewVersion_wf)
  obtain r' res where
    admit: "Admit ed25519 (Some resolve) (Some validate) (Some registry_Add) (Some v) signature approval verifiedAt activatedAt r = (r', res)"
    by (rule prod.exhaust)
  show ?thesis
  proof (cases res)
    case (Inl err)
    show ?thesis using Admit_Err [OF admit [unfolded Inl]] unfolding admit Inl by simp
  next
    case (Inr a)
    obtain adm: "admissible ed25519 resolve validate v signature approval verifiedAt activatedAt"
      and a: "vv_version (av_verified a) = v" "registry_Add (Some a) r = (r', None)"
      using Admit_Ok [OF admit [unfolded Inr]] by metis
    have "registry_version r' (po_PolicyID v, po_Version v) = Some v"
      using registry_Add_stored [OF a(2) a(1) [symmetric]] wf assms(2) by (simp add: wf_policy_def)
    then have "registry_version (run registry_exec cs r') (po_PolicyID v, po_Version v) = Some v"
      by (rule memory_registry.run_version)
    then show ?thesis using adm Rehydrate_fixed [OF wf] unfolding admit Inr by (simp add: FindVersion_registry)
  qed
qed

text \<open>A sample version, its signature and its approval.\<close>

definition sample_document :: "string \<Rightarrow> time option \<Rightarrow> po_Input" where
  "sample_document document until = \<lparr>pi_PolicyID = ''weight'', pi_Version = ''1'', pi_SchemaVersion = ''1'', pi_EffectiveFrom = Time 5 0,
     pi_EffectiveUntil = until, pi_RequiredRuleIDs = [''R''], pi_Document = document\<rparr>"

definition sample_version :: "string \<Rightarrow> time option \<Rightarrow> po_Snapshot" where
  "sample_version document until =
     (let s = \<lparr>po_PolicyID = ''weight'', po_Version = ''1'', po_SchemaVersion = ''1'', po_EffectiveFrom = Time 5 0,
            po_EffectiveUntil = until, po_RequiredRuleIDs = [''R''], po_Document = document, po_Hash = []\<rparr>
      in s\<lparr>po_Hash := calculateHash s\<rparr>)"

definition sample_signature :: Signature where
  "sample_signature = \<lparr>sg_SignerID = ''board'', sg_KeyID = ''k1'', sg_Algorithm = ''ED25519'', sg_SignedAt = Time 10 0,
     sg_Value = replicate 86 (CHR ''A'') @ ''==''\<rparr>"

definition sample_key :: VerificationKey where
  "sample_key = \<lparr>vk_SignerID = ''board'', vk_KeyID = ''k1'', vk_Algorithm = ''ED25519'', vk_PublicKey = replicate 32 7,
     vk_ValidFrom = Time 1 0, vk_ValidUntil = None, vk_RevokedAt = None\<rparr>"

definition sample_approval :: "po_Snapshot \<Rightarrow> ApprovalRecord" where
  "sample_approval v = \<lparr>ar_PolicyID = ''weight'', ar_Version = ''1'', ar_PolicyHash = po_Hash v, ar_ApprovedBy = ''chair'',
     ar_ApprovedAt = Time 20 0\<rparr>"

lemma sample_version_new:
  "canonicalJSON d = Some d \<Longrightarrow> u = None \<or> (\<exists>i > 5. u = Some (Time i 0)) \<Longrightarrow>
   NewVersion (sample_document d u) = Ok (sample_version d u)"
  by (auto simp: NewVersion_def sample_document_def sample_version_def normalizeAndValidate_def graphic_def UTC_def go_time Let_def)

lemma base64_zeros:
  "\<exists>val. base64_quanta (replicate (4 * n) (CHR ''A'') @ ''AA=='') = Some val \<and> length val = Suc (3 * n)"
proof (induction n)
  case 0
  then show ?case by (simp add: quantum_def base64_digit_def less_eq_char_def)
next
  case (Suc n)
  have "replicate (4 * Suc n) (CHR ''A'') = ''AAAA'' @ replicate (4 * n) (CHR ''A'')"
    by (simp add: replicate_add numeral_eq_Suc)
  then show ?case using Suc by (auto simp: quantum_def base64_digit_def less_eq_char_def Let_def)
qed

lemma sample_signature_decoded: "\<exists>val. DecodeString (sg_Value sample_signature) = Some val \<and> length val = 64"
proof -
  have "sg_Value sample_signature = replicate (4 * 21) (CHR ''A'') @ ''AA==''"
    using replicate_add [of 84 2 "CHR ''A''"] by (simp add: sample_signature_def numeral_2_eq_2)
  moreover have "DecodeString (replicate (4 * 21) (CHR ''A'') @ ''AA=='') = base64_quanta (replicate (4 * 21) (CHR ''A'') @ ''AA=='')"
    by (simp add: DecodeString_def filter_replicate)
  ultimately show ?thesis using base64_zeros [of 21] by simp
qed

lemma sample_signature_normal: "normalizeSignature sample_signature = sample_signature"
  by (simp add: normalizeSignature_def sample_signature_def graphic_def UTC_def)

lemma sample_signature_verified:
  "Verifier_Verify (\<lambda>_ _ _. True) (Some (\<lambda>_ _. Ok sample_key)) (Some v) sample_signature (Time 15 0) =
   Ok \<lparr>vv_version = v, vv_signature = sample_signature\<rparr>"
  using sample_signature_decoded
  by (auto simp: Verifier_Ok Let_def sample_signature_normal)
    (simp_all add: signature_fields_def key_usable_def reached_def AlgorithmEd25519_def sample_signature_def sample_key_def go_time)

lemma TrimSpace_hash: "TrimSpace (calculateHash s) = calculateHash s"
proof -
  let ?h = "\<lambda>m. concat (map (\<lambda>b. hex_Encode 2 (unat b)) (sha256 m))"
  have "length (?h m) = 64" for m
    by (simp add: length_concat comp_def sum_list_triv)
  then have "last (?h m) \<in> set (?h m)" "?h m \<noteq> []" for m by (metis last_in_set list.size(3) zero_neq_numeral)+
  moreover have "graphic c" if "c \<in> set (?h m)" for c m
    using that hex_Encode_chars graphic_hex by fastforce
  ultimately have "graphic (last (?h m))" "?h m \<noteq> []" for m by blast+
  then show ?thesis unfolding calculateHash_def Let_def by (intro TrimSpace_graphic) (auto simp: graphic_def)
qed

theorem admission_fail_closed_witness:
  "\<exists>r' a. Admit (\<lambda>_ _ _. True) (Some (\<lambda>_ _. Ok sample_key)) (Some (\<lambda>_. None)) (Some registry_Add) (Some (sample_version ''7'' None))
       sample_signature (sample_approval (sample_version ''7'' None)) (Time 15 0) (Time 30 0) [] = (r', Ok a) \<and>
     registry_FindVersion ''weight'' ''1'' (po_Hash (sample_version ''7'' None))
       (run registry_exec [PSuspend ''weight'' ''1'' (Time 40 0)] r') = Ok (sample_version ''7'' None)"
proof -
  let ?v = "sample_version ''7'' None"
  have c: "canonicalJSON ''7'' = Some ''7''" by code_simp
  have id: "po_PolicyID ?v = ''weight''" "po_Version ?v = ''1''" "TrimSpace (po_Hash ?v) = po_Hash ?v"
    by (simp_all add: sample_version_def Let_def TrimSpace_hash)
  have "Activate (Some \<lparr>vv_version = ?v, vv_signature = sample_signature\<rparr>) (sample_approval ?v) (Time 30 0) =
      Ok \<lparr>av_verified = \<lparr>vv_version = ?v, vv_signature = sample_signature\<rparr>,
           av_approval = normalizeApproval (sample_approval ?v), av_activated = Time 30 0\<rparr>"
    by (simp add: Activate_Ok Let_def id) (simp add: normalizeApproval_def sample_approval_def graphic_def go_time id UTC_def)
  then obtain r' a where admit: "Admit (\<lambda>_ _ _. True) (Some (\<lambda>_ _. Ok sample_key)) (Some (\<lambda>_. None)) (Some registry_Add) (Some ?v)
       sample_signature (sample_approval ?v) (Time 15 0) (Time 30 0) [] = (r', Ok a)"
    by (simp add: Admit_def sample_signature_verified UTC_def go_time registry_Add_def by_policy_def Let_def)
  show ?thesis
    using admission_fail_closed [OF sample_version_new [OF c], of None "[]" "\<lambda>_ _ _. True" "\<lambda>_ _. Ok sample_key" "\<lambda>_. None"
        sample_signature "sample_approval ?v" "Time 15 0" "Time 30 0" "[PSuspend ''weight'' ''1'' (Time 40 0)]"]
    by (simp add: admit registry_version_def id)
qed

section \<open>Hashes and signatures\<close>

lemma unencodable_hash: "hash_envelope s = None \<Longrightarrow> hash_envelope t = None \<Longrightarrow> calculateHash s = calculateHash t"
  by (simp add: calculateHash_def)

lemma NewVersion_unencodable:
  assumes "NewVersion input = Ok v" "pi_EffectiveUntil input = Some u" "9999 < year u"
  shows "hash_envelope v = None \<and> po_Hash v = calculateHash v"
proof -
  have "po_EffectiveUntil v = Some (UTC u)"
    using assms(1,2)
    by (auto simp: NewVersion_def normalizeAndValidate_def Let_def split: option.splits sum.splits if_splits)
  moreover have "encode_time (UTC u) = None" using assms(3) by (simp add: encode_time_def year_def)
  ultimately show ?thesis using hash_envelope_None NewVersion_wf [OF assms(1)] by (auto simp: wf_policy_def)
qed

text \<open>
  C38. The hash does not identify a version whose period ends after the year 9999: all such versions have the same hash, because
  the failure to encode the envelope is ignored. A signature that verifies for one of them verifies for every other one,
  and a registry that holds one of them accepts every other one under the same identifier as if it were a repetition.
\<close>

theorem policy_hash_not_binding:
  assumes "NewVersion input = Ok v" "pi_EffectiveUntil input = Some u" "9999 < year u"
    and "NewVersion input' = Ok v'" "pi_EffectiveUntil input' = Some u'" "9999 < year u'"
    and "Verifier_Verify ed25519 (Some resolve) (Some v) signature at = Ok vv"
  shows "po_Hash v' = po_Hash v \<and>
    Verifier_Verify ed25519 (Some resolve) (Some v') signature at = Ok (vv\<lparr>vv_version := v'\<rparr>) \<and>
    (case map_of r (po_PolicyID v, po_Version v) of
       None \<Rightarrow> True
     | Some e \<Rightarrow> re_snapshot e \<noteq> v \<or> po_PolicyID v' \<noteq> po_PolicyID v \<or> po_Version v' \<noteq> po_Version v \<or>
         registry_Add (Some \<lparr>av_verified = vv\<lparr>vv_version := v'\<rparr>, av_approval = ap, av_activated = t\<rparr>) r = (r, None))"
proof -
  have h: "po_Hash v' = po_Hash v"
    using NewVersion_unencodable [OF assms(1-3)] NewVersion_unencodable [OF assms(4-6)] unencodable_hash by metis
  then have "signed_message v' sig = signed_message v sig" for sig
    by (simp add: signed_message_def SigningPayload_def)
  then have "Verifier_Verify ed25519 (Some resolve) (Some v') signature at = Ok (vv\<lparr>vv_version := v'\<rparr>)"
    using assms(7) unfolding Verifier_Ok Let_def by auto
  then show ?thesis using h by (auto simp: registry_Add_def split: option.split)
qed

theorem policy_hash_not_binding_witness:
  "po_Hash (sample_version ''8'' (Some (Time (3652059 * day_ns) 0))) = po_Hash (sample_version ''7'' (Some (Time (3652059 * day_ns) 0))) \<and>
   Verifier_Verify (\<lambda>_ _ _. True) (Some (\<lambda>_ _. Ok sample_key)) (Some (sample_version ''8'' (Some (Time (3652059 * day_ns) 0)))) sample_signature (Time 15 0) =
     Ok \<lparr>vv_version = sample_version ''8'' (Some (Time (3652059 * day_ns) 0)), vv_signature = sample_signature\<rparr>"
proof -
  let ?u = "Time (3652059 * day_ns) 0"
  have c: "canonicalJSON ''7'' = Some ''7''" "canonicalJSON ''8'' = Some ''8''" by code_simp+
  have y: "9999 < year ?u" by code_simp
  have new: "NewVersion (sample_document d (Some ?u)) = Ok (sample_version d (Some ?u))" if "canonicalJSON d = Some d" for d
    using sample_version_new [OF that] by (auto simp: day_ns_def)
  have u: "pi_EffectiveUntil (sample_document d (Some ?u)) = Some ?u" for d by (simp add: sample_document_def)
  show ?thesis
    using policy_hash_not_binding [OF new [OF c(1)] u y new [OF c(2)] u y sample_signature_verified, where r = "[]"] by simp
qed

end
