(* ===== verification/Rule_Selector.thy ===== *)
theory Rule_Selector
  imports Evidence Evaluation_Types
begin

text \<open>
  How the rule operators reach the evidence (\<open>src/ruleoperator/selector.go\<close>, with \<open>decimal\<close> and \<open>numericValue\<close> of
  \<open>numeric.go\<close>): selectors with JSON pointers, the value of a snapshot at a pointer and exact decimal numbers.

  A \<open>big.Rat\<close> is a fraction with a positive denominator; \<open>SetString\<close> of a JSON number refuses an exponent that is not an
  \<open>int64\<close> and, for a number that is not zero, a power of ten beyond a million.
\<close>

datatype ruleoperator_error =
    ErrOperatorRuleIDRequired
  | ErrEvidenceTypeRequired
  | ErrInvalidJSONPointer
  | ErrInvalidExpectedValue
  | ErrInvalidNumericValue
  | ErrInvalidRange
  | ErrInvalidTolerance
  | ErrMinimumCountRequired
  | ErrSequenceStepsRequired
  | ErrInvalidSequenceWindow
  | ErrUnsupportedPolicySchema string
  | ErrInvalidPolicyDocument
  | ErrPolicyRuleNotFound string
  | ErrDuplicatePolicyRule string
  | ErrUnsupportedOperator string
  | ErrRuleOutsideQualificationScope string

definition reasonEvidenceNotFound :: ReasonCode where "reasonEvidenceNotFound = ''EVIDENCE_NOT_FOUND''"
definition reasonEvidenceAmbiguous :: ReasonCode where "reasonEvidenceAmbiguous = ''EVIDENCE_AMBIGUOUS''"
definition reasonFieldNotFound :: ReasonCode where "reasonFieldNotFound = ''FIELD_NOT_FOUND''"
definition reasonInvalidValue :: ReasonCode where "reasonInvalidValue = ''INVALID_VALUE''"
definition reasonMatchMismatch :: ReasonCode where "reasonMatchMismatch = ''MATCH_MISMATCH''"
definition reasonOutsideRange :: ReasonCode where "reasonOutsideRange = ''VALUE_OUT_OF_RANGE''"
definition reasonOutsideTolerance :: ReasonCode where "reasonOutsideTolerance = ''VALUE_OUTSIDE_TOLERANCE''"

section \<open>Selectors\<close>

record Selector =
  sel_EvidenceType :: string
  sel_SourceID :: string
  sel_JSONPointer :: string

text \<open>\<open>strings.Split(strings.TrimPrefix(pointer, "/"), "/")\<close>.\<close>

fun split_on :: "char \<Rightarrow> string \<Rightarrow> string list" where
  "split_on c [] = [[]]"
| "split_on c (d # s) =
     (if d = c then [] # split_on c s
      else case split_on c s of [] \<Rightarrow> [[d]] | w # ws \<Rightarrow> (d # w) # ws)"

definition pointer_tokens :: "string \<Rightarrow> string list" where
  "pointer_tokens p =
     split_on (CHR ''/'') (case p of [] \<Rightarrow> [] | c # r \<Rightarrow> if c = CHR ''/'' then r else p)"

text \<open>A tilde is followed by \<open>0\<close> or \<open>1\<close>.\<close>

fun escapes_ok :: "string \<Rightarrow> bool" where
  "escapes_ok [] = True"
| "escapes_ok [c] = (c \<noteq> CHR ''~'')"
| "escapes_ok (c # d # r) =
     (if c = CHR ''~'' then (d = CHR ''0'' \<or> d = CHR ''1'') \<and> escapes_ok r else escapes_ok (d # r))"

definition normalizeSelector :: "Selector \<Rightarrow> ruleoperator_error + Selector" where
  "normalizeSelector selector =
     (let s = selector\<lparr>sel_SourceID := TrimSpace (sel_SourceID selector),
            sel_JSONPointer := TrimSpace (sel_JSONPointer selector)\<rparr> in
      if TrimSpace (sel_EvidenceType s) = [] then Err ErrEvidenceTypeRequired
      else if sel_JSONPointer s \<noteq> [] \<and> hd (sel_JSONPointer s) \<noteq> CHR ''/'' then Err ErrInvalidJSONPointer
      else if \<not> list_all escapes_ok (pointer_tokens (sel_JSONPointer s)) then Err ErrInvalidJSONPointer
      else Ok s)"

definition normalizeRuleID :: "string \<Rightarrow> ruleoperator_error + string" where
  "normalizeRuleID ruleID = (let rid = TrimSpace ruleID in if rid = [] then Err ErrOperatorRuleIDRequired else Ok rid)"

definition selectorMatches :: "ev_Snapshot \<Rightarrow> Selector \<Rightarrow> bool" where
  "selectorMatches snapshot selector \<longleftrightarrow>
     ev_EvidenceType snapshot = sel_EvidenceType selector \<and>
     (sel_SourceID selector = [] \<or> ev_SourceID snapshot = sel_SourceID selector)"

section \<open>Values\<close>

text \<open>\<open>strings.ReplaceAll\<close> of a pair of characters.\<close>

fun replace_pair :: "char \<Rightarrow> char \<Rightarrow> char \<Rightarrow> string \<Rightarrow> string" where
  "replace_pair a b x (c # d # r) = (if c = a \<and> d = b then x # replace_pair a b x r else c # replace_pair a b x (d # r))"
| "replace_pair a b x s = s"

definition unescape_token :: "string \<Rightarrow> string" where
  "unescape_token encoded = replace_pair (CHR ''~'') (CHR ''0'') (CHR ''~'') (replace_pair (CHR ''~'') (CHR ''1'') (CHR ''/'') encoded)"

fun digits_value :: "nat \<Rightarrow> string \<Rightarrow> nat" where
  "digits_value n [] = n"
| "digits_value n (c # s) = digits_value (10 * n + (of_char c - 48)) s"

text \<open>\<open>strconv.Atoi\<close> and \<open>strconv.ParseInt\<close> with base ten.\<close>

definition Atoi :: "string \<Rightarrow> int option" where
  "Atoi s =
     (let neg = s \<noteq> [] \<and> hd s = CHR ''-'';
          ds = (if s \<noteq> [] \<and> (hd s = CHR ''-'' \<or> hd s = CHR ''+'') then tl s else s);
          v = (if neg then - int (digits_value 0 ds) else int (digits_value 0 ds))
      in if ds = [] \<or> \<not> list_all digit ds \<or> v < min_int64 \<or> v > max_int64 then None else Some v)"

fun value_at :: "string list \<Rightarrow> jvalue \<Rightarrow> ReasonCode + jvalue" where
  "value_at [] v = Ok v"
| "value_at (encoded # rest) v =
     (let token = unescape_token encoded in
      case v of
        JObject ms \<Rightarrow> (case map_of ms token of None \<Rightarrow> Err reasonFieldNotFound | Some w \<Rightarrow> value_at rest w)
      | JArray vs \<Rightarrow>
          (case Atoi token of
             None \<Rightarrow> Err reasonFieldNotFound
           | Some i \<Rightarrow> if i < 0 \<or> i \<ge> int (length vs) then Err reasonFieldNotFound else value_at rest (vs ! nat i))
      | _ \<Rightarrow> Err reasonFieldNotFound)"

definition valueAtSnapshot :: "ev_Snapshot \<Rightarrow> string \<Rightarrow> ReasonCode + jvalue" where
  "valueAtSnapshot snapshot pointer =
     (case Decode (ev_Payload snapshot) of
        None \<Rightarrow> Err reasonInvalidValue
      | Some v \<Rightarrow> if pointer = [] then Ok v else value_at (pointer_tokens pointer) v)"

definition selectValue :: "ev_Snapshot list \<Rightarrow> Selector \<Rightarrow> ReasonCode + jvalue" where
  "selectValue evs selector =
     (case filter (\<lambda>snapshot. selectorMatches snapshot selector) evs of
        [] \<Rightarrow> Err reasonEvidenceNotFound
      | [snapshot] \<Rightarrow> valueAtSnapshot snapshot (sel_JSONPointer selector)
      | _ \<Rightarrow> Err reasonEvidenceAmbiguous)"

section \<open>Decimal numbers\<close>

type_synonym ratio = "int \<times> int"

definition rat_le :: "ratio \<Rightarrow> ratio \<Rightarrow> bool" where
  "rat_le x y \<longleftrightarrow> fst x * snd y \<le> fst y * snd x"

definition rat_Sub :: "ratio \<Rightarrow> ratio \<Rightarrow> ratio" where
  "rat_Sub x y = (fst x * snd y - fst y * snd x, snd x * snd y)"

definition rat_Abs :: "ratio \<Rightarrow> ratio" where
  "rat_Abs x = (if fst x < 0 then (- fst x, snd x) else x)"

definition exponent_of :: "string \<Rightarrow> int option" where
  "exponent_of s = (if s = [] then Some 0 else Atoi (tl s))"

text \<open>\<open>big.Rat.SetString\<close> of a JSON number: sign, integer digits, fraction digits, exponent.\<close>

definition rat_SetString :: "string \<Rightarrow> ratio option" where
  "rat_SetString w =
     (let neg = w \<noteq> [] \<and> hd w = CHR ''-'';
          u = (if neg then tl w else w);
          whole = takeWhile digit u;
          r = dropWhile digit u;
          frac = (if r \<noteq> [] \<and> hd r = CHR ''.'' then takeWhile digit (tl r) else []);
          r' = (if r \<noteq> [] \<and> hd r = CHR ''.'' then dropWhile digit (tl r) else r);
          m = int (digits_value 0 (whole @ frac));
          a = (if neg then - m else m)
      in case exponent_of r' of
           None \<Rightarrow> None
         | Some e \<Rightarrow>
             let n = e - int (length frac) in
             if m = 0 then Some (0, 1)
             else if \<bar>n\<bar> > 10 ^ 6 then None
             else if n \<ge> 0 then Some (a * 10 ^ nat n, 1) else Some (a, 10 ^ nat (- n)))"

definition ro_decimal :: "string \<Rightarrow> ruleoperator_error + ratio" where
  "ro_decimal value =
     (case Decode (TrimSpace value) of
        Some (JNumber w) \<Rightarrow> (case rat_SetString w of None \<Rightarrow> Err ErrInvalidNumericValue | Some x \<Rightarrow> Ok x)
      | _ \<Rightarrow> Err ErrInvalidNumericValue)"

definition numericValue :: "jvalue \<Rightarrow> ruleoperator_error + ratio" where
  "numericValue v = (case v of JNumber w \<Rightarrow> ro_decimal w | _ \<Rightarrow> Err ErrInvalidNumericValue)"

end
