(* ===== verification/Pds_Service.thy ===== *)
theory Pds_Service
  imports Evaluation_Batch Evaluation_Snapshot Outbox Evidence Policy_Registry Audit_Ledger Rule_Selector
begin

text \<open>
  The application service of \<open>src/pds\<close>: the in-memory aggregate store (\<open>memory_store.go\<close>), the evaluation service
  (\<open>service.go\<close>), timeouts (\<open>timeout.go\<close>), policy resolution (\<open>policy_resolution.go\<close>, \<open>policy_rule_resolver.go\<close>), rule
  execution (\<open>rule_execution.go\<close>) and qualification under the bound policy (\<open>policy_evidence_qualification.go\<close>).

  A store is a record of its two operations on a state \<open>'s\<close>. A method of the service reads the store, works on its own
  aggregate and writes the store, and other calls may run in between: each method takes the state it reads,
  the state it writes and, where it reads again after a conflict, the state it then finds, and returns the
  state after its write. The clock readings of a call, its random UUIDs and \<open>json.Marshal\<close> of an event are the fields of an
  \<open>environment\<close>. Interfaces the service calls (policy resolver, version reader, rule operators and their compilers) are
  arguments; a nil interface is \<open>None\<close>. \<open>ErrStatementFailed\<close> is an error of the database or of a codec, and
  \<open>NilDereference\<close> the panic.
\<close>

datatype pds_error =
    ErrEvaluationNotFound
  | ErrConcurrentModification
  | EvaluationError evaluation_error
  | OutboxError outbox_error
  | PolicyFailure policy_error
  | EvidenceFailure evidence_error
  | AuditFailure audit_error
  | RuleFailure ruleoperator_error
  | ErrTimeoutPolicyInvalid
  | ErrEvaluationNotTimedOut
  | ErrPolicyResolverRequired
  | ErrPolicyRulePlanMismatch
  | ErrPolicyResolutionInvalid
  | ErrPolicyVersionReaderRequired
  | ErrPolicyRuleCompilerRequired
  | ErrPolicyRuleReferenceInvalid
  | ErrRuleOperatorRequired
  | ErrRuleResolverRequired
  | ErrDuplicateRuleOperator string
  | ErrRuleOperatorMissing string
  | ErrResolvedRuleMismatch string
  | ErrEvidenceBindingMissing
  | ErrPolicyBindingMissing
  | ErrEvidenceNotQualified
  | ErrBoundEvidenceMismatch
  | ErrRuleExecutionFailed string string
  | ErrPartialRuleOutcomes
  | ErrQualificationCompilerRequired
  | ErrPolicyQualificationBindingInvalid
  | ErrInvalidExpectedVersion
  | ErrEvaluationAuditInvalid
  | ErrStatementFailed
  | NilDereference

definition lift_error :: "('e \<Rightarrow> pds_error) \<Rightarrow> 'e + 'a \<Rightarrow> pds_error + 'a" where
  "lift_error f r = (case r of Inl err \<Rightarrow> Err (f err) | Inr x \<Rightarrow> Ok x)"

section \<open>Stores\<close>

record 's aggregate_store =
  st_SaveEvaluation :: "EvaluationSnapshot \<Rightarrow> u64 \<Rightarrow> OutboxRecord list \<Rightarrow> 's \<Rightarrow> 's \<times> pds_error option"
  st_FindEvaluation :: "uuid \<Rightarrow> 's \<Rightarrow> pds_error + EvaluationAggregate"

record MemoryStore =
  ms_snapshots :: "uuid \<rightharpoonup> EvaluationSnapshot"
  ms_outbox :: "OutboxRecord list"

definition NewMemoryStore :: MemoryStore where
  "NewMemoryStore = \<lparr>ms_snapshots = Map.empty, ms_outbox = []\<rparr>"

definition mem_SaveEvaluation ::
  "EvaluationSnapshot \<Rightarrow> u64 \<Rightarrow> OutboxRecord list \<Rightarrow> MemoryStore \<Rightarrow> MemoryStore \<times> pds_error option" where
  "mem_SaveEvaluation snapshot expectedVersion records m =
     (let current = ms_snapshots m (sn_EvaluationID snapshot) in
      if expectedVersion = 0 \<and> current \<noteq> None then (m, Some ErrConcurrentModification)
      else if expectedVersion > 0 \<and>
        (case current of None \<Rightarrow> True | Some c \<Rightarrow> sn_Version c \<noteq> expectedVersion)
      then (m, Some ErrConcurrentModification)
      else case RehydrateEvaluation snapshot of
          Inl err \<Rightarrow> (m, Some (EvaluationError err))
        | Inr e \<Rightarrow>
            (m\<lparr>ms_snapshots := (ms_snapshots m)(sn_EvaluationID snapshot \<mapsto> Snapshot e),
               ms_outbox := ms_outbox m @ records\<rparr>, None))"

definition mem_FindEvaluation :: "uuid \<Rightarrow> MemoryStore \<Rightarrow> pds_error + EvaluationAggregate" where
  "mem_FindEvaluation i m =
     (case ms_snapshots m i of
        None \<Rightarrow> Err ErrEvaluationNotFound
      | Some snapshot \<Rightarrow> lift_error EvaluationError (RehydrateEvaluation snapshot))"

definition memory_store :: "MemoryStore aggregate_store" where
  "memory_store = \<lparr>st_SaveEvaluation = mem_SaveEvaluation, st_FindEvaluation = mem_FindEvaluation\<rparr>"

section \<open>The evaluation service\<close>

text \<open>
  Reading \<open>clock 0\<close> is the method's own and \<open>clock 1\<close> that of the write; \<open>random 0\<close> is the identifier of a new
  evaluation and \<open>random (k + 1)\<close> that of the \<open>k\<close>-th outbox record.
\<close>

record environment =
  clock :: "nat \<Rightarrow> time"
  random :: "nat \<Rightarrow> uuid"
  marshal :: "DomainEvent \<Rightarrow> string + string"

definition svc_save ::
  "'s aggregate_store \<Rightarrow> environment \<Rightarrow> EvaluationAggregate \<Rightarrow> u64 \<Rightarrow> 's \<Rightarrow> 's \<times> pds_error option" where
  "svc_save st env e expectedVersion s =
     (case BuildOutboxRecords (marshal env) (\<lambda>k. random env (Suc k)) (UTC (clock env 1)) e of
        Inl err \<Rightarrow> (s, Some (OutboxError err))
      | Inr records \<Rightarrow> st_SaveEvaluation st (Snapshot e) expectedVersion records s)"

definition svc_Snapshot :: "'s aggregate_store \<Rightarrow> uuid \<Rightarrow> 's \<Rightarrow> pds_error + EvaluationSnapshot" where
  "svc_Snapshot st i s = (case st_FindEvaluation st i s of Inl err \<Rightarrow> Err err | Inr e \<Rightarrow> Ok (Snapshot e))"

fun register_rules :: "string list \<Rightarrow> time \<Rightarrow> mutation" where
  "register_rules [] at e = (e, None)"
| "register_rules (rid # rids) at e =
     (case RegisterRequiredRuleAt rid at e of
        (e', Some err) \<Rightarrow> (e', Some err)
      | (e', None) \<Rightarrow> register_rules rids at e')"

text \<open>The end of every method: the mutation of the aggregate, the write under the version that was read, the aggregate.\<close>

definition svc_write ::
  "'s aggregate_store \<Rightarrow> environment \<Rightarrow> mutation \<Rightarrow> EvaluationAggregate \<Rightarrow> u64 \<Rightarrow> 's \<Rightarrow>
   's \<times> (pds_error + EvaluationAggregate)" where
  "svc_write st env f e expectedVersion s =
     (case f e of
        (_, Some err) \<Rightarrow> (s, Err (EvaluationError err))
      | (e', None) \<Rightarrow>
          (case svc_save st env e' expectedVersion s of
             (s', Some err) \<Rightarrow> (s', Err err)
           | (s', None) \<Rightarrow> (s', Ok e')))"

definition result_snapshot :: "'s \<times> (pds_error + EvaluationAggregate) \<Rightarrow> 's \<times> (pds_error + EvaluationSnapshot)" where
  "result_snapshot r = (case r of (s, Inl err) \<Rightarrow> (s, Err err) | (s, Inr e) \<Rightarrow> (s, Ok (Snapshot e)))"

definition svc_Create ::
  "'s aggregate_store \<Rightarrow> environment \<Rightarrow> uuid \<Rightarrow> string list \<Rightarrow> 's \<Rightarrow> 's \<times> (pds_error + EvaluationSnapshot)" where
  "svc_Create st env sessionID requiredRules s =
     (let at = UTC (clock env 0) in
      case NewEvaluation (New (random env 0)) sessionID at of
        Inl err \<Rightarrow> (s, Err (EvaluationError err))
      | Inr e \<Rightarrow> result_snapshot (svc_write st env (register_rules requiredRules at) e 0 s))"

text \<open>What a method does after a conflict when the work is already done: it returns what it finds.\<close>

definition on_conflict :: "(EvaluationAggregate \<Rightarrow> bool) \<Rightarrow> pds_error + EvaluationAggregate \<Rightarrow>
    's \<times> (pds_error + EvaluationAggregate) \<Rightarrow> 's \<times> (pds_error + EvaluationAggregate)" where
  "on_conflict done latest r =
     (case r of
        (s, Inl err) \<Rightarrow> (s,
          if err = ErrConcurrentModification
          then (case latest of Inr e \<Rightarrow> if done e then Ok e else Err err | Inl _ \<Rightarrow> Err err)
          else Err err)
      | (s, Inr e) \<Rightarrow> (s, Ok e))"

definition svc_Start ::
  "'s aggregate_store \<Rightarrow> environment \<Rightarrow> uuid \<Rightarrow> 's \<Rightarrow> 's \<Rightarrow> 's \<Rightarrow> 's \<times> (pds_error + EvaluationSnapshot)" where
  "svc_Start st env i s0 s1 s2 =
     (case st_FindEvaluation st i s0 of
        Inl err \<Rightarrow> (s1, Err err)
      | Inr e \<Rightarrow>
          if state e = StateRunning then (s1, Ok (Snapshot e))
          else result_snapshot (on_conflict (\<lambda>latest. state latest = StateRunning) (st_FindEvaluation st i s2)
            (svc_write st env (Start (UTC (clock env 0))) e (version e) s1)))"

definition svc_RecordOutcome ::
  "'s aggregate_store \<Rightarrow> environment \<Rightarrow> uuid \<Rightarrow> RuleOutcome \<Rightarrow> 's \<Rightarrow> 's \<Rightarrow> 's \<times> (pds_error + EvaluationSnapshot)" where
  "svc_RecordOutcome st env i outcome s0 s1 =
     (case st_FindEvaluation st i s0 of
        Inl err \<Rightarrow> (s1, Err err)
      | Inr e \<Rightarrow>
          let outcome = (if IsZero (EvaluatedAt outcome) then outcome\<lparr>EvaluatedAt := UTC (clock env 0)\<rparr> else outcome)
          in result_snapshot (svc_write st env (RecordRuleOutcome outcome) e (version e) s1))"

primrec reason_text :: "QualificationReasonCode \<Rightarrow> string" where
  "reason_text ReasonEvidenceUnavailable = ''EVIDENCE_UNAVAILABLE''"
| "reason_text ReasonIntegrityInvalid = ''INTEGRITY_INVALID''"
| "reason_text ReasonSourceUntrusted = ''SOURCE_UNTRUSTED''"
| "reason_text ReasonTypeNotAllowed = ''TYPE_NOT_ALLOWED''"
| "reason_text ReasonTimestampFuture = ''TIMESTAMP_FUTURE''"
| "reason_text ReasonQualificationExpired = ''EVIDENCE_EXPIRED''"
| "reason_text ReasonConfidenceMissing = ''CONFIDENCE_MISSING''"
| "reason_text ReasonConfidenceLow = ''CONFIDENCE_LOW''"
| "reason_text ReasonProvenanceMissing = ''PROVENANCE_MISSING''"
| "reason_text ReasonPayloadFieldMissing = ''PAYLOAD_FIELD_MISSING''"
| "reason_text ReasonAcquisitionDenied = ''ACQUISITION_DENIED''"
| "reason_text ReasonSessionMismatch = ''SESSION_MISMATCH''"
| "reason_text ReasonDuplicateObservation = ''DUPLICATE_OBSERVATION''"
| "reason_text ReasonConflictingObservation = ''CONFLICTING_OBSERVATION''"

definition qualificationReasons :: "QualificationReason list \<Rightarrow> string list" where
  "qualificationReasons reasons = map (\<lambda>r. reason_text (qr_Code r)) reasons"

primrec bound_status :: "QualificationStatus \<Rightarrow> EvidenceQualificationStatus" where
  "bound_status QualificationQualified = EvidenceQualified"
| "bound_status QualificationRejected = EvidenceRejected"
| "bound_status QualificationUnavailable = EvidenceUnavailable"

definition qualification_binding :: "SessionQualificationResult \<Rightarrow> EvidenceSetBinding" where
  "qualification_binding r =
     \<lparr>eb_SessionID = sq_SessionID r, eb_Status = bound_status (sq_Status r), eb_PolicyVersion = sq_PolicyVersion r,
      eb_QualifiedAt = sq_EvaluatedAt r, eb_Reasons = qualificationReasons (sq_Reasons r),
      eb_Evidence = map (\<lambda>q. \<lparr>ref_EvidenceID = qu_EvidenceID q, ref_Status = bound_status (qu_Status q),
        ref_Reasons = qualificationReasons (qu_Reasons q)\<rparr>) (sq_Evidence r)\<rparr>"

definition svc_BindEvidenceQualification ::
  "'s aggregate_store \<Rightarrow> environment \<Rightarrow> uuid \<Rightarrow> SessionQualificationResult \<Rightarrow> 's \<Rightarrow> 's \<Rightarrow> 's \<times> (pds_error + EvaluationSnapshot)"
where
  "svc_BindEvidenceQualification st env i r s0 s1 =
     (case st_FindEvaluation st i s0 of
        Inl err \<Rightarrow> (s1, Err err)
      | Inr e \<Rightarrow> result_snapshot (svc_write st env (BindEvidenceSet (qualification_binding r)) e (version e) s1))"

definition svc_BindVerificationPolicy ::
  "'s aggregate_store \<Rightarrow> environment \<Rightarrow> uuid \<Rightarrow> PolicyBinding \<Rightarrow> 's \<Rightarrow> 's \<Rightarrow> 's \<times> (pds_error + EvaluationSnapshot)" where
  "svc_BindVerificationPolicy st env i binding s0 s1 =
     (case st_FindEvaluation st i s0 of
        Inl err \<Rightarrow> (s1, Err err)
      | Inr e \<Rightarrow> result_snapshot (svc_write st env (BindVerificationPolicy binding) e (version e) s1))"

definition derive_and_complete :: "time \<Rightarrow> mutation" where
  "derive_and_complete at e =
     (case DeriveResult e of (_, _, Some err) \<Rightarrow> (e, Some err) | (r, reasons, None) \<Rightarrow> CompleteAt r reasons at e)"

definition svc_Complete ::
  "'s aggregate_store \<Rightarrow> environment \<Rightarrow> uuid \<Rightarrow> 's \<Rightarrow> 's \<Rightarrow> 's \<Rightarrow> 's \<times> (pds_error + DecisionTrace)" where
  "svc_Complete st env i s0 s1 s2 =
     (case st_FindEvaluation st i s0 of
        Inl err \<Rightarrow> (s1, Err err)
      | Inr e \<Rightarrow>
          if state e = StateCompleted then (s1, Ok (DecisionTrace e))
          else (case on_conflict (\<lambda>latest. state latest = StateCompleted) (st_FindEvaluation st i s2)
              (svc_write st env (derive_and_complete (UTC (clock env 0))) e (version e) s1) of
            (s', Inl err) \<Rightarrow> (s', Err err)
          | (s', Inr e') \<Rightarrow> (s', Ok (DecisionTrace e'))))"

definition svc_Trace :: "'s aggregate_store \<Rightarrow> uuid \<Rightarrow> 's \<Rightarrow> pds_error + DecisionTrace" where
  "svc_Trace st i s = (case st_FindEvaluation st i s of Inl err \<Rightarrow> Err err | Inr e \<Rightarrow> Ok (DecisionTrace e))"

section \<open>Timeouts\<close>

record TimeoutPolicy =
  CreatedTimeout :: int
  RunningTimeout :: int

definition timeout_Validate :: "TimeoutPolicy \<Rightarrow> pds_error option" where
  "timeout_Validate p =
     (if CreatedTimeout p < 0 \<or> RunningTimeout p < 0 \<or> (CreatedTimeout p = 0 \<and> RunningTimeout p = 0)
      then Some ErrTimeoutPolicyInvalid else None)"

definition deadline :: "TimeoutPolicy \<Rightarrow> EvaluationSnapshot \<Rightarrow> pds_error + time" where
  "deadline p snapshot =
     (case timeout_Validate p of
        Some err \<Rightarrow> Err err
      | None \<Rightarrow>
          (case sn_State snapshot of
             StateCreated \<Rightarrow>
               if CreatedTimeout p = 0 then Err ErrTimeoutPolicyInvalid
               else Ok (time_Add (sn_CreatedAt snapshot) (CreatedTimeout p))
           | StateRunning \<Rightarrow>
               (case sn_StartedAt snapshot of
                  Some started \<Rightarrow>
                    if RunningTimeout p = 0 then Err ErrTimeoutPolicyInvalid
                    else Ok (time_Add started (RunningTimeout p))
                | None \<Rightarrow> Err ErrTimeoutPolicyInvalid)
           | _ \<Rightarrow> Err (EvaluationError ErrInvalidStateTransition)))"

definition svc_ExpireTimedOut ::
  "'s aggregate_store \<Rightarrow> environment \<Rightarrow> uuid \<Rightarrow> TimeoutPolicy \<Rightarrow> 's \<Rightarrow> 's \<Rightarrow> 's \<Rightarrow> 's \<times> (pds_error + EvaluationSnapshot)" where
  "svc_ExpireTimedOut st env i p s0 s1 s2 =
     (case st_FindEvaluation st i s0 of
        Inl err \<Rightarrow> (s1, Err err)
      | Inr e \<Rightarrow>
          if state e = StateExpired then (s1, Ok (Snapshot e))
          else (case deadline p (Snapshot e) of
             Inl err \<Rightarrow> (s1, Err err)
           | Inr limit \<Rightarrow>
               let now = UTC (clock env 0) in
               if Before now limit then (s1, Err ErrEvaluationNotTimedOut)
               else result_snapshot (on_conflict (\<lambda>latest. state latest = StateExpired) (st_FindEvaluation st i s2)
                 (svc_write st env (Expire now) e (version e) s1))))"

section \<open>Policies\<close>

type_synonym policy_resolver = "string \<Rightarrow> time \<Rightarrow> policy_error + po_Snapshot option"
type_synonym version_reader = "string \<Rightarrow> string \<Rightarrow> string \<Rightarrow> policy_error + po_Snapshot option"

definition policy_binding :: "po_Snapshot \<Rightarrow> time \<Rightarrow> PolicyBinding" where
  "policy_binding p at = \<lparr>pb_PolicyID = po_PolicyID p, pb_Version = po_Version p, pb_Hash = po_Hash p, pb_BoundAt = at\<rparr>"

definition register_and_bind :: "po_Snapshot \<Rightarrow> time \<Rightarrow> mutation" where
  "register_and_bind p at e =
     (case register_rules (po_RequiredRuleIDs p) at e of
        (e', Some err) \<Rightarrow> (e', Some err)
      | (e', None) \<Rightarrow> BindVerificationPolicy (policy_binding p at) e')"

definition svc_CreateForPolicy ::
  "'s aggregate_store \<Rightarrow> environment \<Rightarrow> uuid \<Rightarrow> string \<Rightarrow> policy_resolver option \<Rightarrow> 's \<Rightarrow> 's \<times> (pds_error + EvaluationSnapshot)" where
  "svc_CreateForPolicy st env sessionID policyID resolver s =
     (case resolver of None \<Rightarrow> (s, Err ErrPolicyResolverRequired) | Some resolve \<Rightarrow>
      let at = UTC (clock env 0) in
      case resolve policyID at of
        Inl err \<Rightarrow> (s, Err (PolicyFailure err))
      | Inr None \<Rightarrow> (s, Err ErrPolicyResolutionInvalid)
      | Inr (Some p) \<Rightarrow>
          (case NewEvaluation (New (random env 0)) sessionID at of
             Inl err \<Rightarrow> (s, Err (EvaluationError err))
           | Inr e \<Rightarrow> result_snapshot (svc_write st env (register_and_bind p at) e 0 s)))"

fun sameRulePlan :: "string list \<Rightarrow> string list \<Rightarrow> bool" where
  "sameRulePlan [] [] = True"
| "sameRulePlan (l # ls) (r # rs) = (l = r \<and> sameRulePlan ls rs)"
| "sameRulePlan _ _ = False"

text \<open>The snapshot of a nil version is the zero value.\<close>

definition version_snapshot :: "po_Snapshot option \<Rightarrow> po_Snapshot" where
  "version_snapshot v = (case v of Some s \<Rightarrow> s | None \<Rightarrow>
     \<lparr>po_PolicyID = [], po_Version = [], po_SchemaVersion = [], po_EffectiveFrom = zero_time, po_EffectiveUntil = None,
      po_RequiredRuleIDs = [], po_Document = [], po_Hash = []\<rparr>)"

definition svc_ResolveAndBindPolicy ::
  "'s aggregate_store \<Rightarrow> environment \<Rightarrow> uuid \<Rightarrow> string \<Rightarrow> policy_resolver option \<Rightarrow> 's \<Rightarrow> 's \<Rightarrow> 's \<times> (pds_error + EvaluationSnapshot)" where
  "svc_ResolveAndBindPolicy st env i policyID resolver s0 s1 =
     (case resolver of None \<Rightarrow> (s1, Err ErrPolicyResolverRequired) | Some resolve \<Rightarrow>
      case st_FindEvaluation st i s0 of Inl err \<Rightarrow> (s1, Err err) | Inr e \<Rightarrow>
      case resolve policyID (createdAt e) of Inl err \<Rightarrow> (s1, Err (PolicyFailure err)) | Inr resolved \<Rightarrow>
      let p = version_snapshot resolved in
      if \<not> sameRulePlan (requiredRuleIDs e) (po_RequiredRuleIDs p) then (s1, Err ErrPolicyRulePlanMismatch)
      else result_snapshot (svc_write st env (BindVerificationPolicy (policy_binding p (UTC (clock env 0)))) e (version e) s1))"

section \<open>Rule execution\<close>

record RuleInput =
  ri_EvaluationID :: uuid
  ri_SessionID :: uuid
  ri_PolicyID :: string
  ri_PolicyVersion :: string
  ri_PolicyHash :: string
  ri_Evidence :: "ev_Snapshot list"

record RuleDecision =
  rd_Status :: RuleOutcomeStatus
  rd_ReasonCodes :: "ReasonCode list"

record RuleOperator =
  op_RuleID :: string
  op_Evaluate :: "RuleInput \<Rightarrow> string + RuleDecision"

record PolicyRuleReference =
  rr_PolicyID :: string
  rr_PolicyVersion :: string
  rr_PolicyHash :: string
  rr_RuleID :: string

type_synonym operator_resolver = "PolicyRuleReference \<Rightarrow> pds_error + RuleOperator option"
type_synonym rule_compiler = "po_Snapshot \<Rightarrow> string \<Rightarrow> pds_error + RuleOperator option"

fun register_operators :: "RuleOperator option list \<Rightarrow> (string \<rightharpoonup> RuleOperator) \<Rightarrow> pds_error + (string \<rightharpoonup> RuleOperator)" where
  "register_operators [] registered = Ok registered"
| "register_operators (None # ops) registered = Err ErrRuleOperatorRequired"
| "register_operators (Some op # ops) registered =
     (let rid = TrimSpace (op_RuleID op) in
      if rid = [] then Err ErrRuleOperatorRequired
      else if registered rid \<noteq> None then Err (ErrDuplicateRuleOperator rid)
      else register_operators ops (registered(rid \<mapsto> op)))"

definition static_resolver :: "(string \<rightharpoonup> RuleOperator) \<Rightarrow> operator_resolver" where
  "static_resolver operators ref = (case operators (rr_RuleID ref) of
     None \<Rightarrow> Err (ErrRuleOperatorMissing (rr_RuleID ref)) | Some op \<Rightarrow> Ok (Some op))"

text \<open>\<open>PolicyDocumentRuleResolver\<close>: the operator compiled from exactly the bound policy version.\<close>

definition document_resolver :: "version_reader option \<Rightarrow> rule_compiler option \<Rightarrow> operator_resolver" where
  "document_resolver reader compiler reference =
     (case reader of None \<Rightarrow> Err ErrPolicyVersionReaderRequired | Some read_version \<Rightarrow>
      case compiler of None \<Rightarrow> Err ErrPolicyRuleCompilerRequired | Some compile_rule \<Rightarrow>
      let ref = \<lparr>rr_PolicyID = TrimSpace (rr_PolicyID reference), rr_PolicyVersion = TrimSpace (rr_PolicyVersion reference),
            rr_PolicyHash = TrimSpace (rr_PolicyHash reference), rr_RuleID = TrimSpace (rr_RuleID reference)\<rparr> in
      if rr_PolicyID ref = [] \<or> rr_PolicyVersion ref = [] \<or> rr_PolicyHash ref = [] \<or> rr_RuleID ref = []
      then Err ErrPolicyRuleReferenceInvalid
      else case read_version (rr_PolicyID ref) (rr_PolicyVersion ref) (rr_PolicyHash ref) of
        Inl err \<Rightarrow> Err (PolicyFailure err)
      | Inr None \<Rightarrow> Err (PolicyFailure ErrPolicyNotFound)
      | Inr (Some v) \<Rightarrow>
          if po_PolicyID v \<noteq> rr_PolicyID ref \<or> po_Version v \<noteq> rr_PolicyVersion ref \<or> po_Hash v \<noteq> rr_PolicyHash ref
          then Err ErrPolicyRuleReferenceInvalid
          else (case compile_rule v (rr_RuleID ref) of
             Inl err \<Rightarrow> Err err
           | Inr None \<Rightarrow> Err (ErrResolvedRuleMismatch [])
           | Inr (Some op) \<Rightarrow>
               if TrimSpace (op_RuleID op) \<noteq> rr_RuleID ref then Err (ErrResolvedRuleMismatch []) else Ok (Some op)))"

text \<open>The three loops of \<open>Execute\<close>: the operators, the bound evidence, the outcomes.\<close>

fun resolve_operators :: "operator_resolver \<Rightarrow> PolicyBinding \<Rightarrow> string list \<Rightarrow> pds_error + (string \<times> RuleOperator) list" where
  "resolve_operators resolve p [] = Ok []"
| "resolve_operators resolve p (rid # rids) =
     (case resolve \<lparr>rr_PolicyID = pb_PolicyID p, rr_PolicyVersion = pb_Version p, rr_PolicyHash = pb_Hash p, rr_RuleID = rid\<rparr> of
        Inl err \<Rightarrow> Err err
      | Inr None \<Rightarrow> Err (ErrResolvedRuleMismatch rid)
      | Inr (Some op) \<Rightarrow>
          if TrimSpace (op_RuleID op) \<noteq> rid then Err (ErrResolvedRuleMismatch rid)
          else (case resolve_operators resolve p rids of Inl err \<Rightarrow> Err err | Inr ops \<Rightarrow> Ok ((rid, op) # ops)))"

fun load_evidence ::
  "json \<Rightarrow> (uuid \<Rightarrow> pds_error + ev_Snapshot) \<Rightarrow> uuid \<Rightarrow> EvidenceReference list \<Rightarrow> pds_error + ev_Snapshot list" where
  "load_evidence js find_evidence sessionID [] = Ok []"
| "load_evidence js find_evidence sessionID (ref # refs) =
     (if ref_Status ref \<noteq> EvidenceQualified then Err ErrEvidenceNotQualified
      else case find_evidence (ref_EvidenceID ref) of
          Inl err \<Rightarrow> Err err
        | Inr stored \<Rightarrow>
            if ev_EvidenceID stored \<noteq> ref_EvidenceID ref \<or> ev_SessionID stored \<noteq> sessionID then Err ErrBoundEvidenceMismatch
            else (case ev_Rehydrate js stored of
               Inl err \<Rightarrow> Err (EvidenceFailure err)
             | Inr ob \<Rightarrow> (case load_evidence js find_evidence sessionID refs of
                 Inl err \<Rightarrow> Err err | Inr obs \<Rightarrow> Ok (ob # obs))))"

fun evaluate_operators ::
  "json \<Rightarrow> RuleInput \<Rightarrow> time \<Rightarrow> (string \<times> RuleOperator) list \<Rightarrow> pds_error + RuleOutcome list" where
  "evaluate_operators js input evaluatedAt [] = Ok []"
| "evaluate_operators js input evaluatedAt ((rid, op) # ops) =
     (case rehydrate_all js (ri_Evidence input) of
        Inl err \<Rightarrow> Err (EvidenceFailure err)
      | Inr copies \<Rightarrow>
          (case op_Evaluate op (input\<lparr>ri_Evidence := copies\<rparr>) of
             Inl msg \<Rightarrow> Err (ErrRuleExecutionFailed rid msg)
           | Inr d \<Rightarrow> (case evaluate_operators js input evaluatedAt ops of
               Inl err \<Rightarrow> Err err
             | Inr outcomes \<Rightarrow> Ok (\<lparr>RuleID = rid, Status = rd_Status d, ReasonCodes = rd_ReasonCodes d,
                 EvaluatedAt = evaluatedAt\<rparr> # outcomes))))"

definition svc_Execute ::
  "json \<Rightarrow> 's aggregate_store \<Rightarrow> environment \<Rightarrow> (uuid \<Rightarrow> pds_error + ev_Snapshot) \<Rightarrow> operator_resolver \<Rightarrow> uuid \<Rightarrow> 's \<Rightarrow> 's \<Rightarrow>
   's \<times> (pds_error + EvaluationSnapshot)" where
  "svc_Execute js st env find_evidence resolve i s0 s1 =
     (case st_FindEvaluation st i s0 of Inl err \<Rightarrow> (s1, Err err) | Inr e \<Rightarrow>
      (case evidenceBinding e of None \<Rightarrow> (s1, Err ErrEvidenceBindingMissing) | Some b \<Rightarrow>
      if eb_Status b \<noteq> EvidenceQualified then (s1, Err ErrEvidenceNotQualified) else
      (case policyBinding e of None \<Rightarrow> (s1, Err ErrPolicyBindingMissing) | Some p \<Rightarrow>
      if ruleOutcomes e \<noteq> [] then
        (s1, if MissingRequiredRuleIDs e = [] then Ok (Snapshot e) else Err ErrPartialRuleOutcomes)
      else
      (case resolve_operators resolve p (requiredRuleIDs e) of Inl err \<Rightarrow> (s1, Err err) | Inr ops \<Rightarrow>
      (case load_evidence js find_evidence (agg_sessionID e) (eb_Evidence b) of Inl err \<Rightarrow> (s1, Err err) | Inr qualified \<Rightarrow>
      let evaluatedAt = UTC (clock env 0);
          input = \<lparr>ri_EvaluationID = i, ri_SessionID = agg_sessionID e, ri_PolicyID = pb_PolicyID p,
            ri_PolicyVersion = pb_Version p, ri_PolicyHash = pb_Hash p, ri_Evidence = qualified\<rparr> in
      (case evaluate_operators js input evaluatedAt ops of Inl err \<Rightarrow> (s1, Err err) | Inr outcomes \<Rightarrow>
      result_snapshot (svc_write st env (RecordRuleOutcomeBatch outcomes evaluatedAt) e (version e) s1)))))))"

section \<open>Qualification under the bound policy\<close>

text \<open>
  The evidence the qualification lists is the argument \<open>objects\<close>; the evidence service reads its own clock, \<open>clock 0\<close>.
\<close>

type_synonym qualification_compiler = "po_Snapshot \<Rightarrow> pds_error + QualificationPolicy"

definition svc_QualifyAndBind ::
  "json \<Rightarrow> (observation_key \<Rightarrow> nat) \<Rightarrow> 's aggregate_store \<Rightarrow> environment \<Rightarrow> version_reader option \<Rightarrow>
   qualification_compiler option \<Rightarrow> evidence_objects \<Rightarrow> uuid \<Rightarrow> 's \<Rightarrow> 's \<Rightarrow> 's \<Rightarrow> 's \<Rightarrow> 's \<times> (pds_error + EvaluationSnapshot)" where
  "svc_QualifyAndBind js rank st env reader compiler objects i s s0 s1 s2 =
     (case reader of None \<Rightarrow> (s1, Err ErrPolicyVersionReaderRequired) | Some read_version \<Rightarrow>
      (case compiler of None \<Rightarrow> (s1, Err ErrQualificationCompilerRequired) | Some compile_policy \<Rightarrow>
      (case svc_Snapshot st i s of Inl err \<Rightarrow> (s1, Err err) | Inr snapshot \<Rightarrow>
      if sn_EvidenceBinding snapshot \<noteq> None then (s1, Ok snapshot) else
      (case sn_PolicyBinding snapshot of None \<Rightarrow> (s1, Err ErrPolicyBindingMissing) | Some b \<Rightarrow>
      (case read_version (pb_PolicyID b) (pb_Version b) (pb_Hash b) of
        Inl err \<Rightarrow> (s1, Err (PolicyFailure err))
      | Inr None \<Rightarrow> (s1, Err (PolicyFailure ErrPolicyNotFound))
      | Inr (Some v) \<Rightarrow>
      if po_PolicyID v \<noteq> pb_PolicyID b \<or> po_Version v \<noteq> pb_Version b \<or> po_Hash v \<noteq> pb_Hash b
      then (s1, Err ErrPolicyQualificationBindingInvalid) else
      (case compile_policy v of Inl err \<Rightarrow> (s1, Err err) | Inr p \<Rightarrow>
      (case NewQualifier p of Inl err \<Rightarrow> (s1, Err (EvidenceFailure err)) | Inr qualifier \<Rightarrow>
      (case QualifySession js rank (sn_SessionID snapshot) (Some qualifier) (clock env 0) objects of
        Inl err \<Rightarrow> (s1, Err (EvidenceFailure err))
      | Inr r \<Rightarrow>
      (case svc_BindEvidenceQualification st env i r s0 s1 of
         (s', Inr bound) \<Rightarrow> (s', Ok bound)
       | (s', Inl err) \<Rightarrow> (s',
           if err = EvaluationError ErrEvidenceAlreadyBound \<or> err = ErrConcurrentModification
           then (case svc_Snapshot st i s2 of
               Inr latest \<Rightarrow> if sn_EvidenceBinding latest \<noteq> None then Ok latest else Err err
             | Inl _ \<Rightarrow> Err err)
           else Err err))))))))))"

end
