(* ===== verification/Rule_Operator.thy ===== *)
theory Rule_Operator
  imports Pds_Service
begin

text \<open>
  The five rule operators (\<open>existence.go\<close>, \<open>match.go\<close>, \<open>numeric.go\<close> and \<open>sequence.go\<close> of \<open>src/ruleoperator\<close>): their constructors
  and what each decides on the evidence of an evaluation.
\<close>

definition inconclusive :: "ReasonCode \<Rightarrow> RuleDecision" where
  "inconclusive reason = \<lparr>rd_Status = RuleOutcomeInconclusive, rd_ReasonCodes = [reason]\<rparr>"

definition fail_with :: "ReasonCode \<Rightarrow> RuleDecision" where
  "fail_with reason = \<lparr>rd_Status = RuleOutcomeFail, rd_ReasonCodes = [reason]\<rparr>"

definition pass :: RuleDecision where
  "pass = \<lparr>rd_Status = RuleOutcomePass, rd_ReasonCodes = []\<rparr>"

definition passes :: "RuleDecision \<Rightarrow> bool" where
  "passes d \<longleftrightarrow> rd_Status d = RuleOutcomePass"

section \<open>Existence\<close>

record ExistenceOperator =
  xo_ruleID :: string
  xo_evidenceType :: string
  xo_sourceID :: string
  xo_minimumCount :: u32

definition reasonEvidenceCountBelowMinimum :: ReasonCode where
  "reasonEvidenceCountBelowMinimum = ''EVIDENCE_COUNT_BELOW_MINIMUM''"

definition NewExistenceOperator :: "string \<Rightarrow> string \<Rightarrow> string \<Rightarrow> u32 \<Rightarrow> ruleoperator_error + ExistenceOperator" where
  "NewExistenceOperator ruleID evidenceType sourceID minimumCount =
     (case normalizeRuleID ruleID of Inl err \<Rightarrow> Err err | Inr rid \<Rightarrow>
      case normalizeSelector \<lparr>sel_EvidenceType = evidenceType, sel_SourceID = sourceID, sel_JSONPointer = []\<rparr> of
        Inl err \<Rightarrow> Err err | Inr selector \<Rightarrow>
      if minimumCount = 0 then Err ErrMinimumCountRequired
      else Ok \<lparr>xo_ruleID = rid, xo_evidenceType = sel_EvidenceType selector, xo_sourceID = sel_SourceID selector,
        xo_minimumCount = minimumCount\<rparr>)"

text \<open>The loop counts in a \<open>uint32\<close>.\<close>

definition ExistenceOperator_Evaluate :: "ExistenceOperator \<Rightarrow> RuleInput \<Rightarrow> RuleDecision" where
  "ExistenceOperator_Evaluate op input =
     (let count = foldl (\<lambda>n s. if ev_EvidenceType s = xo_evidenceType op \<and> (xo_sourceID op = [] \<or> ev_SourceID s = xo_sourceID op)
            then n + 1 else n) (0 :: u32) (ri_Evidence input)
      in if count < xo_minimumCount op then fail_with reasonEvidenceCountBelowMinimum else pass)"

section \<open>Match\<close>

record MatchOperator =
  mo_ruleID :: string
  mo_selector :: Selector
  mo_expected :: string

definition NewMatchOperator :: "string \<Rightarrow> Selector \<Rightarrow> string \<Rightarrow> ruleoperator_error + MatchOperator" where
  "NewMatchOperator ruleID selector expected =
     (case normalizeRuleID ruleID of Inl err \<Rightarrow> Err err | Inr rid \<Rightarrow>
      case normalizeSelector selector of Inl err \<Rightarrow> Err err | Inr sel \<Rightarrow>
      case Decode expected of None \<Rightarrow> Err ErrInvalidExpectedValue
      | Some v \<Rightarrow> Ok \<lparr>mo_ruleID = rid, mo_selector = sel, mo_expected = Marshal v\<rparr>)"

definition MatchOperator_Evaluate :: "MatchOperator \<Rightarrow> RuleInput \<Rightarrow> RuleDecision" where
  "MatchOperator_Evaluate op input =
     (case selectValue (ri_Evidence input) (mo_selector op) of
        Inl reason \<Rightarrow> inconclusive reason
      | Inr v \<Rightarrow> if Marshal v \<noteq> mo_expected op then fail_with reasonMatchMismatch else pass)"

section \<open>Range and tolerance\<close>

record RangeOperator =
  go_ruleID :: string
  go_selector :: Selector
  go_minimum :: ratio
  go_maximum :: ratio

definition NewRangeOperator :: "string \<Rightarrow> Selector \<Rightarrow> string \<Rightarrow> string \<Rightarrow> ruleoperator_error + RangeOperator" where
  "NewRangeOperator ruleID selector minimum maximum =
     (case normalizeRuleID ruleID of Inl err \<Rightarrow> Err err | Inr rid \<Rightarrow>
      case normalizeSelector selector of Inl err \<Rightarrow> Err err | Inr sel \<Rightarrow>
      case ro_decimal minimum of Inl err \<Rightarrow> Err err | Inr lo \<Rightarrow>
      case ro_decimal maximum of Inl err \<Rightarrow> Err err | Inr hi \<Rightarrow>
      if \<not> rat_le lo hi then Err ErrInvalidRange
      else Ok \<lparr>go_ruleID = rid, go_selector = sel, go_minimum = lo, go_maximum = hi\<rparr>)"

definition RangeOperator_Evaluate :: "RangeOperator \<Rightarrow> RuleInput \<Rightarrow> RuleDecision" where
  "RangeOperator_Evaluate op input =
     (case selectValue (ri_Evidence input) (go_selector op) of Inl reason \<Rightarrow> inconclusive reason | Inr v \<Rightarrow>
      case numericValue v of Inl err \<Rightarrow> inconclusive reasonInvalidValue | Inr actual \<Rightarrow>
      if \<not> rat_le (go_minimum op) actual \<or> \<not> rat_le actual (go_maximum op) then fail_with reasonOutsideRange else pass)"

record ToleranceOperator =
  to_ruleID :: string
  to_selector :: Selector
  to_expected :: ratio
  to_tolerance :: ratio

definition NewToleranceOperator :: "string \<Rightarrow> Selector \<Rightarrow> string \<Rightarrow> string \<Rightarrow> ruleoperator_error + ToleranceOperator" where
  "NewToleranceOperator ruleID selector expected tolerance =
     (case normalizeRuleID ruleID of Inl err \<Rightarrow> Err err | Inr rid \<Rightarrow>
      case normalizeSelector selector of Inl err \<Rightarrow> Err err | Inr sel \<Rightarrow>
      case ro_decimal expected of Inl err \<Rightarrow> Err err | Inr target \<Rightarrow>
      case ro_decimal tolerance of Inl err \<Rightarrow> Err err | Inr delta \<Rightarrow>
      if fst delta < 0 then Err ErrInvalidTolerance
      else Ok \<lparr>to_ruleID = rid, to_selector = sel, to_expected = target, to_tolerance = delta\<rparr>)"

definition ToleranceOperator_Evaluate :: "ToleranceOperator \<Rightarrow> RuleInput \<Rightarrow> RuleDecision" where
  "ToleranceOperator_Evaluate op input =
     (case selectValue (ri_Evidence input) (to_selector op) of Inl reason \<Rightarrow> inconclusive reason | Inr v \<Rightarrow>
      case numericValue v of Inl err \<Rightarrow> inconclusive reasonInvalidValue | Inr actual \<Rightarrow>
      if \<not> rat_le (rat_Abs (rat_Sub actual (to_expected op))) (to_tolerance op)
      then fail_with reasonOutsideTolerance else pass)"

section \<open>Sequence\<close>

definition reasonSequenceIncomplete :: ReasonCode where "reasonSequenceIncomplete = ''SEQUENCE_INCOMPLETE''"
definition reasonSequenceOrderInvalid :: ReasonCode where "reasonSequenceOrderInvalid = ''SEQUENCE_ORDER_INVALID''"
definition reasonSequenceValueMismatch :: ReasonCode where "reasonSequenceValueMismatch = ''SEQUENCE_VALUE_MISMATCH''"
definition reasonSequenceGapExceeded :: ReasonCode where "reasonSequenceGapExceeded = ''SEQUENCE_GAP_EXCEEDED''"
definition reasonSequenceDurationExceeded :: ReasonCode where
  "reasonSequenceDurationExceeded = ''SEQUENCE_DURATION_EXCEEDED''"

record SequenceStep =
  ss_Selector :: Selector
  ss_Expected :: string

record SequenceOperator =
  so_ruleID :: string
  so_steps :: "SequenceStep list"
  so_maxGap :: int
  so_maxDuration :: int

fun normalize_steps :: "SequenceStep list \<Rightarrow> ruleoperator_error + SequenceStep list" where
  "normalize_steps [] = Ok []"
| "normalize_steps (s # steps) =
     (case normalizeSelector (ss_Selector s) of Inl err \<Rightarrow> Err err | Inr sel \<Rightarrow>
      case Decode (ss_Expected s) of None \<Rightarrow> Err ErrInvalidExpectedValue | Some v \<Rightarrow>
      case normalize_steps steps of Inl err \<Rightarrow> Err err
      | Inr ns \<Rightarrow> Ok (\<lparr>ss_Selector = sel, ss_Expected = Marshal v\<rparr> # ns))"

definition NewSequenceOperator :: "string \<Rightarrow> SequenceStep list \<Rightarrow> int \<Rightarrow> int \<Rightarrow> ruleoperator_error + SequenceOperator" where
  "NewSequenceOperator ruleID steps maxGap maxDuration =
     (case normalizeRuleID ruleID of Inl err \<Rightarrow> Err err | Inr rid \<Rightarrow>
      if length steps < 2 then Err ErrSequenceStepsRequired
      else if maxGap < 0 \<or> maxDuration < 0 then Err ErrInvalidSequenceWindow
      else case normalize_steps steps of Inl err \<Rightarrow> Err err
        | Inr ns \<Rightarrow> Ok \<lparr>so_ruleID = rid, so_steps = ns, so_maxGap = maxGap, so_maxDuration = maxDuration\<rparr>)"

text \<open>\<open>sort.SliceStable\<close> by observation time and then by the text of the identifier.\<close>

definition order_observations :: "ev_Snapshot list \<Rightarrow> ev_Snapshot list" where
  "order_observations evs = sort_key (\<lambda>s. instant (ev_ObservedAt s)) (sort_key (\<lambda>s. uuid_String (ev_EvidenceID s)) evs)"

definition nextMatchingEvidence :: "ev_Snapshot list \<Rightarrow> Selector \<Rightarrow> nat \<Rightarrow> nat option" where
  "nextMatchingEvidence ordered selector start =
     find (\<lambda>i. selectorMatches (ordered ! i) selector) [start..<length ordered]"

text \<open>The loop over the steps; the argument is the index and time of the previous step and the time of the first.\<close>

fun sequence_loop ::
  "SequenceOperator \<Rightarrow> ev_Snapshot list \<Rightarrow> SequenceStep list \<Rightarrow> (nat \<times> time \<times> time) option \<Rightarrow> RuleDecision" where
  "sequence_loop op ordered [] prev = pass"
| "sequence_loop op ordered (step # steps) prev =
     (case nextMatchingEvidence ordered (ss_Selector step) (case prev of None \<Rightarrow> 0 | Some (i, _, _) \<Rightarrow> i + 1) of
        None \<Rightarrow>
          if nextMatchingEvidence ordered (ss_Selector step) 0 \<noteq> None then fail_with reasonSequenceOrderInvalid
          else inconclusive reasonSequenceIncomplete
      | Some index \<Rightarrow>
          (case valueAtSnapshot (ordered ! index) (sel_JSONPointer (ss_Selector step)) of
             Inl reason \<Rightarrow> inconclusive reason
           | Inr v \<Rightarrow>
               if Marshal v \<noteq> ss_Expected step then fail_with reasonSequenceValueMismatch
               else let observedAt = UTC (ev_ObservedAt (ordered ! index));
                        firstAt = (case prev of None \<Rightarrow> observedAt | Some (_, _, f) \<Rightarrow> f) in
                 if (case prev of None \<Rightarrow> False
                     | Some (_, previousAt, _) \<Rightarrow> so_maxGap op > 0 \<and> time_Sub observedAt previousAt > so_maxGap op)
                 then fail_with reasonSequenceGapExceeded
                 else if so_maxDuration op > 0 \<and> time_Sub observedAt firstAt > so_maxDuration op
                 then fail_with reasonSequenceDurationExceeded
                 else sequence_loop op ordered steps (Some (index, observedAt, firstAt))))"

definition SequenceOperator_Evaluate :: "SequenceOperator \<Rightarrow> RuleInput \<Rightarrow> RuleDecision" where
  "SequenceOperator_Evaluate op input = sequence_loop op (order_observations (ri_Evidence input)) (so_steps op) None"

end
