(* ===== verification/Policy_Compiler.thy ===== *)
theory Policy_Compiler
  imports Rule_Operator
begin

text \<open>
  The compiler of policy documents (\<open>src/ruleoperator/policy_compiler.go\<close>): from the document of a policy version to the
  qualification policy and the rule operators, and the validation of a document at admission.

  The strict decoding of a document into the struct and \<open>time.ParseDuration\<close> are the fields of a \<open>document_codec\<close>; an optional
  field is an \<open>option\<close>, an absent \<open>RawMessage\<close> or slice is the empty list. A Go map used as a set is the list of its
  entries.
\<close>

definition PolicyDocumentSchemaV1 :: string where "PolicyDocumentSchemaV1 = ''policy.document.v1''"

section \<open>Documents\<close>

record selectorV1 =
  s1_EvidenceType :: string
  s1_SourceID :: string
  s1_JSONPointer :: string

record sequenceStepV1 =
  q1_Selector :: selectorV1
  q1_Expected :: string

record policyRuleV1 =
  r1_RuleID :: string
  r1_Operator :: string
  r1_Selector :: "selectorV1 option"
  r1_Expected :: string
  r1_Minimum :: "string option"
  r1_Maximum :: "string option"
  r1_Tolerance :: "string option"
  r1_EvidenceType :: "string option"
  r1_SourceID :: "string option"
  r1_MinimumCount :: "u32 option"
  r1_Steps :: "sequenceStepV1 list"
  r1_MaxGap :: "string option"
  r1_MaxDuration :: "string option"

record evidenceQualificationV1 =
  e1_Version :: string
  e1_TrustedSources :: "string list"
  e1_AllowedTypes :: "string list"
  e1_AllowedAcquisitionMethods :: "string list"
  e1_MaxAge :: "string option"
  e1_FutureTolerance :: "string option"
  e1_RequireConfidence :: bool
  e1_MinimumConfidence :: "float64 option"
  e1_RequiredProvenance :: "string list"
  e1_RequiredPayloadFields :: "string list"

record policyDocumentV1 =
  d1_EvidenceQualification :: "evidenceQualificationV1 option"
  d1_Rules :: "policyRuleV1 list"

record document_codec =
  decodeStrict :: "string \<Rightarrow> policyDocumentV1 option"
  ParseDuration :: "string \<Rightarrow> int option"

definition decodePolicyDocument :: "document_codec \<Rightarrow> po_Snapshot option \<Rightarrow> ruleoperator_error + policyDocumentV1" where
  "decodePolicyDocument cd pv =
     (case pv of None \<Rightarrow> Err ErrInvalidPolicyDocument | Some snapshot \<Rightarrow>
      if po_SchemaVersion snapshot \<noteq> PolicyDocumentSchemaV1 then Err (ErrUnsupportedPolicySchema (po_SchemaVersion snapshot))
      else case decodeStrict cd (po_Document snapshot) of None \<Rightarrow> Err ErrInvalidPolicyDocument | Some document \<Rightarrow> Ok document)"

definition po_duration :: "document_codec \<Rightarrow> string option \<Rightarrow> ruleoperator_error + int" where
  "po_duration cd value =
     (case value of
        None \<Rightarrow> Ok 0
      | Some s \<Rightarrow>
          if TrimSpace s = [] then Ok 0
          else (case ParseDuration cd s of
             None \<Rightarrow> Err ErrInvalidPolicyDocument
           | Some d \<Rightarrow> if d < 0 then Err ErrInvalidPolicyDocument else Ok d))"

section \<open>Qualification\<close>

fun stringSet_loop :: "string list \<Rightarrow> (string \<times> bool) list \<Rightarrow> ruleoperator_error + (string \<times> bool) list" where
  "stringSet_loop [] acc = Ok acc"
| "stringSet_loop (s # ss) acc =
     (let v = TrimSpace s in
      if v = [] \<or> in_set_map acc v then Err ErrInvalidPolicyDocument else stringSet_loop ss (acc @ [(v, True)]))"

definition stringSet :: "string list \<Rightarrow> ruleoperator_error + (string \<times> bool) list" where
  "stringSet values = stringSet_loop values []"

fun stringList_loop :: "string list \<Rightarrow> (string \<times> bool) list \<Rightarrow> string list" where
  "stringList_loop [] st = []"
| "stringList_loop (s # ss) st =
     (let v = TrimSpace s in
      if in_set_map st v then v # stringList_loop ss (AList.delete v st) else stringList_loop ss st)"

definition stringList :: "string list \<Rightarrow> ruleoperator_error + string list" where
  "stringList values = (case stringSet values of Inl err \<Rightarrow> Err err | Inr st \<Rightarrow> Ok (stringList_loop values st))"

definition CompileQualificationPolicy :: "document_codec \<Rightarrow> po_Snapshot option \<Rightarrow> ruleoperator_error + QualificationPolicy" where
  "CompileQualificationPolicy cd pv =
     (case decodePolicyDocument cd pv of Inl _ \<Rightarrow> Err ErrInvalidPolicyDocument | Inr document \<Rightarrow>
      (case d1_EvidenceQualification document of None \<Rightarrow> Err ErrInvalidPolicyDocument | Some input \<Rightarrow>
      (case po_duration cd (e1_MaxAge input) of Inl err \<Rightarrow> Err err | Inr maxAge \<Rightarrow>
      (case po_duration cd (e1_FutureTolerance input) of Inl err \<Rightarrow> Err err | Inr futureTolerance \<Rightarrow>
      (case stringSet (e1_TrustedSources input) of Inl err \<Rightarrow> Err err | Inr trustedSources \<Rightarrow>
      (case stringSet (e1_AllowedAcquisitionMethods input) of Inl err \<Rightarrow> Err err | Inr acquisitionMethods \<Rightarrow>
      (case stringList (e1_RequiredProvenance input) of Inl err \<Rightarrow> Err err | Inr requiredProvenance \<Rightarrow>
      (case stringList (e1_RequiredPayloadFields input) of Inl err \<Rightarrow> Err err | Inr requiredPayloadFields \<Rightarrow>
      (case stringSet (e1_AllowedTypes input) of Inl err \<Rightarrow> Err err | Inr allowedTypes \<Rightarrow>
      let compiled = \<lparr>qp_Version = TrimSpace (e1_Version input), TrustedSources = trustedSources, AllowedTypes = allowedTypes,
            AllowedAcquisitionMethods = acquisitionMethods, MaxAge = maxAge, FutureTolerance = futureTolerance,
            RequireConfidence = e1_RequireConfidence input, MinimumConfidence = e1_MinimumConfidence input,
            RequiredProvenance = requiredProvenance, RequiredPayloadFields = requiredPayloadFields\<rparr>
      in case NewQualifier compiled of Inl _ \<Rightarrow> Err ErrInvalidPolicyDocument | Inr _ \<Rightarrow> Ok compiled)))))))))"

section \<open>Rules\<close>

definition selector_of :: "selectorV1 \<Rightarrow> Selector" where
  "selector_of s = \<lparr>sel_EvidenceType = s1_EvidenceType s, sel_SourceID = s1_SourceID s, sel_JSONPointer = s1_JSONPointer s\<rparr>"

definition hasNumericFields :: "policyRuleV1 \<Rightarrow> bool" where
  "hasNumericFields r \<longleftrightarrow> r1_Minimum r \<noteq> None \<or> r1_Maximum r \<noteq> None \<or> r1_Tolerance r \<noteq> None \<or> r1_MinimumCount r \<noteq> None"

definition hasNumericFieldsExceptMinimumCount :: "policyRuleV1 \<Rightarrow> bool" where
  "hasNumericFieldsExceptMinimumCount r \<longleftrightarrow> r1_Minimum r \<noteq> None \<or> r1_Maximum r \<noteq> None \<or> r1_Tolerance r \<noteq> None"

text \<open>\<open>json.Unmarshal\<close> into a \<open>json.Number\<close>: a number, a string that is one, and null, which leaves it empty.\<close>

definition unmarshal_number :: "string \<Rightarrow> string option" where
  "unmarshal_number raw =
     (case Decode raw of
        Some (JNumber w) \<Rightarrow> Some w
      | Some (JString t) \<Rightarrow> if valid_number t then Some t else None
      | Some JNull \<Rightarrow> Some []
      | _ \<Rightarrow> None)"

text \<open>The operator as the interface the rule execution calls; no operator returns an error.\<close>

definition as_operator :: "('op \<Rightarrow> string) \<Rightarrow> ('op \<Rightarrow> RuleInput \<Rightarrow> RuleDecision) \<Rightarrow>
    ruleoperator_error + 'op \<Rightarrow> ruleoperator_error + RuleOperator" where
  "as_operator rid evaluate r =
     (case r of Inl err \<Rightarrow> Err err
      | Inr op \<Rightarrow> Ok \<lparr>op_RuleID = rid op, op_Evaluate = (\<lambda>input. Ok (evaluate op input))\<rparr>)"

definition sourceID_of :: "policyRuleV1 \<Rightarrow> string" where
  "sourceID_of r = (case r1_SourceID r of None \<Rightarrow> [] | Some s \<Rightarrow> s)"

definition sequence_step :: "sequenceStepV1 \<Rightarrow> SequenceStep" where
  "sequence_step s = \<lparr>ss_Selector = selector_of (q1_Selector s), ss_Expected = q1_Expected s\<rparr>"

definition rule_kind :: "policyRuleV1 \<Rightarrow> string" where
  "rule_kind r = ToUpper (TrimSpace (r1_Operator r))"

definition compilePolicyRule :: "document_codec \<Rightarrow> policyRuleV1 \<Rightarrow> ruleoperator_error + RuleOperator" where
  "compilePolicyRule cd r =
     (let rid = TrimSpace (r1_RuleID r); no_windows = (r1_MaxGap r = None \<and> r1_MaxDuration r = None) in
      if rule_kind r = ''MATCH'' then
        (case r1_Selector r of None \<Rightarrow> Err ErrInvalidPolicyDocument | Some sel \<Rightarrow>
         if r1_Expected r = [] \<or> hasNumericFields r \<or> r1_EvidenceType r \<noteq> None \<or> r1_SourceID r \<noteq> None \<or>
            r1_Steps r \<noteq> [] \<or> \<not> no_windows
         then Err ErrInvalidPolicyDocument
         else as_operator mo_ruleID MatchOperator_Evaluate (NewMatchOperator rid (selector_of sel) (r1_Expected r)))
      else if rule_kind r = ''RANGE'' then
        (case (r1_Selector r, r1_Minimum r, r1_Maximum r) of
           (Some sel, Some lo, Some hi) \<Rightarrow>
             if r1_Expected r \<noteq> [] \<or> r1_Tolerance r \<noteq> None \<or> r1_EvidenceType r \<noteq> None \<or> r1_SourceID r \<noteq> None \<or>
                r1_MinimumCount r \<noteq> None \<or> r1_Steps r \<noteq> [] \<or> \<not> no_windows
             then Err ErrInvalidPolicyDocument
             else as_operator go_ruleID RangeOperator_Evaluate (NewRangeOperator rid (selector_of sel) lo hi)
         | _ \<Rightarrow> Err ErrInvalidPolicyDocument)
      else if rule_kind r = ''TOLERANCE'' then
        (case (r1_Selector r, r1_Tolerance r) of
           (Some sel, Some tolerance) \<Rightarrow>
             if r1_Expected r = [] \<or> r1_Minimum r \<noteq> None \<or> r1_Maximum r \<noteq> None \<or> r1_EvidenceType r \<noteq> None \<or>
                r1_SourceID r \<noteq> None \<or> r1_MinimumCount r \<noteq> None \<or> r1_Steps r \<noteq> [] \<or> \<not> no_windows
             then Err ErrInvalidPolicyDocument
             else (case unmarshal_number (r1_Expected r) of None \<Rightarrow> Err ErrInvalidPolicyDocument | Some expected \<Rightarrow>
               as_operator to_ruleID ToleranceOperator_Evaluate (NewToleranceOperator rid (selector_of sel) expected tolerance))
         | _ \<Rightarrow> Err ErrInvalidPolicyDocument)
      else if rule_kind r = ''EXISTENCE'' then
        (case (r1_EvidenceType r, r1_MinimumCount r) of
           (Some evidenceType, Some minimumCount) \<Rightarrow>
             if r1_Selector r \<noteq> None \<or> r1_Expected r \<noteq> [] \<or> hasNumericFieldsExceptMinimumCount r \<or> r1_Steps r \<noteq> [] \<or>
                \<not> no_windows
             then Err ErrInvalidPolicyDocument
             else as_operator xo_ruleID ExistenceOperator_Evaluate
               (NewExistenceOperator rid evidenceType (sourceID_of r) minimumCount)
         | _ \<Rightarrow> Err ErrInvalidPolicyDocument)
      else if rule_kind r = ''SEQUENCE'' then
        (if length (r1_Steps r) < 2 \<or> r1_Selector r \<noteq> None \<or> r1_Expected r \<noteq> [] \<or> hasNumericFields r \<or>
            r1_EvidenceType r \<noteq> None \<or> r1_SourceID r \<noteq> None
         then Err ErrInvalidPolicyDocument
         else if list_ex (\<lambda>s. q1_Expected s = []) (r1_Steps r) then Err ErrInvalidPolicyDocument
         else case po_duration cd (r1_MaxGap r) of Inl err \<Rightarrow> Err err | Inr maxGap \<Rightarrow>
           case po_duration cd (r1_MaxDuration r) of Inl err \<Rightarrow> Err err | Inr maxDuration \<Rightarrow>
           as_operator so_ruleID SequenceOperator_Evaluate
             (NewSequenceOperator rid (map sequence_step (r1_Steps r)) maxGap maxDuration))
      else Err (ErrUnsupportedOperator (r1_Operator r)))"

text \<open>The loop of \<open>CompileRule\<close> over the rules of the document.\<close>

fun select_rule :: "policyRuleV1 list \<Rightarrow> string \<Rightarrow> string list \<Rightarrow> policyRuleV1 option \<Rightarrow> ruleoperator_error + policyRuleV1 option"
where
  "select_rule [] ruleID seen selected = Ok selected"
| "select_rule (r # rs) ruleID seen selected =
     (let i = TrimSpace (r1_RuleID r) in
      if i = [] then Err ErrInvalidPolicyDocument
      else if i \<in> set seen then Err (ErrDuplicatePolicyRule i)
      else select_rule rs ruleID (i # seen) (if i = ruleID then Some r else selected))"

definition CompileRule :: "document_codec \<Rightarrow> po_Snapshot option \<Rightarrow> string \<Rightarrow> ruleoperator_error + RuleOperator" where
  "CompileRule cd pv ruleID =
     (case decodePolicyDocument cd pv of Inl err \<Rightarrow> Err err | Inr document \<Rightarrow>
      let rid = TrimSpace ruleID in
      if rid = [] then Err ErrOperatorRuleIDRequired
      else if d1_Rules document = [] then Err ErrInvalidPolicyDocument
      else case select_rule (d1_Rules document) rid [] None of
          Inl err \<Rightarrow> Err err
        | Inr None \<Rightarrow> Err (ErrPolicyRuleNotFound rid)
        | Inr (Some r) \<Rightarrow> compilePolicyRule cd r)"

section \<open>Validation\<close>

definition validateEvidenceQualificationScope ::
  "string \<Rightarrow> string \<Rightarrow> QualificationPolicy \<Rightarrow> ruleoperator_error option" where
  "validateEvidenceQualificationScope evidenceType sourceID q =
     (let evidenceType = TrimSpace evidenceType; sourceID = TrimSpace sourceID in
      if AllowedTypes q \<noteq> [] \<and> \<not> in_set_map (AllowedTypes q) evidenceType
      then Some (ErrRuleOutsideQualificationScope (''evidence_type='' @ evidenceType))
      else if sourceID \<noteq> [] \<and> TrustedSources q \<noteq> [] \<and> \<not> in_set_map (TrustedSources q) sourceID
      then Some (ErrRuleOutsideQualificationScope (''source_id='' @ sourceID))
      else None)"

definition validateSelectorQualificationScope :: "selectorV1 \<Rightarrow> QualificationPolicy \<Rightarrow> ruleoperator_error option" where
  "validateSelectorQualificationScope s q = validateEvidenceQualificationScope (s1_EvidenceType s) (s1_SourceID s) q"

fun first_error :: "'e option list \<Rightarrow> 'e option" where
  "first_error [] = None"
| "first_error (e # es) = (case e of Some err \<Rightarrow> Some err | None \<Rightarrow> first_error es)"

fun validateRuleQualificationScope :: "policyRuleV1 list \<Rightarrow> string \<Rightarrow> QualificationPolicy \<Rightarrow> ruleoperator_error option" where
  "validateRuleQualificationScope [] ruleID q = Some (ErrPolicyRuleNotFound ruleID)"
| "validateRuleQualificationScope (r # rs) ruleID q =
     (if TrimSpace (r1_RuleID r) \<noteq> ruleID then validateRuleQualificationScope rs ruleID q
      else if rule_kind r \<in> {''MATCH'', ''RANGE'', ''TOLERANCE''} then
        (case r1_Selector r of None \<Rightarrow> Some ErrInvalidPolicyDocument | Some s \<Rightarrow> validateSelectorQualificationScope s q)
      else if rule_kind r = ''EXISTENCE'' then
        (case r1_EvidenceType r of None \<Rightarrow> Some ErrInvalidPolicyDocument
         | Some t \<Rightarrow> validateEvidenceQualificationScope t (sourceID_of r) q)
      else if rule_kind r = ''SEQUENCE'' then
        first_error (map (\<lambda>s. validateSelectorQualificationScope (q1_Selector s) q) (r1_Steps r))
      else Some (ErrUnsupportedOperator (r1_Operator r)))"

definition validate_rule ::
  "document_codec \<Rightarrow> po_Snapshot \<Rightarrow> policyDocumentV1 \<Rightarrow> QualificationPolicy \<Rightarrow> string \<Rightarrow> ruleoperator_error option" where
  "validate_rule cd v document q ruleID =
     (case CompileRule cd (Some v) ruleID of
        Inl err \<Rightarrow> Some err
      | Inr _ \<Rightarrow> validateRuleQualificationScope (d1_Rules document) ruleID q)"

definition ValidatePolicyDocument :: "document_codec \<Rightarrow> po_Snapshot option \<Rightarrow> ruleoperator_error option" where
  "ValidatePolicyDocument cd pv =
     (case pv of None \<Rightarrow> Some ErrInvalidPolicyDocument | Some v \<Rightarrow>
      case CompileQualificationPolicy cd (Some v) of Inl err \<Rightarrow> Some err | Inr q \<Rightarrow>
      case decodePolicyDocument cd (Some v) of Inl err \<Rightarrow> Some err | Inr document \<Rightarrow>
      first_error (map (validate_rule cd v document q) (po_RequiredRuleIDs v)))"

end
