(* ===== verification/Rule_Properties.thy ===== *)
theory Rule_Properties
  imports Policy_Compiler Policy_Properties "HOL-Library.Multiset"
begin

text \<open>
  The properties of rules: the decision of a compiled rule does not depend on the order of the evidence, a pass is
  justified by the evidence, and the rules of an admitted policy can be executed.
\<close>

section \<open>Compiled rules\<close>

lemma as_operator_Ok:
  "as_operator rid ev x = Inr op \<longleftrightarrow> (\<exists>o1. x = Inr o1 \<and> op = \<lparr>op_RuleID = rid o1, op_Evaluate = (\<lambda>input. Ok (ev o1 input))\<rparr>)"
  by (auto simp: as_operator_def split: sum.split)

lemma compile_MATCH:
  assumes "compilePolicyRule cd r = Inr op" "rule_kind r = ''MATCH''"
  obtains sel o1 where "r1_Selector r = Some sel"
    "NewMatchOperator (TrimSpace (r1_RuleID r)) (selector_of sel) (r1_Expected r) = Inr o1"
    "op = \<lparr>op_RuleID = mo_ruleID o1, op_Evaluate = (\<lambda>input. Ok (MatchOperator_Evaluate o1 input))\<rparr>"
  using assms by (auto simp: compilePolicyRule_def Let_def as_operator_Ok split: option.splits if_splits)

lemma compile_RANGE:
  assumes "compilePolicyRule cd r = Inr op" "rule_kind r = ''RANGE''"
  obtains sel lo hi o1 where "r1_Selector r = Some sel" "r1_Minimum r = Some lo" "r1_Maximum r = Some hi"
    "NewRangeOperator (TrimSpace (r1_RuleID r)) (selector_of sel) lo hi = Inr o1"
    "op = \<lparr>op_RuleID = go_ruleID o1, op_Evaluate = (\<lambda>input. Ok (RangeOperator_Evaluate o1 input))\<rparr>"
  using assms by (auto simp: compilePolicyRule_def Let_def as_operator_Ok split: option.splits if_splits)

lemma compile_TOLERANCE:
  assumes "compilePolicyRule cd r = Inr op" "rule_kind r = ''TOLERANCE''"
  obtains sel w t o1 where "r1_Selector r = Some sel" "unmarshal_number (r1_Expected r) = Some w" "r1_Tolerance r = Some t"
    "NewToleranceOperator (TrimSpace (r1_RuleID r)) (selector_of sel) w t = Inr o1"
    "op = \<lparr>op_RuleID = to_ruleID o1, op_Evaluate = (\<lambda>input. Ok (ToleranceOperator_Evaluate o1 input))\<rparr>"
  using assms by (auto simp: compilePolicyRule_def Let_def as_operator_Ok split: option.splits if_splits)

lemma compile_EXISTENCE:
  assumes "compilePolicyRule cd r = Inr op" "rule_kind r = ''EXISTENCE''"
  obtains t n o1 where "r1_EvidenceType r = Some t" "r1_MinimumCount r = Some n"
    "NewExistenceOperator (TrimSpace (r1_RuleID r)) t (sourceID_of r) n = Inr o1"
    "op = \<lparr>op_RuleID = xo_ruleID o1, op_Evaluate = (\<lambda>input. Ok (ExistenceOperator_Evaluate o1 input))\<rparr>"
  using assms by (auto simp: compilePolicyRule_def Let_def as_operator_Ok split: option.splits if_splits)

lemma compile_SEQUENCE:
  assumes "compilePolicyRule cd r = Inr op" "rule_kind r = ''SEQUENCE''"
  obtains g d o1 where "po_duration cd (r1_MaxGap r) = Inr g" "po_duration cd (r1_MaxDuration r) = Inr d"
    "NewSequenceOperator (TrimSpace (r1_RuleID r)) (map sequence_step (r1_Steps r)) g d = Inr o1"
    "op = \<lparr>op_RuleID = so_ruleID o1, op_Evaluate = (\<lambda>input. Ok (SequenceOperator_Evaluate o1 input))\<rparr>"
  using assms by (auto simp: compilePolicyRule_def Let_def as_operator_Ok split: sum.splits if_splits)

lemma compile_kinds:
  assumes "compilePolicyRule cd r = Inr op"
  shows "rule_kind r \<in> {''MATCH'', ''RANGE'', ''TOLERANCE'', ''EXISTENCE'', ''SEQUENCE''}"
  using assms by (auto simp: compilePolicyRule_def Let_def split: if_splits)

lemmas compile_cases = compile_MATCH compile_RANGE compile_TOLERANCE compile_EXISTENCE compile_SEQUENCE

lemma normalizeRuleID_Ok: "normalizeRuleID rid = Inr i \<longleftrightarrow> i = TrimSpace rid \<and> i \<noteq> []"
  by (auto simp: normalizeRuleID_def Let_def)

lemma New_ruleID:
  "NewMatchOperator rid sel ex = Inr mo \<Longrightarrow> mo_ruleID mo = TrimSpace rid"
  "NewRangeOperator rid sel lo hi = Inr ro \<Longrightarrow> go_ruleID ro = TrimSpace rid"
  "NewToleranceOperator rid sel ex t = Inr tol \<Longrightarrow> to_ruleID tol = TrimSpace rid"
  "NewExistenceOperator rid t s n = Inr xo \<Longrightarrow> xo_ruleID xo = TrimSpace rid"
  "NewSequenceOperator rid steps g d = Inr so \<Longrightarrow> so_ruleID so = TrimSpace rid"
  by (auto simp: NewMatchOperator_def NewRangeOperator_def NewToleranceOperator_def NewExistenceOperator_def
      NewSequenceOperator_def normalizeRuleID_Ok split: sum.splits option.splits if_splits)

lemma compiled_ruleID: "compilePolicyRule cd r = Inr op \<Longrightarrow> op_RuleID op = TrimSpace (r1_RuleID r)"
proof -
  assume c: "compilePolicyRule cd r = Inr op"
  consider "rule_kind r = ''MATCH''" | "rule_kind r = ''RANGE''" | "rule_kind r = ''TOLERANCE''" | "rule_kind r = ''EXISTENCE''"
    | "rule_kind r = ''SEQUENCE''" using compile_kinds [OF c] by blast
  then show ?thesis
    by cases (erule compile_cases [OF c]; simp add: New_ruleID)+
qed

lemma compiled_total: "compilePolicyRule cd r = Inr op \<Longrightarrow> \<exists>d. op_Evaluate op input = Inr d"
proof -
  assume c: "compilePolicyRule cd r = Inr op"
  consider "rule_kind r = ''MATCH''" | "rule_kind r = ''RANGE''" | "rule_kind r = ''TOLERANCE''" | "rule_kind r = ''EXISTENCE''"
    | "rule_kind r = ''SEQUENCE''" using compile_kinds [OF c] by blast
  then show ?thesis by cases (erule compile_cases [OF c]; simp)+
qed

section \<open>The order of the evidence\<close>

lemma selectValue_mset:
  assumes "mset evs = mset evs'"
  shows "selectValue evs sel = selectValue evs' sel"
proof -
  let ?f = "filter (\<lambda>s. selectorMatches s sel)"
  have m: "mset (?f evs) = mset (?f evs')" using assms by simp
  then have "length (?f evs) = length (?f evs')" by (rule mset_eq_length)
  moreover have "?f evs = ?f evs'" if "length (?f evs) \<le> 1"
    using m that by (cases "?f evs"; cases "?f evs'") auto
  ultimately show ?thesis
    by (cases "length (?f evs) \<le> 1") (auto simp: selectValue_def split: list.split)
qed

lemma count_mset:
  fixes n :: u32
  assumes "mset evs = mset evs'"
  shows "foldl (\<lambda>n s. if P s then n + 1 else n) n evs = foldl (\<lambda>n s. if P s then n + 1 else n) n evs'"
proof -
  have "foldl (\<lambda>n s. if P s then n + 1 else n) n xs = n + of_nat (length (filter P xs))" for xs and n :: u32
    by (induction xs arbitrary: n) (auto simp: ac_simps)
  moreover have "length (filter P evs) = length (filter P evs')"
    using assms by (metis mset_eq_length mset_filter)
  ultimately show ?thesis by simp
qed

lemma order_observations_mset:
  assumes "mset evs = mset evs'" "distinct (map ev_EvidenceID evs)"
  shows "order_observations evs = order_observations evs'"
proof -
  let ?k = "\<lambda>s. uuid_String (ev_EvidenceID s)"
  have "inj_on ev_EvidenceID (set evs)" using assms(2) by (simp add: distinct_map)
  then have "inj_on ?k (set evs)" by (simp add: inj_on_def)
  then have "sort_key ?k evs = sort_key ?k evs'"
    using assms(1) by (intro sort_key_inj_key_eq) simp_all
  then show ?thesis by (simp add: order_observations_def)
qed

text \<open>A sample rule, the operator it compiles to, and observations.\<close>

definition sample_rule :: policyRuleV1 where
  "sample_rule = \<lparr>r1_RuleID = ''R'', r1_Operator = ''MATCH'',
     r1_Selector = Some \<lparr>s1_EvidenceType = ''WEIGHT'', s1_SourceID = ''scale'', s1_JSONPointer = []\<rparr>, r1_Expected = ''7'',
     r1_Minimum = None, r1_Maximum = None, r1_Tolerance = None, r1_EvidenceType = None, r1_SourceID = None, r1_MinimumCount = None,
     r1_Steps = [], r1_MaxGap = None, r1_MaxDuration = None\<rparr>"

definition sample_match :: MatchOperator where
  "sample_match = \<lparr>mo_ruleID = ''R'',
     mo_selector = \<lparr>sel_EvidenceType = ''WEIGHT'', sel_SourceID = ''scale'', sel_JSONPointer = []\<rparr>, mo_expected = ''7''\<rparr>"

definition sample_operator :: RuleOperator where
  "sample_operator = \<lparr>op_RuleID = ''R'', op_Evaluate = (\<lambda>input. Ok (MatchOperator_Evaluate sample_match input))\<rparr>"

definition sample_observation :: "uuid \<Rightarrow> string \<Rightarrow> ev_Snapshot" where
  "sample_observation i t = \<lparr>ev_EvidenceID = i, ev_SessionID = 7, ev_SourceID = ''scale'', ev_SourceType = ''sensor'',
     ev_EvidenceType = t, ev_ObservedAt = Time 100 0, ev_ReceivedAt = Time 101 0, ev_Payload = ''7'', ev_Confidence = None,
     ev_Provenance = Map.empty, ev_Integrity = \<lparr>im_Algorithm = [], im_PayloadDigest = [], im_SchemaVersion = [],
       im_RuntimeVersion = [], im_AcquisitionMethod = []\<rparr>\<rparr>"

definition sample_rule_input :: "ev_Snapshot list \<Rightarrow> RuleInput" where
  "sample_rule_input evs = \<lparr>ri_EvaluationID = 1, ri_SessionID = 7, ri_PolicyID = ''weight'', ri_PolicyVersion = ''1'', ri_PolicyHash = [],
     ri_Evidence = evs\<rparr>"

lemma sample_rule_kind: "rule_kind sample_rule = ''MATCH''"
  by (simp add: rule_kind_def sample_rule_def graphic_def upper_byte_def)

lemma sample_value: "Decode ''7'' = Some (JNumber ''7'')" "Marshal (JNumber ''7'') = ''7''"
  by code_simp+

lemma sample_match_new:
  "NewMatchOperator (TrimSpace (r1_RuleID sample_rule)) (selector_of (the (r1_Selector sample_rule))) (r1_Expected sample_rule) =
   Inr sample_match"
  by (simp add: NewMatchOperator_def normalizeRuleID_def normalizeSelector_def selector_of_def pointer_tokens_def
      sample_rule_def sample_match_def graphic_def sample_value)

lemma sample_rule_compiled: "compilePolicyRule cd sample_rule = Inr sample_operator"
  using sample_match_new
  by (simp add: compilePolicyRule_def sample_rule_kind as_operator_Ok sample_operator_def)
    (simp add: sample_rule_def sample_match_def hasNumericFields_def as_operator_def)

lemma sample_decides:
  "MatchOperator_Evaluate sample_match (sample_rule_input [sample_observation 1 ''WEIGHT'', sample_observation 2 ''SEAL'']) = pass"
  by (simp add: MatchOperator_Evaluate_def sample_match_def sample_rule_input_def sample_observation_def selectValue_def
      selectorMatches_def valueAtSnapshot_def sample_value)

text \<open>
  C10. The decision of a rule of a policy document does not depend on the order in which the evidence of the evaluation is
  given, whatever the operator of the rule.
\<close>

theorem decision_order_independent:
  assumes "compilePolicyRule cd r = Inr op"
    and "mset (ri_Evidence input) = mset evs" "distinct (map ev_EvidenceID (ri_Evidence input))"
  shows "op_Evaluate op (input\<lparr>ri_Evidence := evs\<rparr>) = op_Evaluate op input"
proof -
  note sel = selectValue_mset [OF assms(2)] and count = count_mset [OF assms(2)]
    and order = order_observations_mset [OF assms(2,3)]
  consider "rule_kind r = ''MATCH''" | "rule_kind r = ''RANGE''" | "rule_kind r = ''TOLERANCE''" | "rule_kind r = ''EXISTENCE''"
    | "rule_kind r = ''SEQUENCE''" using compile_kinds [OF assms(1)] by blast
  then show ?thesis
    by cases (erule compile_cases [OF assms(1)]; simp add: MatchOperator_Evaluate_def RangeOperator_Evaluate_def
        ToleranceOperator_Evaluate_def ExistenceOperator_Evaluate_def SequenceOperator_Evaluate_def sel count order)+
qed

theorem decision_order_independent_witness:
  "op_Evaluate sample_operator (sample_rule_input [sample_observation 2 ''SEAL'', sample_observation 1 ''WEIGHT'']) = Inr pass"
proof -
  let ?evs = "[sample_observation 1 ''WEIGHT'', sample_observation 2 ''SEAL'']"
  have "mset (ri_Evidence (sample_rule_input ?evs)) = mset (rev ?evs)" "distinct (map ev_EvidenceID (ri_Evidence (sample_rule_input ?evs)))"
    by (simp_all add: sample_rule_input_def sample_observation_def)
  from decision_order_independent [OF sample_rule_compiled this]
  show ?thesis using sample_decides by (simp add: sample_operator_def sample_rule_input_def)
qed

section \<open>What a pass says\<close>

text \<open>The value of the one observation a selector matches.\<close>

definition sole_value :: "ev_Snapshot list \<Rightarrow> Selector \<Rightarrow> jvalue \<Rightarrow> bool" where
  "sole_value evs sel v \<longleftrightarrow> (\<exists>s. filter (\<lambda>s. selectorMatches s sel) evs = [s] \<and> valueAtSnapshot s (sel_JSONPointer sel) = Inr v)"

definition normal_selector :: "selectorV1 \<Rightarrow> Selector" where
  "normal_selector s = \<lparr>sel_EvidenceType = s1_EvidenceType s, sel_SourceID = TrimSpace (s1_SourceID s),
     sel_JSONPointer = TrimSpace (s1_JSONPointer s)\<rparr>"

text \<open>Observations that carry out the steps in order: \<open>obs\<close> are their positions in the order of time.\<close>

definition steps_observed :: "int \<Rightarrow> int \<Rightarrow> ev_Snapshot list \<Rightarrow> sequenceStepV1 list \<Rightarrow> nat list \<Rightarrow> bool" where
  "steps_observed gap dur ordered steps obs \<longleftrightarrow>
     list_all2 (\<lambda>i step. i < length ordered \<and> selectorMatches (ordered ! i) (normal_selector (q1_Selector step)) \<and>
       (\<exists>v. valueAtSnapshot (ordered ! i) (TrimSpace (s1_JSONPointer (q1_Selector step))) = Inr v \<and>
          Decode (q1_Expected step) = Some v)) obs steps \<and>
     sorted_wrt (<) obs \<and>
     (0 < gap \<longrightarrow> successively (\<lambda>i j. time_Sub (ev_ObservedAt (ordered ! j)) (ev_ObservedAt (ordered ! i)) \<le> gap) obs) \<and>
     (0 < dur \<longrightarrow> list_all (\<lambda>j. time_Sub (ev_ObservedAt (ordered ! j)) (ev_ObservedAt (ordered ! hd obs)) \<le> dur) obs)"

definition justified :: "document_codec \<Rightarrow> policyRuleV1 \<Rightarrow> ev_Snapshot list \<Rightarrow> bool" where
  "justified cd r evs \<longleftrightarrow>
     (if rule_kind r = ''MATCH'' then
        \<exists>sel v. r1_Selector r = Some sel \<and> sole_value evs (normal_selector sel) v \<and> Decode (r1_Expected r) = Some v
      else if rule_kind r = ''RANGE'' then
        \<exists>sel lo hi a b v x. r1_Selector r = Some sel \<and> r1_Minimum r = Some lo \<and> r1_Maximum r = Some hi \<and>
          ro_decimal lo = Inr a \<and> ro_decimal hi = Inr b \<and> sole_value evs (normal_selector sel) v \<and> numericValue v = Inr x \<and>
          rat_le a x \<and> rat_le x b
      else if rule_kind r = ''TOLERANCE'' then
        \<exists>sel w t a b v x. r1_Selector r = Some sel \<and> unmarshal_number (r1_Expected r) = Some w \<and> r1_Tolerance r = Some t \<and>
          ro_decimal w = Inr a \<and> ro_decimal t = Inr b \<and> sole_value evs (normal_selector sel) v \<and> numericValue v = Inr x \<and>
          rat_le (rat_Abs (rat_Sub x a)) b
      else if rule_kind r = ''EXISTENCE'' then
        \<exists>t n. r1_EvidenceType r = Some t \<and> r1_MinimumCount r = Some n \<and> 0 < n \<and>
          unat n \<le> length (filter (\<lambda>s. selectorMatches s (normal_selector
            \<lparr>s1_EvidenceType = t, s1_SourceID = sourceID_of r, s1_JSONPointer = []\<rparr>)) evs)
      else
        \<exists>g d obs. po_duration cd (r1_MaxGap r) = Inr g \<and> po_duration cd (r1_MaxDuration r) = Inr d \<and>
          steps_observed g d (order_observations evs) (r1_Steps r) obs)"

lemma normalizeSelector_Ok:
  "normalizeSelector (selector_of s) = Inr sel \<Longrightarrow> sel = normal_selector s"
  by (auto simp: normalizeSelector_def selector_of_def normal_selector_def Let_def split: if_splits)

lemma selectValue_Ok: "selectValue evs sel = Inr v \<Longrightarrow> sole_value evs sel v"
  by (auto simp: selectValue_def sole_value_def split: list.splits)

lemma value_ok_sub:
  "value_ok n (JArray vs) \<Longrightarrow> x \<in> set vs \<Longrightarrow> value_ok n x"
  "value_ok n (JObject ms) \<Longrightarrow> map_of ms k = Some x \<Longrightarrow> value_ok n x"
proof -
  have mono: "value_ok m y \<Longrightarrow> value_ok (Suc m) y" for m y by (simp add: value_ok_def)
  show "value_ok n (JArray vs) \<Longrightarrow> x \<in> set vs \<Longrightarrow> value_ok n x"
    using mono by (cases n) (auto simp: value_ok_Array)
  show "value_ok n (JObject ms) \<Longrightarrow> map_of ms k = Some x \<Longrightarrow> value_ok n x"
    using mono map_of_SomeD [of ms k x] by (cases n) (auto simp: value_ok_Object)
qed

lemma value_at_ok: "value_at ts v = Inr w \<Longrightarrow> value_ok n v \<Longrightarrow> value_ok n w"
proof (induction ts arbitrary: v)
  case (Cons t ts)
  show ?case
  proof (cases v)
    case (JArray vs)
    then obtain i where i: "0 \<le> i" "i < int (length vs)" "value_at ts (vs ! nat i) = Inr w"
      using Cons.prems(1) by (auto simp: Let_def not_le not_less split: option.splits if_splits)
    then have "vs ! nat i \<in> set vs" by (simp add: nat_less_iff)
    then show ?thesis using Cons.IH [OF i(3)] value_ok_sub(1) Cons.prems(2) JArray by simp
  next
    case (JObject ms)
    then obtain u where u: "map_of ms (unescape_token t) = Some u" "value_at ts u = Inr w"
      using Cons.prems(1) by (auto simp: Let_def split: option.splits)
    then show ?thesis using Cons.IH [OF u(2)] value_ok_sub(2) [OF _ u(1)] Cons.prems(2) JObject by simp
  qed (use Cons.prems(1) in simp_all)
qed simp

lemma valueAtSnapshot_ok: "valueAtSnapshot s p = Inr v \<Longrightarrow> value_ok maxNestingDepth v"
  using Decode_ok value_at_ok by (fastforce simp: valueAtSnapshot_def split: option.splits if_splits)

lemma Marshal_eq: "value_ok maxNestingDepth v \<Longrightarrow> Decode raw = Some w \<Longrightarrow> Marshal v = Marshal w \<Longrightarrow> v = w"
  using Decode_Marshal Decode_ok by (metis option.inject)

text \<open>The loop of the sequence operator, from the position of the previous step.\<close>

lemma normalize_steps_Ok:
  "normalize_steps (map sequence_step steps) = Inr ns \<Longrightarrow>
   list_all2 (\<lambda>n s. ss_Selector n = normal_selector (q1_Selector s) \<and>
     (\<exists>w. Decode (q1_Expected s) = Some w \<and> ss_Expected n = Marshal w)) ns steps"
  by (induction steps arbitrary: ns)
    (auto simp: sequence_step_def dest: normalizeSelector_Ok split: sum.splits option.splits)

definition step_done :: "ev_Snapshot list \<Rightarrow> nat \<Rightarrow> SequenceStep \<Rightarrow> bool" where
  "step_done ordered i step \<longleftrightarrow> i < length ordered \<and> selectorMatches (ordered ! i) (ss_Selector step) \<and>
     (\<exists>v. valueAtSnapshot (ordered ! i) (sel_JSONPointer (ss_Selector step)) = Inr v \<and> Marshal v = ss_Expected step)"

lemma nextMatching_Some:
  "nextMatchingEvidence ordered sel start = Some i \<Longrightarrow> start \<le> i \<and> i < length ordered \<and> selectorMatches (ordered ! i) sel"
  by (auto simp: nextMatchingEvidence_def find_Some_iff)

lemma time_Sub_UTC [simp]: "time_Sub (UTC t) (UTC u) = time_Sub t u"
  by (simp add: time_Sub_def UTC_def)

lemma sequence_loop_pass:
  assumes "passes (sequence_loop op ordered steps (Some (p, UTC (ev_ObservedAt (ordered ! p)), UTC f)))"
  shows "\<exists>obs. list_all2 (step_done ordered) obs steps \<and> sorted_wrt (<) (p # obs) \<and>
    (0 < so_maxGap op \<longrightarrow> successively (\<lambda>i j. time_Sub (ev_ObservedAt (ordered ! j)) (ev_ObservedAt (ordered ! i)) \<le> so_maxGap op) (p # obs)) \<and>
    (0 < so_maxDuration op \<longrightarrow> list_all (\<lambda>j. time_Sub (ev_ObservedAt (ordered ! j)) f \<le> so_maxDuration op) obs)"
  using assms
proof (induction steps arbitrary: p)
  case (Cons step steps)
  obtain i v where i: "nextMatchingEvidence ordered (ss_Selector step) (p + 1) = Some i"
      "valueAtSnapshot (ordered ! i) (sel_JSONPointer (ss_Selector step)) = Inr v" "Marshal v = ss_Expected step"
      "\<not> (0 < so_maxGap op \<and> so_maxGap op < time_Sub (ev_ObservedAt (ordered ! i)) (ev_ObservedAt (ordered ! p)))"
      "\<not> (0 < so_maxDuration op \<and> so_maxDuration op < time_Sub (ev_ObservedAt (ordered ! i)) f)"
      "passes (sequence_loop op ordered steps (Some (i, UTC (ev_ObservedAt (ordered ! i)), UTC f)))"
    using Cons.prems
    by (auto simp: passes_def fail_with_def inconclusive_def Let_def split: option.splits sum.splits if_splits)
  then have pi: "p < i" "step_done ordered i step" using nextMatching_Some by (fastforce simp: step_done_def)+
  obtain obs where obs: "list_all2 (step_done ordered) obs steps" "sorted_wrt (<) (i # obs)"
      "0 < so_maxGap op \<longrightarrow> successively (\<lambda>i j. time_Sub (ev_ObservedAt (ordered ! j)) (ev_ObservedAt (ordered ! i)) \<le> so_maxGap op) (i # obs)"
      "0 < so_maxDuration op \<longrightarrow> list_all (\<lambda>j. time_Sub (ev_ObservedAt (ordered ! j)) f \<le> so_maxDuration op) obs"
    using Cons.IH [OF i(6)] by blast
  have "sorted_wrt (<) (p # i # obs)" using obs(2) pi(1) by auto
  then show ?case using obs i(4,5) pi(2) by (intro exI [of _ "i # obs"]) auto
qed (simp add: passes_def)

lemma sequence_pass:
  assumes "passes (sequence_loop op ordered steps None)" "steps \<noteq> []"
  shows "\<exists>obs. list_all2 (step_done ordered) obs steps \<and> sorted_wrt (<) obs \<and>
    (0 < so_maxGap op \<longrightarrow> successively (\<lambda>i j. time_Sub (ev_ObservedAt (ordered ! j)) (ev_ObservedAt (ordered ! i)) \<le> so_maxGap op) obs) \<and>
    (0 < so_maxDuration op \<longrightarrow>
       list_all (\<lambda>j. time_Sub (ev_ObservedAt (ordered ! j)) (ev_ObservedAt (ordered ! hd obs)) \<le> so_maxDuration op) obs)"
proof -
  obtain step rest where s: "steps = step # rest" using assms(2) by (cases steps) auto
  obtain i v where i: "nextMatchingEvidence ordered (ss_Selector step) 0 = Some i"
      "valueAtSnapshot (ordered ! i) (sel_JSONPointer (ss_Selector step)) = Inr v" "Marshal v = ss_Expected step"
      "\<not> (0 < so_maxDuration op \<and> so_maxDuration op < time_Sub (ev_ObservedAt (ordered ! i)) (ev_ObservedAt (ordered ! i)))"
      "passes (sequence_loop op ordered rest (Some (i, UTC (ev_ObservedAt (ordered ! i)), UTC (ev_ObservedAt (ordered ! i)))))"
    using assms(1) unfolding s
    by (auto simp: passes_def fail_with_def inconclusive_def Let_def split: option.splits sum.splits if_splits)
  then have "step_done ordered i step" using nextMatching_Some by (fastforce simp: step_done_def)
  moreover obtain obs where "list_all2 (step_done ordered) obs rest" "sorted_wrt (<) (i # obs)"
      "0 < so_maxGap op \<longrightarrow> successively (\<lambda>i j. time_Sub (ev_ObservedAt (ordered ! j)) (ev_ObservedAt (ordered ! i)) \<le> so_maxGap op) (i # obs)"
      "0 < so_maxDuration op \<longrightarrow>
         list_all (\<lambda>j. time_Sub (ev_ObservedAt (ordered ! j)) (ev_ObservedAt (ordered ! i)) \<le> so_maxDuration op) obs"
    using sequence_loop_pass [OF i(5)] by blast
  ultimately show ?thesis using i(4) unfolding s by (intro exI [of _ "i # obs"]) auto
qed

lemma steps_done_observed:
  assumes "list_all2 (step_done ordered) obs ns"
    and "list_all2 (\<lambda>n s. ss_Selector n = normal_selector (q1_Selector s) \<and>
      (\<exists>w. Decode (q1_Expected s) = Some w \<and> ss_Expected n = Marshal w)) ns steps"
  shows "list_all2 (\<lambda>i step. i < length ordered \<and> selectorMatches (ordered ! i) (normal_selector (q1_Selector step)) \<and>
    (\<exists>v. valueAtSnapshot (ordered ! i) (TrimSpace (s1_JSONPointer (q1_Selector step))) = Inr v \<and>
       Decode (q1_Expected step) = Some v)) obs steps"
proof (rule list_all2_trans [OF _ assms])
  fix i n step
  assume n: "step_done ordered i n" and s: "ss_Selector n = normal_selector (q1_Selector step) \<and>
      (\<exists>w. Decode (q1_Expected step) = Some w \<and> ss_Expected n = Marshal w)"
  obtain v w where v: "valueAtSnapshot (ordered ! i) (sel_JSONPointer (ss_Selector n)) = Inr v" "Marshal v = Marshal w"
      "Decode (q1_Expected step) = Some w" using n s by (auto simp: step_done_def)
  then have "v = w" using Marshal_eq valueAtSnapshot_ok by blast
  then show "i < length ordered \<and> selectorMatches (ordered ! i) (normal_selector (q1_Selector step)) \<and>
    (\<exists>v. valueAtSnapshot (ordered ! i) (TrimSpace (s1_JSONPointer (q1_Selector step))) = Inr v \<and>
       Decode (q1_Expected step) = Some v)"
    using n s v by (auto simp: step_done_def normal_selector_def)
qed

lemma match_pass:
  assumes "NewMatchOperator rid (selector_of sel) raw = Inr o1" "passes (MatchOperator_Evaluate o1 input)"
  shows "\<exists>v. sole_value (ri_Evidence input) (normal_selector sel) v \<and> Decode raw = Some v"
proof -
  obtain w where w: "Decode raw = Some w" "mo_selector o1 = normal_selector sel" "mo_expected o1 = Marshal w"
    using assms(1) by (auto simp: NewMatchOperator_def dest: normalizeSelector_Ok split: sum.splits option.splits)
  obtain v where v: "selectValue (ri_Evidence input) (normal_selector sel) = Inr v" "Marshal v = Marshal w"
    using assms(2) w by (auto simp: MatchOperator_Evaluate_def passes_def inconclusive_def fail_with_def split: sum.splits if_splits)
  have s: "sole_value (ri_Evidence input) (normal_selector sel) v" using selectValue_Ok [OF v(1)] .
  then have "value_ok maxNestingDepth v" using valueAtSnapshot_ok by (auto simp: sole_value_def)
  then have "v = w" using Marshal_eq [OF _ w(1) v(2)] by simp
  then show ?thesis using s w(1) by blast
qed

lemma range_pass:
  assumes "NewRangeOperator rid (selector_of sel) lo hi = Inr o1" "passes (RangeOperator_Evaluate o1 input)"
  shows "\<exists>a b v x. ro_decimal lo = Inr a \<and> ro_decimal hi = Inr b \<and> sole_value (ri_Evidence input) (normal_selector sel) v \<and>
    numericValue v = Inr x \<and> rat_le a x \<and> rat_le x b"
  using assms
  by (fastforce simp: NewRangeOperator_def RangeOperator_Evaluate_def passes_def inconclusive_def fail_with_def
      dest: normalizeSelector_Ok selectValue_Ok split: sum.splits if_splits)

lemma tolerance_pass:
  assumes "NewToleranceOperator rid (selector_of sel) w t = Inr o1" "passes (ToleranceOperator_Evaluate o1 input)"
  shows "\<exists>a b v x. ro_decimal w = Inr a \<and> ro_decimal t = Inr b \<and> sole_value (ri_Evidence input) (normal_selector sel) v \<and>
    numericValue v = Inr x \<and> rat_le (rat_Abs (rat_Sub x a)) b"
  using assms
  by (fastforce simp: NewToleranceOperator_def ToleranceOperator_Evaluate_def passes_def inconclusive_def fail_with_def
      dest: normalizeSelector_Ok selectValue_Ok split: sum.splits if_splits)

lemma existence_pass:
  assumes "NewExistenceOperator rid t src n = Inr o1" "passes (ExistenceOperator_Evaluate o1 input)"
  shows "0 < n \<and> unat n \<le> length (filter (\<lambda>s. selectorMatches s (normal_selector
    \<lparr>s1_EvidenceType = t, s1_SourceID = src, s1_JSONPointer = []\<rparr>)) (ri_Evidence input))"
proof -
  let ?P = "\<lambda>s. selectorMatches s (normal_selector \<lparr>s1_EvidenceType = t, s1_SourceID = src, s1_JSONPointer = []\<rparr>)"
  have o1: "xo_evidenceType o1 = t" "xo_sourceID o1 = TrimSpace src" "xo_minimumCount o1 = n" "0 < n"
    using assms(1)
    by (auto simp: NewExistenceOperator_def normalizeSelector_def Let_def word_gt_0 split: sum.splits if_splits)
  have fold: "foldl (\<lambda>n s. if P s then n + 1 else n) m xs = m + of_nat (length (filter P xs))" for P and xs :: "ev_Snapshot list" and m :: u32
    by (induction xs arbitrary: m) (auto simp: ac_simps)
  have "n \<le> of_nat (length (filter ?P (ri_Evidence input)))"
    using assms(2) o1
    by (simp add: ExistenceOperator_Evaluate_def fold passes_def fail_with_def selectorMatches_def normal_selector_def
        not_less split: if_splits)
  then have "unat n \<le> unat (of_nat (length (filter ?P (ri_Evidence input))) :: u32)" by (simp only: word_le_nat_alt)
  also have "\<dots> \<le> length (filter ?P (ri_Evidence input))" by (simp add: unat_of_nat)
  finally show ?thesis using o1(4) by simp
qed

text \<open>
  C17. A rule passes only on evidence: if a compiled rule decides PASS, then the observation its selector names is the only
  one and its value at the pointer is the expected JSON value, lies in the range, or differs from the expected number by no more
  than the tolerance; or at least the minimal number of observations exists; or there are observations of all
  steps, in the order of time, with the expected values and within the windows of the sequence.
\<close>

theorem pass_is_justified:
  assumes "compilePolicyRule cd r = Inr op" "op_Evaluate op input = Inr d" "passes d"
  shows "justified cd r (ri_Evidence input)"
proof -
  consider "rule_kind r = ''MATCH''" | "rule_kind r = ''RANGE''" | "rule_kind r = ''TOLERANCE''" | "rule_kind r = ''EXISTENCE''"
    | "rule_kind r = ''SEQUENCE''" using compile_kinds [OF assms(1)] by blast
  then show ?thesis
  proof cases
    case 1
    with assms show ?thesis by (elim compile_MATCH) (use match_pass in \<open>auto simp: justified_def\<close>)
  next
    case 2
    with assms show ?thesis by (elim compile_RANGE) (auto simp: justified_def dest!: range_pass, blast)
  next
    case 3
    with assms show ?thesis by (elim compile_TOLERANCE) (auto simp: justified_def dest!: tolerance_pass, blast)
  next
    case 4
    with assms show ?thesis by (elim compile_EXISTENCE) (use existence_pass in \<open>auto simp: justified_def\<close>)
  next
    case 5
    obtain g w o1 where o1: "po_duration cd (r1_MaxGap r) = Inr g" "po_duration cd (r1_MaxDuration r) = Inr w"
        "NewSequenceOperator (TrimSpace (r1_RuleID r)) (map sequence_step (r1_Steps r)) g w = Inr o1"
        "op = \<lparr>op_RuleID = so_ruleID o1, op_Evaluate = (\<lambda>input. Ok (SequenceOperator_Evaluate o1 input))\<rparr>"
      using compile_SEQUENCE [OF assms(1) 5] .
    have n: "normalize_steps (map sequence_step (r1_Steps r)) = Inr (so_steps o1)" "so_maxGap o1 = g" "so_maxDuration o1 = w"
      "r1_Steps r \<noteq> []"
      using o1(3) by (auto simp: NewSequenceOperator_def split: sum.splits if_splits)
    note steps = normalize_steps_Ok [OF n(1)]
    then have "so_steps o1 \<noteq> []" using n(4) by auto
    moreover have "passes (sequence_loop o1 (order_observations (ri_Evidence input)) (so_steps o1) None)"
      using assms(2,3) o1(4) by (simp add: SequenceOperator_Evaluate_def)
    ultimately show ?thesis
      using sequence_pass steps_done_observed [OF _ steps] o1(1,2) n(2,3) 5 by (fastforce simp: justified_def steps_observed_def)
  qed
qed

theorem pass_is_justified_witness:
  "op_Evaluate sample_operator (sample_rule_input [sample_observation 1 ''WEIGHT'', sample_observation 2 ''SEAL'']) = Inr pass \<and>
   (\<exists>v. sole_value [sample_observation 1 ''WEIGHT'', sample_observation 2 ''SEAL'']
      \<lparr>sel_EvidenceType = ''WEIGHT'', sel_SourceID = ''scale'', sel_JSONPointer = []\<rparr> v \<and> Decode ''7'' = Some v)"
proof -
  let ?input = "sample_rule_input [sample_observation 1 ''WEIGHT'', sample_observation 2 ''SEAL'']"
  have e: "op_Evaluate sample_operator ?input = Inr pass" using sample_decides by (simp add: sample_operator_def)
  have s: "normal_selector \<lparr>s1_EvidenceType = ''WEIGHT'', s1_SourceID = ''scale'', s1_JSONPointer = []\<rparr> =
      \<lparr>sel_EvidenceType = ''WEIGHT'', sel_SourceID = ''scale'', sel_JSONPointer = []\<rparr>" by (simp add: normal_selector_def graphic_def)
  have "passes pass" by (simp add: passes_def pass_def)
  from pass_is_justified [OF sample_rule_compiled e this] show ?thesis
    unfolding justified_def sample_rule_kind using e s by (simp add: sample_rule_def sample_rule_input_def)
qed

section \<open>From admission to execution\<close>

text \<open>The compiler as the validator of admission and as the compiler of the rule resolver; the registry as its reader.\<close>

definition document_validator :: "document_codec \<Rightarrow> validator" where
  "document_validator cd v = (case ValidatePolicyDocument cd (Some v) of None \<Rightarrow> None | Some _ \<Rightarrow> Some (ErrDocument []))"

definition document_rules :: "document_codec \<Rightarrow> rule_compiler" where
  "document_rules cd v rid = (case CompileRule cd (Some v) rid of Inl err \<Rightarrow> Err (RuleFailure err) | Inr op \<Rightarrow> Ok (Some op))"

definition registry_reader :: "Registry \<Rightarrow> version_reader" where
  "registry_reader r p w h = (case registry_FindVersion p w h r of Inl err \<Rightarrow> Err err | Inr v \<Rightarrow> Ok (Some v))"

lemma first_error_None: "first_error es = None \<longleftrightarrow> (\<forall>e\<in>set es. e = None)"
  by (induction es) (auto split: option.split)

lemma select_rule_id:
  "select_rule rs rid seen sel = Inr (Some r) \<Longrightarrow> sel = None \<or> TrimSpace (r1_RuleID (the sel)) = rid \<Longrightarrow>
   TrimSpace (r1_RuleID r) = rid"
  by (induction rs rid seen sel rule: select_rule.induct) (auto simp: Let_def split: if_splits)

lemma CompileRule_Ok:
  assumes "CompileRule cd pv rid = Inr op"
  shows "op_RuleID op = TrimSpace rid \<and> (\<exists>d. op_Evaluate op input = Inr d)"
proof -
  obtain rs r where "select_rule rs (TrimSpace rid) [] None = Inr (Some r)" "compilePolicyRule cd r = Inr op"
    using assms by (auto simp: CompileRule_def Let_def split: sum.splits option.splits if_splits)
  then show ?thesis using select_rule_id [of rs "TrimSpace rid" "[]" None r] compiled_ruleID compiled_total by simp
qed

lemma validated_compiles:
  assumes "document_validator cd v = None" "rid \<in> set (po_RequiredRuleIDs v)"
  obtains op where "CompileRule cd (Some v) rid = Inr op"
proof -
  have "ValidatePolicyDocument cd (Some v) = None" using assms(1) by (simp add: document_validator_def split: option.splits)
  then obtain q doc where "\<forall>i\<in>set (po_RequiredRuleIDs v). validate_rule cd v doc q i = None"
    by (auto simp: ValidatePolicyDocument_def first_error_None split: sum.splits)
  then have "validate_rule cd v doc q rid = None" using assms(2) by blast
  then show ?thesis using that by (auto simp: validate_rule_def split: sum.splits)
qed

lemma document_resolver_Ok:
  assumes v: "wf_policy v" "document_validator cd v = None" "rid \<in> set (po_RequiredRuleIDs v)"
    and r: "registry_FindVersion (po_PolicyID v) (po_Version v) (po_Hash v) r = Inr v"
  obtains op where "document_resolver (Some (registry_reader r)) (Some (document_rules cd)) \<lparr>rr_PolicyID = po_PolicyID v,
      rr_PolicyVersion = po_Version v, rr_PolicyHash = po_Hash v, rr_RuleID = rid\<rparr> = Inr (Some op)"
    "TrimSpace (op_RuleID op) = rid" "\<And>input. \<exists>d. op_Evaluate op input = Inr d"
proof -
  obtain op where op: "CompileRule cd (Some v) rid = Inr op" using validated_compiles [OF v(2,3)] .
  have rid: "TrimSpace rid = rid" "rid \<noteq> []" using v(1,3) by (auto simp: wf_policy_def normal_policy_def list_all_iff)
  have h: "TrimSpace (po_Hash v) = po_Hash v" "po_Hash v \<noteq> []"
    using v(1) TrimSpace_hash [of v] by (auto simp: wf_policy_def calculateHash_def Let_def)
  have i: "op_RuleID op = rid" using CompileRule_Ok [OF op] rid by simp
  have "document_resolver (Some (registry_reader r)) (Some (document_rules cd)) \<lparr>rr_PolicyID = po_PolicyID v,
      rr_PolicyVersion = po_Version v, rr_PolicyHash = po_Hash v, rr_RuleID = rid\<rparr> = Inr (Some op)"
    using v(1) rid h r op i
    by (simp add: document_resolver_def registry_reader_def document_rules_def wf_policy_def normal_policy_def Let_def)
  then show ?thesis using that i rid CompileRule_Ok [OF op] by simp
qed

lemma resolve_all:
  assumes "\<And>rid. rid \<in> set rids \<Longrightarrow> \<exists>op. resolve \<lparr>rr_PolicyID = pb_PolicyID b, rr_PolicyVersion = pb_Version b,
      rr_PolicyHash = pb_Hash b, rr_RuleID = rid\<rparr> = Inr (Some op) \<and> TrimSpace (op_RuleID op) = rid \<and>
      (\<forall>input. \<exists>d. op_Evaluate op input = Inr d)"
  shows "\<exists>ops. resolve_operators resolve b rids = Inr ops \<and> map fst ops = rids \<and>
    (\<forall>op\<in>snd ` set ops. \<forall>input. \<exists>d. op_Evaluate op input = Inr d)"
  using assms
proof (induction rids)
  case (Cons rid rids)
  obtain ops where "resolve_operators resolve b rids = Inr ops \<and> map fst ops = rids \<and>
      (\<forall>op\<in>snd ` set ops. \<forall>input. \<exists>d. op_Evaluate op input = Inr d)"
    using Cons.IH Cons.prems by auto
  moreover obtain op where "resolve \<lparr>rr_PolicyID = pb_PolicyID b, rr_PolicyVersion = pb_Version b,
      rr_PolicyHash = pb_Hash b, rr_RuleID = rid\<rparr> = Inr (Some op)" "TrimSpace (op_RuleID op) = rid"
      "\<forall>input. \<exists>d. op_Evaluate op input = Inr d"
    using Cons.prems [of rid] by auto
  ultimately show ?case by simp
qed simp

lemma evaluate_all:
  assumes "rehydrate_all js (ri_Evidence input) = Inr copies" "\<forall>op\<in>snd ` set ops. \<forall>input. \<exists>d. op_Evaluate op input = Inr d"
  shows "\<exists>outcomes. evaluate_operators js input at ops = Inr outcomes \<and> map RuleID outcomes = map fst ops"
  using assms(2)
proof (induction ops)
  case (Cons x ops)
  obtain rid op where x: "x = (rid, op)" by (cases x)
  have "\<forall>input. \<exists>d. op_Evaluate op input = Inr d" using Cons.prems x by simp
  then obtain d where "op_Evaluate op (input\<lparr>ri_Evidence := copies\<rparr>) = Inr d" by blast
  then show ?case using Cons assms(1) x by auto
qed simp

text \<open>
  C11. The rules of an admitted policy can be executed: when the compiler's validation was the validator of an admission that
  accepted a new version, then after any further changes of the registry the operators of all required rules are resolved
  for an evaluation bound to that version, each is the operator of its rule, and on evidence that rehydrates they decide
  every required rule, in the order of the policy.
\<close>

theorem admitted_policy_executes:
  assumes "NewVersion inp = Inr v" "registry_version r (po_PolicyID v, po_Version v) = None"
    and "Admit ed25519 (Some resolve) (Some (document_validator cd)) (Some registry_Add) (Some v) signature approval
      verifiedAt activatedAt r = (r', Inr a)"
    and "rehydrate_all js (ri_Evidence input) = Inr copies"
  shows "\<exists>ops outcomes.
    resolve_operators (document_resolver (Some (registry_reader (run registry_exec cs r'))) (Some (document_rules cd)))
      (policy_binding v boundAt) (po_RequiredRuleIDs v) = Inr ops \<and>
    evaluate_operators js input evaluatedAt ops = Inr outcomes \<and>
    map fst ops = po_RequiredRuleIDs v \<and> map RuleID outcomes = po_RequiredRuleIDs v"
proof -
  have wf: "wf_policy v" using assms(1) by (rule NewVersion_wf)
  obtain adm: "admissible ed25519 resolve (document_validator cd) v signature approval verifiedAt activatedAt"
    and a: "vv_version (av_verified a) = v" "registry_Add (Some a) r = (r', None)"
    using Admit_Ok [OF assms(3)] by metis
  have "registry_version r' (po_PolicyID v, po_Version v) = Some v"
    using registry_Add_stored [OF a(2) a(1) [symmetric]] wf assms(2) by (simp add: wf_policy_def)
  then have "registry_version (run registry_exec cs r') (po_PolicyID v, po_Version v) = Some v"
    by (rule memory_registry.run_version)
  then have found: "registry_FindVersion (po_PolicyID v) (po_Version v) (po_Hash v) (run registry_exec cs r') = Inr v"
    using Rehydrate_fixed [OF wf] by (simp add: FindVersion_registry)
  have valid: "document_validator cd v = None" using adm by (simp add: admissible_def Let_def)
  let ?res = "document_resolver (Some (registry_reader (run registry_exec cs r'))) (Some (document_rules cd))"
  have "\<exists>ops. resolve_operators ?res (policy_binding v boundAt) (po_RequiredRuleIDs v) = Inr ops \<and>
      map fst ops = po_RequiredRuleIDs v \<and> (\<forall>op\<in>snd ` set ops. \<forall>input. \<exists>d. op_Evaluate op input = Inr d)"
    by (rule resolve_all) (use document_resolver_Ok [OF wf valid _ found] in \<open>simp add: policy_binding_def, metis\<close>)
  then show ?thesis using evaluate_all [OF assms(4)] by metis
qed

definition sample_documents :: document_codec where
  "sample_documents = \<lparr>decodeStrict = (\<lambda>_. Some \<lparr>d1_EvidenceQualification = Some \<lparr>e1_Version = ''1'', e1_TrustedSources = [''scale''],
       e1_AllowedTypes = [''WEIGHT''], e1_AllowedAcquisitionMethods = [], e1_MaxAge = None, e1_FutureTolerance = None,
       e1_RequireConfidence = False, e1_MinimumConfidence = None, e1_RequiredProvenance = [], e1_RequiredPayloadFields = []\<rparr>,
       d1_Rules = [sample_rule]\<rparr>), ParseDuration = (\<lambda>_. None)\<rparr>"

definition sample_rules :: po_Snapshot where
  "sample_rules =
     (let s = (sample_version ''7'' None)\<lparr>po_SchemaVersion := PolicyDocumentSchemaV1, po_Hash := []\<rparr>
      in s\<lparr>po_Hash := calculateHash s\<rparr>)"

lemma sample_rules_fields:
  "po_PolicyID sample_rules = ''weight''" "po_Version sample_rules = ''1''" "po_RequiredRuleIDs sample_rules = [''R'']"
  "po_SchemaVersion sample_rules = PolicyDocumentSchemaV1" "TrimSpace (po_Hash sample_rules) = po_Hash sample_rules"
  by (simp_all add: sample_rules_def sample_version_def Let_def TrimSpace_hash)

lemma sample_rules_valid: "document_validator sample_documents sample_rules = None"
proof -
  have rid: "TrimSpace ''R'' = ''R''" "TrimSpace (r1_RuleID sample_rule) = ''R''" by (simp_all add: sample_rule_def graphic_def)
  obtain doc where doc: "decodePolicyDocument sample_documents (Some sample_rules) = Inr doc" "d1_Rules doc = [sample_rule]"
    by (simp add: decodePolicyDocument_def sample_rules_fields sample_documents_def)
  have q: "CompileQualificationPolicy sample_documents (Some sample_rules) = Inr
      \<lparr>qp_Version = ''1'', TrustedSources = [(''scale'', True)], AllowedTypes = [(''WEIGHT'', True)], AllowedAcquisitionMethods = [],
       MaxAge = 0, FutureTolerance = 0, RequireConfidence = False, MinimumConfidence = None, RequiredProvenance = [],
       RequiredPayloadFields = []\<rparr>"
    by (simp add: CompileQualificationPolicy_def decodePolicyDocument_def sample_rules_fields sample_documents_def po_duration_def
        stringSet_def stringList_def in_set_map_def NewQualifier_def graphic_def)
  have c: "CompileRule sample_documents (Some sample_rules) ''R'' = Inr sample_operator"
    by (simp add: CompileRule_def doc rid sample_rule_compiled)
  have "validateRuleQualificationScope [sample_rule] ''R'' \<lparr>qp_Version = ''1'', TrustedSources = [(''scale'', True)],
      AllowedTypes = [(''WEIGHT'', True)], AllowedAcquisitionMethods = [], MaxAge = 0, FutureTolerance = 0, RequireConfidence = False,
      MinimumConfidence = None, RequiredProvenance = [], RequiredPayloadFields = []\<rparr> = None"
    unfolding validateRuleQualificationScope.simps sample_rule_kind rid
    by (simp add: sample_rule_def validateSelectorQualificationScope_def validateEvidenceQualificationScope_def graphic_def
        in_set_map_def)
  then show ?thesis
    by (simp add: document_validator_def ValidatePolicyDocument_def validate_rule_def doc q c sample_rules_fields)
qed

theorem admitted_policy_executes_witness:
  "\<exists>r' a ops outcomes. Admit (\<lambda>_ _ _. True) (Some (\<lambda>_ _. Ok sample_key)) (Some (document_validator sample_documents))
       (Some registry_Add) (Some sample_rules) sample_signature (sample_approval sample_rules) (Time 15 0) (Time 30 0) [] = (r', Inr a) \<and>
     resolve_operators (document_resolver (Some (registry_reader (run registry_exec [PSuspend ''weight'' ''1'' (Time 40 0)] r')))
       (Some (document_rules sample_documents))) (policy_binding sample_rules (Time 50 0)) [''R''] = Inr ops \<and>
     evaluate_operators \<lparr>json_Marshal = (\<lambda>_. None)\<rparr> (sample_rule_input []) (Time 60 0) ops = Inr outcomes \<and> map RuleID outcomes = [''R'']"
proof -
  have c: "canonicalJSON ''7'' = Some ''7''" by code_simp
  have "normalizeAndValidate ((sample_version ''7'' None)\<lparr>po_SchemaVersion := PolicyDocumentSchemaV1, po_Hash := []\<rparr>) =
      Inr ((sample_version ''7'' None)\<lparr>po_SchemaVersion := PolicyDocumentSchemaV1, po_Hash := []\<rparr>)"
    by (simp add: normalizeAndValidate_def sample_version_def PolicyDocumentSchemaV1_def graphic_def UTC_def go_time Let_def)
  then have new: "NewVersion \<lparr>pi_PolicyID = ''weight'', pi_Version = ''1'', pi_SchemaVersion = PolicyDocumentSchemaV1,
      pi_EffectiveFrom = Time 5 0, pi_EffectiveUntil = None, pi_RequiredRuleIDs = [''R''], pi_Document = ''7''\<rparr> = Inr sample_rules"
    by (simp add: NewVersion_def c sample_rules_def sample_version_def PolicyDocumentSchemaV1_def graphic_def UTC_def Let_def)
  have "Activate (Some \<lparr>vv_version = sample_rules, vv_signature = sample_signature\<rparr>) (sample_approval sample_rules) (Time 30 0) =
      Ok \<lparr>av_verified = \<lparr>vv_version = sample_rules, vv_signature = sample_signature\<rparr>,
           av_approval = normalizeApproval (sample_approval sample_rules), av_activated = Time 30 0\<rparr>"
    by (simp add: Activate_Ok Let_def sample_rules_fields)
      (simp add: normalizeApproval_def sample_approval_def graphic_def go_time sample_rules_fields UTC_def)
  then obtain r' a where admit: "Admit (\<lambda>_ _ _. True) (Some (\<lambda>_ _. Ok sample_key)) (Some (document_validator sample_documents))
       (Some registry_Add) (Some sample_rules) sample_signature (sample_approval sample_rules) (Time 15 0) (Time 30 0) [] = (r', Ok a)"
    by (simp add: Admit_def sample_signature_verified sample_rules_valid UTC_def go_time registry_Add_def by_policy_def Let_def)
  have "rehydrate_all \<lparr>json_Marshal = (\<lambda>_. None)\<rparr> (ri_Evidence (sample_rule_input [])) = Inr []" by (simp add: sample_rule_input_def)
  from admitted_policy_executes [OF new _ admit this, of "[PSuspend ''weight'' ''1'' (Time 40 0)]" "Time 50 0" "Time 60 0"]
  show ?thesis using admit unfolding sample_rules_fields by (simp add: registry_version_def) metis
qed

end
