(* ===== verification/Pds_History.thy ===== *)
theory Pds_History
  imports Pds_Service
begin

text \<open>
  The application service under concurrent calls. Every method ends in at most one write, made under the version it
  read; the locale \<open>aggregate_repository\<close> is what a store must promise for that to be enough, and its theorem
  \<open>history_sound\<close> says that then no update is lost and the outbox is complete in every history of the store. The
  in-memory store is an interpretation.
\<close>

section \<open>What the methods do to an aggregate\<close>

text \<open>A mutation that keeps the invariant, records no history entry, and changes nothing without an event.\<close>

definition one_event :: "EvaluationAggregate \<Rightarrow> EvaluationAggregate \<Rightarrow> bool" where
  "one_event e e' \<longleftrightarrow> e' = e \<or> (\<exists>ev. domainEvents e' = domainEvents e @ [ev] \<and> \<not> is_history ev)"

definition quiet :: "EvaluationAggregate \<Rightarrow> EvaluationAggregate \<Rightarrow> bool" where
  "quiet e e' \<longleftrightarrow> keeps e e' \<and> filter is_history (domainEvents e') = filter is_history (domainEvents e) \<and>
     (domainEvents e' = domainEvents e \<longrightarrow> e' = e)"

definition orderly :: "mutation \<Rightarrow> bool" where
  "orderly f \<longleftrightarrow> (\<forall>e. wf_evaluation e \<longrightarrow> quiet e (fst (f e)))"

lemma quiet_one_event: "keeps e e' \<Longrightarrow> one_event e e' \<Longrightarrow> quiet e e'"
  by (auto simp: one_event_def quiet_def)

lemma quiet_trans:
  assumes "quiet e e'" "quiet e' e''"
  shows "quiet e e''"
proof -
  obtain x y where "domainEvents e' = domainEvents e @ x" "domainEvents e'' = domainEvents e' @ y"
    using assms extends_log unfolding quiet_def keeps_def by metis
  then show ?thesis using assms keeps_trans unfolding quiet_def by auto
qed

lemma one_event_commands:
  "one_event e (fst (Start at e))"
  "one_event e (fst (CompleteAt r reasons at e))"
  "one_event e (fst (Expire at e))"
  "one_event e (fst (RegisterRequiredRuleAt rid at e))"
  "one_event e (fst (RecordRuleOutcome o1 e))"
  "one_event e (fst (RecordRuleOutcomeBatch os at e))"
  "one_event e (fst (BindEvidenceSet b e))"
  "one_event e (fst (BindVerificationPolicy pb e))"
proof -
  note defs = one_event_def addDomainEvent_def is_history_def Let_def
  show "one_event e (fst (Start at e))" "one_event e (fst (Expire at e))"
    by (auto simp: defs Start_def Expire_def)
  show "one_event e (fst (CompleteAt r reasons at e))"
    using completion_event_simps(4) by (auto simp: one_event_def addDomainEvent_def CompleteAt_def Let_def split: sum.splits)
  show "one_event e (fst (RegisterRequiredRuleAt rid at e))" by (auto simp: defs RegisterRequiredRuleAt_def)
  show "one_event e (fst (RecordRuleOutcome o1 e))"
    by (auto simp: defs RecordRuleOutcome_def append_outcome_def recorded_event_def split: sum.splits option.splits)
  show "one_event e (fst (RecordRuleOutcomeBatch os at e))"
    by (auto simp: defs RecordRuleOutcomeBatch_def split: sum.splits)
  show "one_event e (fst (BindEvidenceSet b e))" by (auto simp: defs BindEvidenceSet_def split: sum.splits option.splits)
  show "one_event e (fst (BindVerificationPolicy pb e))"
    by (auto simp: defs BindVerificationPolicy_def split: sum.splits option.splits)
qed

lemma quiet_commands:
  assumes "wf_evaluation e"
  shows "quiet e (fst (Start at e))" "quiet e (fst (CompleteAt r reasons at e))" "quiet e (fst (Expire at e))"
    "quiet e (fst (RegisterRequiredRuleAt rid at e))" "quiet e (fst (RecordRuleOutcome o1 e))"
    "quiet e (fst (RecordRuleOutcomeBatch os at e))" "quiet e (fst (BindEvidenceSet b e))"
    "quiet e (fst (BindVerificationPolicy pb e))"
  using assms one_event_commands by (simp_all add: quiet_one_event command_keeps)

lemma quiet_refl: "wf_evaluation e \<Longrightarrow> quiet e e"
  by (simp add: quiet_def keeps_refl)

lemma quiet_wf: "quiet e e' \<Longrightarrow> wf_evaluation e'"
  by (simp add: quiet_def keeps_def)

lemma register_rules_quiet: "wf_evaluation e \<Longrightarrow> quiet e (fst (register_rules rids at e))"
proof (induction rids arbitrary: e)
  case (Cons rid rids)
  obtain e' err where r: "RegisterRequiredRuleAt rid at e = (e', err)" by force
  then have q: "quiet e e'" using quiet_commands(4) [OF Cons.prems, of rid at] by simp
  then show ?case using r quiet_trans Cons.IH [OF quiet_wf [OF q]] by (cases err) auto
qed (simp add: quiet_refl)

lemma orderly_commands:
  "orderly (Start at)" "orderly (Expire at)" "orderly (RecordRuleOutcome o1)" "orderly (RecordRuleOutcomeBatch os at)"
  "orderly (BindEvidenceSet b)" "orderly (BindVerificationPolicy pb)" "orderly (register_rules rids at)"
  by (simp_all add: orderly_def quiet_commands register_rules_quiet)

lemma orderly_complete: "orderly (derive_and_complete at)"
  by (auto simp: orderly_def derive_and_complete_def quiet_commands quiet_refl split: prod.split option.split)

lemma orderly_register_and_bind: "orderly (register_and_bind p at)"
  unfolding orderly_def
proof (intro allI impI)
  fix e assume wf: "wf_evaluation e"
  obtain e' err where r: "register_rules (po_RequiredRuleIDs p) at e = (e', err)" by force
  then have q: "quiet e e'" using register_rules_quiet [OF wf, of "po_RequiredRuleIDs p" at] by simp
  then show "quiet e (fst (register_and_bind p at e))"
    using r quiet_trans quiet_commands(8) [OF quiet_wf [OF q]] by (cases err) (auto simp: register_and_bind_def)
qed

section \<open>The events of a write\<close>

definition event_key :: "OutboxRecord \<Rightarrow> uuid \<times> u64" where
  "event_key r = (AggregateID r, AggregateVersion r)"

definition key_of :: "DomainEvent \<Rightarrow> uuid \<times> u64" where
  "key_of ev = (md_EvaluationID (Metadata ev), md_Version (Metadata ev))"

lemma NewOutboxRecord_key:
  "NewOutboxRecord m r (Some ev) at = Ok x \<Longrightarrow> event_key x = key_of ev \<and> md_Version (Metadata ev) \<noteq> 0"
  by (auto simp: NewOutboxRecord_def event_key_def key_of_def normalizeOutboxRecord_def Let_def split: if_splits sum.splits)

lemma build_loop_keys:
  "BuildOutboxRecords_loop m r at evs k = Ok rs \<Longrightarrow>
   map event_key rs = map key_of evs \<and> list_all (\<lambda>ev. md_Version (Metadata ev) \<noteq> 0) evs"
  by (induction evs arbitrary: k rs) (auto split: sum.splits dest: NewOutboxRecord_key)

lemma event_log_keys:
  "event_log i s v evs v' \<Longrightarrow> filter is_history evs = [] \<Longrightarrow>
   map key_of evs = map (\<lambda>j. (i, v + of_nat (Suc j))) [0..<length evs] \<and> v' = v + of_nat (length evs)"
proof (induction evs arbitrary: v)
  case (Cons ev evs)
  then have ev: "key_of ev = (i, v + 1)" "event_log i s (v + 1) evs v'" "filter is_history evs = []"
    by (auto simp: key_of_def split: if_splits)
  have "map (\<lambda>j. (i, v + of_nat (Suc j))) [0..<Suc (length evs)] =
      (i, v + 1) # map (\<lambda>j. (i, v + 1 + of_nat (Suc j))) [0..<length evs]"
    unfolding map_upt_Suc by (simp add: add.assoc)
  then show ?case using Cons.IH [OF ev(2,3)] ev(1) by (simp del: upt_Suc of_nat_Suc) (simp add: add.assoc)
qed simp

text \<open>An aggregate on its way to the store: its pending events lead from the version that was read to its own.\<close>

definition staged :: "u64 \<Rightarrow> EvaluationAggregate \<Rightarrow> bool" where
  "staged v e \<longleftrightarrow> wf_evaluation e \<and> filter is_history (domainEvents e) = [] \<and>
     event_log (agg_id e) (agg_sessionID e) v (domainEvents e) (version e)"

lemma staged_new: "NewEvaluation i s at = Ok e \<Longrightarrow> staged 0 e \<and> agg_id e = i"
  using NewEvaluation_wf [of i s at e]
  by (auto simp: staged_def NewEvaluation_def Let_def addDomainEvent_def is_history_def split: if_splits)

lemma staged_quiet:
  assumes "staged v e" "quiet e e'"
  shows "staged v e' \<and> agg_id e' = agg_id e"
proof -
  have x: "extends e e'" using assms(2) by (simp add: quiet_def keeps_def)
  obtain evs where evs: "domainEvents e' = domainEvents e @ evs"
      "event_log (agg_id e) (agg_sessionID e) (version e) evs (version e')"
    using extends_log [OF x] by blast
  then have "event_log (agg_id e') (agg_sessionID e') v (domainEvents e') (version e')"
    using assms(1) event_log_append extends_same(1) [OF x] by (auto simp: staged_def)
  then show ?thesis using assms extends_same(1) [OF x] quiet_wf [OF assms(2)] by (auto simp: staged_def quiet_def)
qed

lemma staged_records:
  assumes "staged (of_nat k) e" "k < 2 ^ 64" "BuildOutboxRecords m r at e = Ok rs"
  obtains n where "version e = of_nat n" "k \<le> n" "n < 2 ^ 64"
    "map event_key rs = map (\<lambda>j. (agg_id e, of_nat j)) [Suc k..<Suc n]" "n = k + length (domainEvents e)"
proof -
  let ?evs = "domainEvents e" and ?n = "k + length (domainEvents e)"
  have keys: "map event_key rs = map key_of ?evs" "list_all (\<lambda>ev. md_Version (Metadata ev) \<noteq> 0) ?evs"
    using build_loop_keys assms(3) unfolding BuildOutboxRecords_def by blast+
  have log: "map key_of ?evs = map (\<lambda>j. (agg_id e, of_nat k + of_nat (Suc j))) [0..<length ?evs]"
    "version e = of_nat k + of_nat (length ?evs)"
    using event_log_keys assms(1) unfolding staged_def by blast+
  have shift: "map (\<lambda>j. (agg_id e, of_nat j :: u64)) [Suc k..<Suc ?n] =
      map (\<lambda>j. (agg_id e, of_nat k + of_nat (Suc j))) [0..<length ?evs]"
    by (rule nth_equalityI) (simp_all del: upt_Suc add: ac_simps)
  have "?n < 2 ^ 64"
  proof (rule ccontr)
    assume "\<not> ?thesis"
    then have "2 ^ 64 \<in> set [Suc k..<Suc ?n]" using assms(2) by (simp del: upt_Suc)
    then have "(agg_id e, of_nat (2 ^ 64)) \<in> set (map (\<lambda>j. (agg_id e, of_nat j :: u64)) [Suc k..<Suc ?n])"
      unfolding set_map by (rule imageI)
    moreover have "of_nat (2 ^ 64) = (0 :: u64)" by simp
    ultimately have "(agg_id e, 0) \<in> set (map key_of ?evs)" unfolding shift log(1) by metis
    then show False using keys(2) by (auto simp: key_of_def list_all_iff)
  qed
  then show ?thesis using that [of ?n] keys(1) log shift by simp
qed

section \<open>What a call may do to a store\<close>

text \<open>
  A call leaves the state it is to write as it is, or ends in a write of an orderly mutation: of a new evaluation, or of
  one it found in the state it read, under the version it found.
\<close>

definition writes ::
  "'s aggregate_store \<Rightarrow> environment \<Rightarrow> 's \<Rightarrow> 's \<Rightarrow> 's \<Rightarrow> bool" where
  "writes st env s0 s1 s' \<longleftrightarrow> s' = s1 \<or> (\<exists>f e v. orderly f \<and> s' = fst (svc_write st env f e v s1) \<and>
     (v = 0 \<and> (\<exists>i x at. NewEvaluation i x at = Ok e) \<or> v = version e \<and> (\<exists>i. st_FindEvaluation st i s0 = Ok e)))"

lemma writes_same: "writes st env s0 s1 s1"
  by (simp add: writes_def)

lemma writes_found:
  "orderly f \<Longrightarrow> st_FindEvaluation st i s0 = Inr e \<Longrightarrow> writes st env s0 s1 (fst (svc_write st env f e (version e) s1))"
  unfolding writes_def by blast

lemma writes_new:
  "orderly f \<Longrightarrow> NewEvaluation i x at = Inr e \<Longrightarrow> writes st env s0 s1 (fst (svc_write st env f e 0 s1))"
  unfolding writes_def by blast

lemma fst_case_result:
  "fst (case r of (s', Inl err) \<Rightarrow> (s', g err) | (s', Inr e') \<Rightarrow> (s', h e')) = fst r"
  by (simp split: prod.split sum.split)

lemma fst_results: "fst (result_snapshot r) = fst r" "fst (on_conflict d l r) = fst r"
  by (auto simp: result_snapshot_def on_conflict_def split: prod.splits sum.splits)

lemmas writes_rules = writes_same writes_found writes_new orderly_commands orderly_complete orderly_register_and_bind

lemma method_writes:
  "writes st env s0 s1 (fst (svc_Create st env sid rules s1))"
  "writes st env s0 s1 (fst (svc_Start st env i s0 s1 s2))"
  "writes st env s0 s1 (fst (svc_RecordOutcome st env i out s0 s1))"
  "writes st env s0 s1 (fst (svc_BindEvidenceQualification st env i q s0 s1))"
  "writes st env s0 s1 (fst (svc_BindVerificationPolicy st env i b s0 s1))"
  "writes st env s0 s1 (fst (svc_Complete st env i s0 s1 s2))"
  "writes st env s0 s1 (fst (svc_ExpireTimedOut st env i tp s0 s1 s2))"
  "writes st env s0 s1 (fst (svc_CreateForPolicy st env sid pid resolver s1))"
  "writes st env s0 s1 (fst (svc_ResolveAndBindPolicy st env i pid resolver s0 s1))"
  "writes st env s0 s1 (fst (svc_Execute js st env fe resolve i s0 s1))"
  by (auto simp: svc_Create_def svc_Start_def svc_RecordOutcome_def svc_BindEvidenceQualification_def
      svc_BindVerificationPolicy_def svc_Complete_def svc_ExpireTimedOut_def svc_CreateForPolicy_def
      svc_ResolveAndBindPolicy_def svc_Execute_def Let_def fst_results fst_case_result intro!: writes_rules
      split: sum.split option.split)

lemma QualifyAndBind_writes:
  "writes st env s0 s1 (fst (svc_QualifyAndBind js rank st env reader compiler objects i s s0 s1 s2))"
  using method_writes(4) [of st env s0 s1 i]
  by (auto simp: svc_QualifyAndBind_def Let_def fst_case_result writes_same split: sum.split option.split)

section \<open>Histories of a store\<close>

text \<open>The calls that write. \<open>s0\<close> is the state the call reads and \<open>s1\<close> the state it writes.\<close>

datatype pds_call =
    CallCreate uuid "string list"
  | CallStart uuid
  | CallRecordOutcome uuid RuleOutcome
  | CallBindEvidence uuid SessionQualificationResult
  | CallBindPolicy uuid PolicyBinding
  | CallComplete uuid
  | CallExpire uuid TimeoutPolicy
  | CallCreateForPolicy uuid string "policy_resolver option"
  | CallResolveAndBind uuid string "policy_resolver option"
  | CallExecute json "uuid \<Rightarrow> pds_error + ev_Snapshot" operator_resolver uuid
  | CallQualifyAndBind json "observation_key \<Rightarrow> nat" "version_reader option" "qualification_compiler option"
      evidence_objects uuid

fun call_write :: "'s aggregate_store \<Rightarrow> environment \<Rightarrow> pds_call \<Rightarrow> 's \<Rightarrow> 's \<Rightarrow> 's" where
  "call_write st env (CallCreate sid rules) s0 s1 = fst (svc_Create st env sid rules s1)"
| "call_write st env (CallStart i) s0 s1 = fst (svc_Start st env i s0 s1 s1)"
| "call_write st env (CallRecordOutcome i out) s0 s1 = fst (svc_RecordOutcome st env i out s0 s1)"
| "call_write st env (CallBindEvidence i q) s0 s1 = fst (svc_BindEvidenceQualification st env i q s0 s1)"
| "call_write st env (CallBindPolicy i b) s0 s1 = fst (svc_BindVerificationPolicy st env i b s0 s1)"
| "call_write st env (CallComplete i) s0 s1 = fst (svc_Complete st env i s0 s1 s1)"
| "call_write st env (CallExpire i tp) s0 s1 = fst (svc_ExpireTimedOut st env i tp s0 s1 s1)"
| "call_write st env (CallCreateForPolicy sid pid res) s0 s1 = fst (svc_CreateForPolicy st env sid pid res s1)"
| "call_write st env (CallResolveAndBind i pid res) s0 s1 = fst (svc_ResolveAndBindPolicy st env i pid res s0 s1)"
| "call_write st env (CallExecute js fe res i) s0 s1 = fst (svc_Execute js st env fe res i s0 s1)"
| "call_write st env (CallQualifyAndBind js rank reader compiler objects i) s0 s1 =
     fst (svc_QualifyAndBind js rank st env reader compiler objects i s0 s0 s1 s1)"

lemma call_writes: "writes st env s0 s1 (call_write st env c s0 s1)"
  by (cases c) (simp_all add: method_writes QualifyAndBind_writes)

text \<open>
  The states a store has had, the newest first. A call writes the newest state; what it read, it may have read in any state
  before, so every interleaving of calls is a history.
\<close>

inductive pds_history :: "'s aggregate_store \<Rightarrow> 's \<Rightarrow> 's list \<Rightarrow> bool" for st init where
  initial: "pds_history st init [init]"
| call: "pds_history st init (s # h) \<Longrightarrow> s0 \<in> set (s # h) \<Longrightarrow> pds_history st init (call_write st env c s0 s # s # h)"

text \<open>What a stored evaluation may become.\<close>

definition follows :: "EvaluationSnapshot \<Rightarrow> EvaluationSnapshot \<Rightarrow> bool" where
  "follows n m \<longleftrightarrow> sn_EvaluationID m = sn_EvaluationID n \<and> sn_SessionID m = sn_SessionID n \<and>
     sn_CreatedAt m = sn_CreatedAt n \<and> unat (sn_Version n) \<le> unat (sn_Version m) \<and>
     (sn_Version m = sn_Version n \<longrightarrow> m = n) \<and> (state_IsTerminal (sn_State n) \<longrightarrow> m = n) \<and>
     (sn_StartedAt n \<noteq> None \<longrightarrow> sn_StartedAt m = sn_StartedAt n) \<and>
     (sn_EvidenceBinding n \<noteq> None \<longrightarrow> sn_EvidenceBinding m = sn_EvidenceBinding n) \<and>
     (sn_PolicyBinding n \<noteq> None \<longrightarrow> sn_PolicyBinding m = sn_PolicyBinding n)"

definition all_follow :: "(uuid \<rightharpoonup> EvaluationSnapshot) \<Rightarrow> (uuid \<rightharpoonup> EvaluationSnapshot) \<Rightarrow> bool" where
  "all_follow p q \<longleftrightarrow> (\<forall>i n. p i = Some n \<longrightarrow> (\<exists>m. q i = Some m \<and> follows n m))"

text \<open>A stored evaluation with its events: one of every version, in order.\<close>

definition complete_log :: "uuid \<Rightarrow> EvaluationSnapshot \<Rightarrow> (uuid \<times> u64) list \<Rightarrow> bool" where
  "complete_log i n keys \<longleftrightarrow> (\<exists>e k. n = Snapshot e \<and> wf_evaluation e \<and> agg_id e = i \<and> version e = of_nat k \<and> 0 < k \<and> k < 2 ^ 64 \<and>
     filter (\<lambda>x. fst x = i) keys = map (\<lambda>j. (i, of_nat j)) [1..<Suc k])"

definition all_complete :: "(uuid \<rightharpoonup> EvaluationSnapshot) \<Rightarrow> (uuid \<times> u64) list \<Rightarrow> bool" where
  "all_complete p keys \<longleftrightarrow> (\<forall>i. case p i of Some n \<Rightarrow> complete_log i n keys | None \<Rightarrow> filter (\<lambda>x. fst x = i) keys = [])"

lemma follows_refl: "follows n n"
  by (simp add: follows_def)

lemma follows_trans:
  assumes "follows l m" "follows m n"
  shows "follows l n"
proof -
  have le: "unat (sn_Version l) \<le> unat (sn_Version m)" "unat (sn_Version m) \<le> unat (sn_Version n)"
    using assms by (simp_all add: follows_def)
  have "n = l" if v: "sn_Version n = sn_Version l"
  proof -
    have "unat (sn_Version m) = unat (sn_Version l)" using le v by simp
    then have "sn_Version m = sn_Version l" by (simp only: word_unat_eq_iff)
    then show ?thesis using assms v by (simp add: follows_def)
  qed
  moreover have "n = l" if "state_IsTerminal (sn_State l)"
    using assms that by (simp add: follows_def)
  ultimately show ?thesis using assms le by (simp add: follows_def)
qed

lemma all_follow_refl: "all_follow p p"
  by (simp add: all_follow_def follows_refl)

lemma all_follow_trans: "all_follow p q \<Longrightarrow> all_follow q r \<Longrightarrow> all_follow p r"
  unfolding all_follow_def by (meson follows_trans)

text \<open>What \<open>SaveEvaluation\<close> stores of an aggregate is its snapshot.\<close>

lemma wf_checkpoints_distinct: "wf_evaluation e \<Longrightarrow> distinct (map fst (checkpoints e))"
  by (simp add: wf_evaluation_def checkpoints_ok_def)

lemma rehydrated:
  assumes "wf_evaluation e" "version e \<noteq> 0" "RehydrateEvaluation (Snapshot e) = Inr e'"
  shows "Snapshot e' = Snapshot e" "wf_evaluation e'" "agg_id e' = agg_id e" "version e' = version e" "staged (version e') e'"
    "domainEvents e' = []"
proof -
  obtain cps where cps: "RehydrateEvaluation (Snapshot e) = Ok (e\<lparr>domainEvents := [], checkpoints := cps\<rparr>)"
    "map_of cps = map_of (checkpoints e)" "distinct (map fst cps)"
    using rehydrate_Snapshot [OF assms(1,2)] .
  then have e': "e' = e\<lparr>domainEvents := [], checkpoints := cps\<rparr>" using assms(3) by simp
  show "Snapshot e' = Snapshot e"
    unfolding e' by (rule Snapshot_rehydrated [OF cps(2,3) wf_checkpoints_distinct [OF assms(1)]])
  have "set cps = set (checkpoints e)"
    using cps(2,3) wf_checkpoints_distinct [OF assms(1)] by (metis map_of_eq_Some_iff subrelI subset_antisym)
  moreover have "RequiredRulesComplete e' = RequiredRulesComplete e" by (rule RequiredRulesComplete_cong) (simp_all add: e')
  ultimately show wf: "wf_evaluation e'"
    using assms(1) cps(3) unfolding e' wf_evaluation_def
    by (auto simp: identity_ok_def timeline_ok_def result_ok_def required_ok_def checkpoints_ok_def history_ok_def
        bindings_ok_def cong: EvaluationState.case_cong)
  show "agg_id e' = agg_id e" "version e' = version e" "domainEvents e' = []" by (simp_all add: e')
  then show "staged (version e') e'" using wf by (simp add: staged_def)
qed

lemma quiet_follows:
  assumes "quiet e e'" "domainEvents e = []" "version e = of_nat k" "version e' = of_nat n" "n < 2 ^ 64" "k \<le> n"
    "n = k + length (domainEvents e')"
  shows "follows (Snapshot e) (Snapshot e')"
proof -
  have x: "extends e e'" using assms(1) by (simp add: quiet_def keeps_def)
  have same: "e' = e" if "version e' = version e"
  proof -
    have "unat (version e') = unat (version e)" using that by simp
    then have "n = k" using assms(3-6) by (simp add: unat_of_nat)
    then show ?thesis using assms(1,2,7) by (simp add: quiet_def)
  qed
  moreover have "unat (version e) \<le> unat (version e')" using assms(3-6) by (simp add: unat_of_nat)
  moreover have "version e' = version e" if "state_IsTerminal (state e)"
    using arg_cong [OF extends_same(5) [OF x that, unfolded frozen_def], of version] by simp
  ultimately show ?thesis
    using extends_same(1-4) [OF x] by (auto simp: follows_def Snapshot_def)
qed

lemma rehydrate_version: "RehydrateEvaluation n = Inr e \<Longrightarrow> sn_Version n \<noteq> 0"
  by (auto simp: RehydrateEvaluation_def validateEvaluationSnapshot_def Let_def split: if_splits option.splits)

lemma svc_write_cases:
  obtains "fst (svc_write st env f e v s) = fst (svc_save st env (fst (f e)) v s)" | "fst (svc_write st env f e v s) = s"
  by (cases "f e"; cases "snd (f e)") (auto simp: svc_write_def split: prod.splits option.splits)

section \<open>Stores under concurrent calls\<close>

text \<open>
  What the service needs of a store: it finds what was saved, a successful save was made under the version the store has
  and appends the records, a failed save changes nothing; \<open>intact\<close> is what the store itself keeps of its tables.
\<close>

locale aggregate_repository =
  fixes st :: "'s aggregate_store"
    and load :: "'s \<Rightarrow> uuid \<rightharpoonup> EvaluationSnapshot"
    and keys :: "'s \<Rightarrow> (uuid \<times> u64) list"
    and intact :: "'s \<Rightarrow> bool"
  assumes find: "st_FindEvaluation st i s = Inr e \<Longrightarrow> \<exists>n. load s i = Some n \<and> RehydrateEvaluation n = Inr e"
    and save_version: "intact s \<Longrightarrow> st_SaveEvaluation st n v rs s = (s', None) \<Longrightarrow>
      if v = 0 then load s (sn_EvaluationID n) = None else \<exists>c. load s (sn_EvaluationID n) = Some c \<and> sn_Version c = v"
    and save_load: "wf_evaluation e \<Longrightarrow> st_SaveEvaluation st (Snapshot e) v rs s = (s', None) \<Longrightarrow>
      version e \<noteq> 0 \<and> load s' = (load s)(agg_id e \<mapsto> Snapshot e)"
    and save_keys: "st_SaveEvaluation st n v rs s = (s', None) \<Longrightarrow> keys s' = keys s @ map event_key rs"
    and save_intact: "intact s \<Longrightarrow> wf_evaluation e \<Longrightarrow> st_SaveEvaluation st (Snapshot e) v rs s = (s', None) \<Longrightarrow> intact s'"
    and save_error: "st_SaveEvaluation st n v rs s = (s', Some err) \<Longrightarrow> s' = s"
begin

definition sound :: "'s \<Rightarrow> bool" where
  "sound s \<longleftrightarrow> intact s \<and> all_complete (load s) (keys s)"

lemma sound_intact: "sound s \<Longrightarrow> intact s"
  by (simp add: sound_def)

lemma sound_complete: "sound s \<Longrightarrow> load s i = Some n \<Longrightarrow> complete_log i n (keys s)"
  unfolding sound_def all_complete_def by (drule conjunct2, drule spec [of _ i]) simp

lemma svc_save_cases:
  assumes "fst (svc_save st env e v s) \<noteq> s"
  obtains rs where "BuildOutboxRecords (marshal env) (\<lambda>k. random env (Suc k)) (UTC (clock env 1)) e = Inr rs"
    "st_SaveEvaluation st (Snapshot e) v rs s = (fst (svc_save st env e v s), None)"
proof (cases "BuildOutboxRecords (marshal env) (\<lambda>k. random env (Suc k)) (UTC (clock env 1)) e")
  case (Inl err)
  then show ?thesis using assms by (simp add: svc_save_def)
next
  case (Inr rs)
  then have "svc_save st env e v s = st_SaveEvaluation st (Snapshot e) v rs s" by (simp add: svc_save_def)
  moreover obtain s' err where "st_SaveEvaluation st (Snapshot e) v rs s = (s', err)" by force
  ultimately show ?thesis using that [OF Inr] assms save_error by (cases err) auto
qed

lemma save_sound:
  assumes "sound s" "staged (of_nat k) e" "k < 2 ^ 64"
    and before: "filter (\<lambda>x. fst x = agg_id e) (keys s) = map (\<lambda>j. (agg_id e, of_nat j)) [1..<Suc k]"
    and b: "BuildOutboxRecords m r at e = Inr rs" and ok: "st_SaveEvaluation st (Snapshot e) v rs s = (s', None)"
  obtains n where "sound s'" "load s' = (load s)(agg_id e \<mapsto> Snapshot e)"
    "version e = of_nat n" "k \<le> n" "n < 2 ^ 64" "n = k + length (domainEvents e)"
proof -
  obtain n where n: "version e = of_nat n" "k \<le> n" "n < 2 ^ 64"
      "map event_key rs = map (\<lambda>j. (agg_id e, of_nat j)) [Suc k..<Suc n]" "n = k + length (domainEvents e)"
    using staged_records [OF assms(2,3) b] .
  have wf: "wf_evaluation e" using assms(2) by (simp add: staged_def)
  note nz = conjunct1 [OF save_load [OF wf ok]] and l = conjunct2 [OF save_load [OF wf ok]]
  have k: "keys s' = keys s @ map (\<lambda>j. (agg_id e, of_nat j)) [Suc k..<Suc n]" using save_keys [OF ok] n(4) by simp
  have upt: "[1..<Suc n] = [1..<Suc k] @ [Suc k..<Suc n]" using upt_add_eq_append [of 1 "Suc k" "n - k"] n(2) by simp
  have mine: "filter (\<lambda>x. fst x = agg_id e) (keys s') = map (\<lambda>j. (agg_id e, of_nat j)) [1..<Suc n]"
    unfolding k upt map_append filter_append before by (simp add: filter_map comp_def del: upt_Suc)
  have other: "filter (\<lambda>x. fst x = i) (keys s') = filter (\<lambda>x. fst x = i) (keys s)" if "i \<noteq> agg_id e" for i
    using that unfolding k by (simp add: filter_map comp_def del: upt_Suc)
  have "complete_log (agg_id e) (Snapshot e) (keys s')"
    unfolding complete_log_def using wf n(1,3) mine nz by (intro exI [of _ e] exI [of _ n]) (auto intro: Nat.gr0I)
  moreover have "case load s i of Some m \<Rightarrow> complete_log i m (keys s') | None \<Rightarrow> filter (\<lambda>x. fst x = i) (keys s') = []"
    if "i \<noteq> agg_id e" for i
    using spec [OF conjunct2 [OF assms(1) [unfolded sound_def all_complete_def]], of i] other [OF that]
    unfolding complete_log_def by (cases "load s i") (simp_all only: option.case)
  ultimately have "sound s'"
    using save_intact [OF sound_intact [OF assms(1)] wf ok] unfolding sound_def all_complete_def l by simp
  then show ?thesis using that l n by blast
qed

lemma create_step:
  assumes "sound s" "orderly f" "NewEvaluation i x at = Inr e"
  shows "let s' = fst (svc_write st env f e 0 s) in sound s' \<and> all_follow (load s) (load s')"
proof (cases "fst (svc_write st env f e 0 s) = s")
  case False
  let ?e = "fst (f e)" and ?s = "fst (svc_write st env f e 0 s)"
  have w: "?s = fst (svc_save st env ?e 0 s)" using svc_write_cases [of st env f e 0 s] False by metis
  then obtain rs where b: "BuildOutboxRecords (marshal env) (\<lambda>k. random env (Suc k)) (UTC (clock env 1)) ?e = Inr rs"
    and ok: "st_SaveEvaluation st (Snapshot ?e) 0 rs s = (?s, None)"
    using svc_save_cases [of env ?e 0 s] False by metis
  have wf: "staged 0 e" using staged_new [OF assms(3)] by simp
  have q: "quiet e ?e" using assms(2) wf by (simp add: orderly_def staged_def)
  have st: "staged (of_nat 0) ?e" using staged_quiet [OF wf q] by simp
  have none: "load s (agg_id ?e) = None" using save_version [OF sound_intact [OF assms(1)] ok] by (simp add: Snapshot_def)
  then have "filter (\<lambda>x. fst x = agg_id ?e) (keys s) = map (\<lambda>j. (agg_id ?e, of_nat j)) [1..<Suc 0]"
    using assms(1) by (auto simp: sound_def all_complete_def split: option.split_asm dest: spec [of _ "agg_id ?e"])
  from save_sound [OF assms(1) st _ this b ok] have "sound ?s" "load ?s = (load s)(agg_id ?e \<mapsto> Snapshot ?e)" by auto
  then show ?thesis using none follows_refl unfolding all_follow_def Let_def by fastforce
qed (simp add: assms(1) all_follow_refl)

lemma update_step:
  assumes "sound s" "sound s0" "all_follow (load s0) (load s)" "orderly f" "st_FindEvaluation st i s0 = Inr e"
  shows "let s' = fst (svc_write st env f e (version e) s) in sound s' \<and> all_follow (load s) (load s')"
proof (cases "fst (svc_write st env f e (version e) s) = s")
  case False
  let ?e = "fst (f e)" and ?s = "fst (svc_write st env f e (version e) s)"
  have w: "?s = fst (svc_save st env ?e (version e) s)" using svc_write_cases [of st env f e "version e" s] False by metis
  then obtain rs where b: "BuildOutboxRecords (marshal env) (\<lambda>k. random env (Suc k)) (UTC (clock env 1)) ?e = Inr rs"
    and ok: "st_SaveEvaluation st (Snapshot ?e) (version e) rs s = (?s, None)"
    using svc_save_cases [of env ?e "version e" s] False by metis
  obtain n where n: "load s0 i = Some n" "RehydrateEvaluation n = Inr e" using find [OF assms(5)] by blast
  then have "complete_log i n (keys s0)" using sound_complete assms(2) by simp
  then obtain e0 where e0: "n = Snapshot e0" "wf_evaluation e0" "agg_id e0 = i" by (auto simp: complete_log_def)
  have nz: "version e0 \<noteq> 0" using rehydrate_version [OF n(2)] e0(1) by (simp add: Snapshot_def)
  note e = rehydrated [OF e0(2) nz n(2) [unfolded e0(1)]]
  have q: "quiet e ?e" using assms(4) e(2) by (simp add: orderly_def)
  note st = staged_quiet [OF e(5) q]
  obtain c where c: "load s i = Some c" "sn_Version c = version e"
    using save_version [OF sound_intact [OF assms(1)] ok] st e(3,4) e0(3) nz by (auto simp: Snapshot_def)
  moreover have "follows n c" using assms(3) n(1) c(1) by (fastforce simp: all_follow_def)
  ultimately have cn: "load s i = Some (Snapshot e)" using e(1,4) e0(1) by (simp add: follows_def Snapshot_def)
  then have "complete_log i (Snapshot e) (keys s)" using sound_complete assms(1) by simp
  then obtain k where k: "version e = of_nat k" "k < 2 ^ 64"
      "filter (\<lambda>x. fst x = i) (keys s) = map (\<lambda>j. (i, of_nat j)) [1..<Suc k]"
    by (auto simp: complete_log_def Snapshot_def simp del: upt_Suc)
  have id: "agg_id ?e = i" using st e(3) e0(3) by simp
  obtain m where m: "sound ?s" "load ?s = (load s)(i \<mapsto> Snapshot ?e)"
      "version ?e = of_nat m" "k \<le> m" "m < 2 ^ 64" "m = k + length (domainEvents ?e)"
    using save_sound [OF assms(1) _ k(2) _ b ok] st k id by metis
  have "follows (Snapshot e) (Snapshot ?e)"
    using quiet_follows [OF q e(6) k(1) m(3,5,4,6)] .
  then have "all_follow (load s) (load ?s)" using cn follows_refl unfolding all_follow_def m(2) by auto
  then show ?thesis using m(1) by (simp add: Let_def)
qed (simp add: assms(1) all_follow_refl)

lemma writes_step:
  assumes "sound s" "sound s0" "all_follow (load s0) (load s)" "writes st env s0 s s'"
  shows "sound s' \<and> all_follow (load s) (load s')"
  using assms(4) create_step [OF assms(1)] update_step [OF assms(1-3)] assms(1) all_follow_refl
  unfolding writes_def Let_def by metis

theorem history_sound:
  assumes "pds_history st init h" "sound init"
  shows "(\<forall>s\<in>set h. sound s) \<and> (\<forall>s\<in>set h. all_follow (load s) (load (hd h)))"
  using assms(1)
proof induction
  case (call s h s0 env c)
  then have "sound s" "sound s0" "all_follow (load s0) (load s)" by auto
  then have "sound (call_write st env c s0 s)" "all_follow (load s) (load (call_write st env c s0 s))"
    using writes_step call_writes by metis+
  then show ?case using call.IH all_follow_trans all_follow_refl by auto
qed (simp add: assms(2) all_follow_refl)

end

interpretation memory: aggregate_repository memory_store ms_snapshots "\<lambda>m. map event_key (ms_outbox m)" "\<lambda>_. True"
proof
  fix i s e assume "st_FindEvaluation memory_store i s = Inr e"
  then show "\<exists>n. ms_snapshots s i = Some n \<and> RehydrateEvaluation n = Inr e"
    by (auto simp: memory_store_def mem_FindEvaluation_def lift_error_def split: option.splits sum.splits)
next
  fix n v rs and s s' :: MemoryStore assume "st_SaveEvaluation memory_store n v rs s = (s', None)"
  then have "mem_SaveEvaluation n v rs s = (s', None)" by (simp add: memory_store_def)
  then show "if v = 0 then ms_snapshots s (sn_EvaluationID n) = None
      else \<exists>c. ms_snapshots s (sn_EvaluationID n) = Some c \<and> sn_Version c = v"
    "map event_key (ms_outbox s') = map event_key (ms_outbox s) @ map event_key rs"
    by (auto simp: mem_SaveEvaluation_def Let_def word_gt_0 split: if_splits option.splits sum.splits)
next
  fix e v rs and s s' :: MemoryStore
  assume wf: "wf_evaluation e" and "st_SaveEvaluation memory_store (Snapshot e) v rs s = (s', None)"
  then obtain e' where e': "RehydrateEvaluation (Snapshot e) = Inr e'"
      "ms_snapshots s' = (ms_snapshots s)(sn_EvaluationID (Snapshot e) \<mapsto> Snapshot e')"
    by (auto simp: memory_store_def mem_SaveEvaluation_def Let_def split: if_splits sum.splits)
  then show "version e \<noteq> 0 \<and> ms_snapshots s' = (ms_snapshots s)(agg_id e \<mapsto> Snapshot e)"
    using rehydrated(1) [OF wf _ e'(1)] rehydrate_version [OF e'(1)] by (simp add: Snapshot_def)
next
  fix n v rs and s s' :: MemoryStore and err assume "st_SaveEvaluation memory_store n v rs s = (s', Some err)"
  then show "s' = s" by (auto simp: memory_store_def mem_SaveEvaluation_def Let_def split: if_splits sum.splits)
qed simp

lemma initial_sound: "memory.sound NewMemoryStore"
  by (simp add: memory.sound_def all_complete_def NewMemoryStore_def)

end
