(* ===== verification/Pds_Store.thy ===== *)
theory Pds_Store
  imports Pds_History Outbox_Repository
begin

text \<open>
  The PostgreSQL store of evaluations (\<open>src/persistence/postgres/store.go\<close>, with the tables of migrations 0001, 0011 and
  0014). One transaction writes the snapshot under the expected version, appends its digest to the audit ledger,
  binds the version to the ledger entry and inserts the outbox records; reading checks the binding.

  \<open>json.Marshal\<close> and \<open>json.Unmarshal\<close> of a snapshot, and \<open>json.Valid\<close>, are arguments. Connection failures are not modelled.
\<close>

section \<open>The tables\<close>

record evaluation_codec =
  cd_Marshal :: "EvaluationSnapshot \<Rightarrow> string option"
  cd_Unmarshal :: "string \<Rightarrow> EvaluationSnapshot option"

record evaluation_row =
  er_session_id :: uuid
  er_state :: EvaluationState
  er_result :: VerificationResult
  er_version :: u64
  er_snapshot :: string
  er_created_at :: time

record evaluation_db =
  ed_evaluations :: "uuid \<rightharpoonup> evaluation_row"
  ed_audit_records :: "uuid \<times> u64 \<rightharpoonup> u64"
  ed_ledger :: ledger
  ed_outbox :: outbox_table

definition NewStore :: evaluation_db where
  "NewStore = \<lparr>ed_evaluations = Map.empty, ed_audit_records = Map.empty, ed_ledger = [], ed_outbox = []\<rparr>"

section \<open>Saving\<close>

definition encodeSnapshot :: "evaluation_codec \<Rightarrow> EvaluationSnapshot \<Rightarrow> pds_error + string" where
  "encodeSnapshot cd snapshot =
     (case RehydrateEvaluation snapshot of
        Inl err \<Rightarrow> Err (EvaluationError err)
      | Inr _ \<Rightarrow> (case cd_Marshal cd snapshot of None \<Rightarrow> Err ErrStatementFailed | Some payload \<Rightarrow> Ok payload))"

definition decodeSnapshot :: "evaluation_codec \<Rightarrow> string \<Rightarrow> pds_error + EvaluationAggregate" where
  "decodeSnapshot cd payload =
     (case cd_Unmarshal cd payload of
        None \<Rightarrow> Err ErrStatementFailed
      | Some snapshot \<Rightarrow> lift_error EvaluationError (RehydrateEvaluation snapshot))"

text \<open>\<open>None\<close> is the dereference of a nil pointer.\<close>

definition evaluationOccurredAt :: "EvaluationSnapshot \<Rightarrow> time option" where
  "evaluationOccurredAt snapshot =
     (case sn_State snapshot of
        StateRunning \<Rightarrow> sn_StartedAt snapshot
      | StateCompleted \<Rightarrow> sn_CompletedAt snapshot
      | StateCancelled \<Rightarrow> sn_CancelledAt snapshot
      | StateExpired \<Rightarrow> sn_ExpiredAt snapshot
      | _ \<Rightarrow> Some (sn_CreatedAt snapshot))"

text \<open>The constraints of the columns; the driver refuses an unsigned value beyond \<open>BIGINT\<close>.\<close>

definition row_admissible :: "EvaluationSnapshot \<Rightarrow> bool" where
  "row_admissible snapshot \<longleftrightarrow>
     (case sn_State snapshot of StateOther _ \<Rightarrow> False | _ \<Rightarrow> True) \<and> result_IsValid (sn_Result snapshot) \<and>
     0 < sn_Version snapshot \<and> sn_Version snapshot \<le> max_sequence"

definition persistSnapshot ::
  "EvaluationSnapshot \<Rightarrow> u64 \<Rightarrow> string \<Rightarrow> (uuid \<rightharpoonup> evaluation_row) \<Rightarrow> pds_error + (uuid \<rightharpoonup> evaluation_row)" where
  "persistSnapshot snapshot expectedVersion payload t =
     (let i = sn_EvaluationID snapshot;
          r = \<lparr>er_session_id = sn_SessionID snapshot, er_state = sn_State snapshot, er_result = sn_Result snapshot,
            er_version = sn_Version snapshot, er_snapshot = payload, er_created_at = sn_CreatedAt snapshot\<rparr>
      in if expectedVersion = 0 then
           (if t i \<noteq> None \<or> \<not> row_admissible snapshot then Err ErrStatementFailed else Ok (t(i \<mapsto> r)))
         else if expectedVersion > max_sequence \<or> sn_Version snapshot > max_sequence then Err ErrStatementFailed
         else case t i of
             None \<Rightarrow> Err ErrConcurrentModification
           | Some c \<Rightarrow>
               if er_version c \<noteq> expectedVersion then Err ErrConcurrentModification
               else if \<not> row_admissible snapshot then Err ErrStatementFailed
               else Ok (t(i \<mapsto> r\<lparr>er_created_at := er_created_at c\<rparr>)))"

text \<open>The insert into \<open>evaluation_audit_records\<close>: its keys are unique.\<close>

definition bind_audit ::
  "uuid \<Rightarrow> u64 \<Rightarrow> u64 \<Rightarrow> (uuid \<times> u64 \<rightharpoonup> u64) \<Rightarrow> pds_error + (uuid \<times> u64 \<rightharpoonup> u64)" where
  "bind_audit i v seq t =
     (if t (i, v) \<noteq> None \<or> seq \<in> ran t then Err ErrStatementFailed else Ok (t((i, v) \<mapsto> seq)))"

definition store_SaveEvaluation ::
  "evaluation_codec \<Rightarrow> (string \<Rightarrow> bool) \<Rightarrow> EvaluationSnapshot \<Rightarrow> u64 \<Rightarrow> OutboxRecord list \<Rightarrow> evaluation_db \<Rightarrow>
   evaluation_db \<times> pds_error option" where
  "store_SaveEvaluation cd json_Valid snapshot expectedVersion records db =
     (case encodeSnapshot cd snapshot of Inl err \<Rightarrow> (db, Some err) | Inr payload \<Rightarrow>
      if expectedVersion > 0 \<and> sn_Version snapshot \<le> expectedVersion then (db, Some ErrInvalidExpectedVersion) else
      case persistSnapshot snapshot expectedVersion payload (ed_evaluations db) of
        Inl err \<Rightarrow> (db, Some err) | Inr evaluations \<Rightarrow>
      case evaluationOccurredAt snapshot of None \<Rightarrow> (db, Some NilDereference) | Some occurredAt \<Rightarrow>
      case append_next RecordEvaluation (sha256 (bytes_of payload)) occurredAt (ed_ledger db) of
        Inl err \<Rightarrow> (db, Some (AuditFailure err)) | Inr (entry, ledger) \<Rightarrow>
      case bind_audit (sn_EvaluationID snapshot) (sn_Version snapshot) (Sequence entry) (ed_audit_records db) of
        Inl err \<Rightarrow> (db, Some err) | Inr audit_records \<Rightarrow>
      case insertOutboxRecords json_Valid records (ed_outbox db) of
        Inl err \<Rightarrow> (db, Some (OutboxError err))
      | Inr outbox \<Rightarrow>
          (\<lparr>ed_evaluations = evaluations, ed_audit_records = audit_records, ed_ledger = ledger, ed_outbox = outbox\<rparr>, None))"

section \<open>Finding\<close>

definition audit_bound :: "evaluation_db \<Rightarrow> uuid \<Rightarrow> evaluation_row \<Rightarrow> bool" where
  "audit_bound db i r =
     (case ed_audit_records db (i, er_version r) of None \<Rightarrow> False | Some seq \<Rightarrow>
      case find (\<lambda>entry. Sequence entry = seq) (ed_ledger db) of None \<Rightarrow> False | Some entry \<Rightarrow>
      Kind entry = RecordEvaluation \<and> length (RecordRoot entry) = 32 \<and>
      sha256 (bytes_of (er_snapshot r)) = RecordRoot entry)"

definition store_FindEvaluation ::
  "evaluation_codec \<Rightarrow> uuid \<Rightarrow> evaluation_db \<Rightarrow> pds_error + EvaluationAggregate" where
  "store_FindEvaluation cd i db =
     (if i = Nil_uuid then Err (EvaluationError ErrEvaluationIDRequired)
      else case ed_evaluations db i of
          None \<Rightarrow> Err ErrEvaluationNotFound
        | Some r \<Rightarrow> if \<not> audit_bound db i r then Err ErrEvaluationAuditInvalid else decodeSnapshot cd (er_snapshot r))"

definition postgres_store :: "evaluation_codec \<Rightarrow> (string \<Rightarrow> bool) \<Rightarrow> evaluation_db aggregate_store" where
  "postgres_store cd json_Valid =
     \<lparr>st_SaveEvaluation = store_SaveEvaluation cd json_Valid, st_FindEvaluation = store_FindEvaluation cd\<rparr>"

section \<open>The store as a repository of aggregates\<close>

text \<open>
  What is relied on of \<open>encoding/json\<close>: the snapshot of a well-formed evaluation that was encoded is decoded as it was. Times of
  such a snapshot are in UTC and are encoded to the nanosecond; its strings are taken to be valid UTF-8.
\<close>

definition codec_faithful :: "evaluation_codec \<Rightarrow> bool" where
  "codec_faithful cd \<longleftrightarrow> (\<forall>e p. wf_evaluation e \<longrightarrow> cd_Marshal cd (Snapshot e) = Some p \<longrightarrow> cd_Unmarshal cd p = Some (Snapshot e))"

definition pg_load :: "evaluation_codec \<Rightarrow> evaluation_db \<Rightarrow> uuid \<rightharpoonup> EvaluationSnapshot" where
  "pg_load cd db i = (case ed_evaluations db i of None \<Rightarrow> None | Some r \<Rightarrow> cd_Unmarshal cd (er_snapshot r))"

definition row_intact :: "evaluation_codec \<Rightarrow> evaluation_db \<Rightarrow> uuid \<Rightarrow> evaluation_row \<Rightarrow> bool" where
  "row_intact cd db i r \<longleftrightarrow> i \<noteq> Nil_uuid \<and> audit_bound db i r \<and>
     (\<exists>n e. cd_Unmarshal cd (er_snapshot r) = Some n \<and> sn_Version n = er_version r \<and> RehydrateEvaluation n = Inr e)"

definition pg_intact :: "evaluation_codec \<Rightarrow> evaluation_db \<Rightarrow> bool" where
  "pg_intact cd db \<longleftrightarrow> (\<forall>i r. ed_evaluations db i = Some r \<longrightarrow> row_intact cd db i r)"

lemma encodeSnapshot_Ok: "encodeSnapshot cd n = Inr p \<longleftrightarrow> cd_Marshal cd n = Some p \<and> (\<exists>e. RehydrateEvaluation n = Inr e)"
  by (auto simp: encodeSnapshot_def split: sum.splits option.splits)

lemma persistSnapshot_Ok:
  assumes "persistSnapshot n v p t = Inr t'"
  obtains r where "t' = t(sn_EvaluationID n \<mapsto> r)" "er_version r = sn_Version n" "er_snapshot r = p"
    "if v = 0 then t (sn_EvaluationID n) = None else \<exists>c. t (sn_EvaluationID n) = Some c \<and> er_version c = v"
  using assms by (force simp: persistSnapshot_def Let_def split: if_splits option.splits)

lemma append_next_fresh:
  assumes "append_next kind root at l = Inr (en, l')"
  shows "l' = l @ [en] \<and> Kind en = kind \<and> RecordRoot en = root \<and> Sequence en \<notin> Sequence ` set l"
proof -
  have "nextAuditEntryLocked kind root at l = Inr en" and l': "insertAuditEntry en l = Inr l'"
    using assms by (auto simp: append_next_def split: sum.splits)
  then obtain k prev where "NewEntry k kind prev root at = Inr en"
    by (auto simp: nextAuditEntryLocked_def split: sum.splits audit_error.splits if_splits)
  then show ?thesis
    using l' NewEntry_sealed by (auto simp: insertAuditEntry_def ledger_admits_def split: if_splits)
qed

lemma insertOutboxRecords_keys:
  "insertOutboxRecords jv rs t = Inr t' \<Longrightarrow> map event_key t' = map event_key t @ map event_key rs"
  by (induction rs arbitrary: t) (auto simp: event_key_def inserted_row_def split: option.splits if_splits)

lemma save_Ok:
  assumes "store_SaveEvaluation cd jv n v rs db = (db', None)"
  obtains p r en where "cd_Marshal cd n = Some p" "\<exists>e. RehydrateEvaluation n = Inr e" "v = 0 \<or> v < sn_Version n"
    "ed_evaluations db' = (ed_evaluations db)(sn_EvaluationID n \<mapsto> r)" "er_version r = sn_Version n" "er_snapshot r = p"
    "if v = 0 then ed_evaluations db (sn_EvaluationID n) = None
     else \<exists>c. ed_evaluations db (sn_EvaluationID n) = Some c \<and> er_version c = v"
    "ed_ledger db' = ed_ledger db @ [en]" "Kind en = RecordEvaluation" "RecordRoot en = sha256 (bytes_of p)"
    "Sequence en \<notin> Sequence ` set (ed_ledger db)"
    "ed_audit_records db' = (ed_audit_records db)((sn_EvaluationID n, sn_Version n) \<mapsto> Sequence en)"
    "map event_key (ed_outbox db') = map event_key (ed_outbox db) @ map event_key rs"
proof -
  obtain p t at en l ar ob where p: "encodeSnapshot cd n = Inr p" and v: "v = 0 \<or> v < sn_Version n"
    and t: "persistSnapshot n v p (ed_evaluations db) = Inr t"
    and l: "append_next RecordEvaluation (sha256 (bytes_of p)) at (ed_ledger db) = Inr (en, l)"
    and ar: "bind_audit (sn_EvaluationID n) (sn_Version n) (Sequence en) (ed_audit_records db) = Inr ar"
    and ob: "insertOutboxRecords jv rs (ed_outbox db) = Inr ob"
    and db': "db' = \<lparr>ed_evaluations = t, ed_audit_records = ar, ed_ledger = l, ed_outbox = ob\<rparr>"
    using assms by (force simp: store_SaveEvaluation_def word_gt_0 not_le split: sum.splits option.splits if_splits)
  obtain r where r: "t = (ed_evaluations db)(sn_EvaluationID n \<mapsto> r)" "er_version r = sn_Version n" "er_snapshot r = p"
    "if v = 0 then ed_evaluations db (sn_EvaluationID n) = None
     else \<exists>c. ed_evaluations db (sn_EvaluationID n) = Some c \<and> er_version c = v"
    using persistSnapshot_Ok [OF t] .
  have "ar = (ed_audit_records db)((sn_EvaluationID n, sn_Version n) \<mapsto> Sequence en)"
    using ar by (simp add: bind_audit_def split: if_splits)
  then show ?thesis
    using that [of p r en] p v r append_next_fresh [OF l] insertOutboxRecords_keys [OF ob] db' encodeSnapshot_Ok by simp
qed

lemma save_failed: "store_SaveEvaluation cd jv n v rs db = (db', Some err) \<Longrightarrow> db' = db"
  by (auto simp: store_SaveEvaluation_def split: sum.splits option.splits if_splits prod.splits)

lemma audit_bound_later:
  assumes "audit_bound db i r" "ed_audit_records db' (i, er_version r) = ed_audit_records db (i, er_version r)"
    "ed_ledger db' = ed_ledger db @ [en]"
  shows "audit_bound db' i r"
proof -
  obtain seq x where x: "ed_audit_records db (i, er_version r) = Some seq" "find (\<lambda>en. Sequence en = seq) (ed_ledger db) = Some x"
    using assms(1) by (auto simp: audit_bound_def split: option.split_asm)
  then show ?thesis using assms by (simp add: audit_bound_def find_append)
qed

lemma save_keeps_intact:
  assumes "codec_faithful cd" "pg_intact cd db" "wf_evaluation e"
    and ok: "store_SaveEvaluation cd jv (Snapshot e) v rs db = (db', None)"
  shows "pg_intact cd db'"
  using ok
proof (rule save_Ok)
  let ?i = "sn_EvaluationID (Snapshot e)"
  fix p r en
  assume p: "cd_Marshal cd (Snapshot e) = Some p" and e: "\<exists>e'. RehydrateEvaluation (Snapshot e) = Inr e'"
    and t: "ed_evaluations db' = (ed_evaluations db)(?i \<mapsto> r)" "er_version r = sn_Version (Snapshot e)" "er_snapshot r = p"
    and l: "ed_ledger db' = ed_ledger db @ [en]" "Kind en = RecordEvaluation" "RecordRoot en = sha256 (bytes_of p)"
      "Sequence en \<notin> Sequence ` set (ed_ledger db)"
    and ar: "ed_audit_records db' = (ed_audit_records db)((?i, sn_Version (Snapshot e)) \<mapsto> Sequence en)"
  have "find (\<lambda>x. Sequence x = Sequence en) (ed_ledger db) = None" unfolding find_None_iff using l(4) by (metis imageI)
  then have "audit_bound db' ?i r" using t l ar by (simp add: audit_bound_def find_append)
  moreover have "?i \<noteq> Nil_uuid" using assms(3) by (simp add: Snapshot_def wf_evaluation_def identity_ok_def)
  moreover have "cd_Unmarshal cd p = Some (Snapshot e)" using assms(1,3) p by (simp add: codec_faithful_def)
  ultimately have "row_intact cd db' ?i r" unfolding row_intact_def t(2,3) using e by blast
  moreover have "row_intact cd db' i r'" if "i \<noteq> ?i" "ed_evaluations db i = Some r'" for i r'
  proof -
    have "row_intact cd db i r'" using assms(2) that(2) by (simp add: pg_intact_def)
    moreover have "ed_audit_records db' (i, er_version r') = ed_audit_records db (i, er_version r')"
      unfolding ar using that(1) by simp
    ultimately show ?thesis using audit_bound_later [OF _ _ l(1)] by (simp add: row_intact_def)
  qed
  ultimately show ?thesis unfolding pg_intact_def t by simp
qed

lemma postgres_repository:
  assumes cd: "codec_faithful cd"
  shows "aggregate_repository (postgres_store cd jv) (pg_load cd) (\<lambda>db. map event_key (ed_outbox db)) (pg_intact cd)"
proof
  fix i db e assume "st_FindEvaluation (postgres_store cd jv) i db = Inr e"
  then show "\<exists>n. pg_load cd db i = Some n \<and> RehydrateEvaluation n = Inr e"
    by (auto simp: postgres_store_def store_FindEvaluation_def pg_load_def decodeSnapshot_def lift_error_def
        split: if_splits option.splits sum.splits)
next
  fix n v rs db db' assume i: "pg_intact cd db" and "st_SaveEvaluation (postgres_store cd jv) n v rs db = (db', None)"
  then have ok: "store_SaveEvaluation cd jv n v rs db = (db', None)" by (simp add: postgres_store_def)
  have "if v = 0 then ed_evaluations db (sn_EvaluationID n) = None
     else \<exists>c. ed_evaluations db (sn_EvaluationID n) = Some c \<and> er_version c = v" by (rule save_Ok [OF ok])
  then show "if v = 0 then pg_load cd db (sn_EvaluationID n) = None
      else \<exists>c. pg_load cd db (sn_EvaluationID n) = Some c \<and> sn_Version c = v"
    using i by (fastforce simp: pg_load_def pg_intact_def row_intact_def split: if_splits)
next
  fix e v rs db db' assume wf: "wf_evaluation e" and "st_SaveEvaluation (postgres_store cd jv) (Snapshot e) v rs db = (db', None)"
  then have ok: "store_SaveEvaluation cd jv (Snapshot e) v rs db = (db', None)" by (simp add: postgres_store_def)
  obtain p r e' where "cd_Marshal cd (Snapshot e) = Some p" "RehydrateEvaluation (Snapshot e) = Inr e'"
      "ed_evaluations db' = (ed_evaluations db)(sn_EvaluationID (Snapshot e) \<mapsto> r)" "er_snapshot r = p"
    using save_Ok [OF ok] by metis
  then show "version e \<noteq> 0 \<and> pg_load cd db' = (pg_load cd db)(agg_id e \<mapsto> Snapshot e)"
    using wf cd rehydrate_version [of "Snapshot e" e'] by (auto simp: codec_faithful_def pg_load_def Snapshot_def)
next
  fix n v rs db db' assume "st_SaveEvaluation (postgres_store cd jv) n v rs db = (db', None)"
  then show "map event_key (ed_outbox db') = map event_key (ed_outbox db) @ map event_key rs"
    using save_Ok [of cd jv n v rs db db'] unfolding postgres_store_def by (metis aggregate_store.select_convs(1))
next
  fix e v rs db db'
  assume "pg_intact cd db" "wf_evaluation e" "st_SaveEvaluation (postgres_store cd jv) (Snapshot e) v rs db = (db', None)"
  then show "pg_intact cd db'" using save_keeps_intact [OF cd] by (simp add: postgres_store_def)
next
  fix n v rs db db' err assume "st_SaveEvaluation (postgres_store cd jv) n v rs db = (db', Some err)"
  then show "db' = db" using save_failed by (simp add: postgres_store_def)
qed

text \<open>In an intact store every row is read back, and a save that does not raise the version is refused.\<close>

lemma found_intact:
  assumes "pg_intact cd db" "ed_evaluations db i = Some r" "all_complete (pg_load cd db) keys"
  shows "case store_FindEvaluation cd i db of Inl _ \<Rightarrow> False
    | Inr e \<Rightarrow> pg_load cd db i = Some (Snapshot e) \<and>
        snd (store_SaveEvaluation cd jv (Snapshot e) (version e) [] db) \<noteq> None"
proof -
  have "row_intact cd db i r" using assms(1,2) by (simp add: pg_intact_def)
  then obtain n e where n: "i \<noteq> Nil_uuid" "audit_bound db i r" "cd_Unmarshal cd (er_snapshot r) = Some n"
      "RehydrateEvaluation n = Inr e" by (auto simp: row_intact_def)
  have load: "pg_load cd db i = Some n" using assms(2) n(3) by (simp add: pg_load_def)
  then have "complete_log i n keys" using spec [OF assms(3) [unfolded all_complete_def], of i] by simp
  then obtain e0 where e0: "n = Snapshot e0" "wf_evaluation e0" by (auto simp: complete_log_def)
  have nz: "version e0 \<noteq> 0" using rehydrate_version [OF n(4)] e0(1) by (simp add: Snapshot_def)
  note e = rehydrated(1,4) [OF e0(2) nz n(4) [unfolded e0(1)]]
  have "version e \<noteq> 0 \<and> sn_Version (Snapshot e) = version e" using e nz by (simp add: Snapshot_def)
  then have "snd (store_SaveEvaluation cd jv (Snapshot e) (version e) [] db) \<noteq> None"
    by (simp add: store_SaveEvaluation_def word_gt_0 split: sum.split)
  moreover have "store_FindEvaluation cd i db = Inr e"
    using n assms(2) by (simp add: store_FindEvaluation_def decodeSnapshot_def lift_error_def)
  ultimately show ?thesis using load e(1) e0(1) by simp
qed

end
