(* ===== verification/Pds_Properties.thy ===== *)
theory Pds_Properties
  imports Pds_Store
begin

text \<open>
  The properties of the application service: under any interleaving of its calls no update of an evaluation is
  lost and the outbox has exactly the events of every evaluation, in memory and in PostgreSQL.
\<close>

section \<open>Properties\<close>

text \<open>
  C39. Whatever calls of the service run, in whatever interleaving (each may have read the store in any of its
  earlier states), no update is lost: every evaluation stored in an earlier state is still stored and follows it, that is,
  its identity, session, creation and start times and bindings are kept, its version never falls, at an equal version it
  is the same snapshot, and once terminal it never changes; and every stored evaluation is well formed and has in
  the outbox exactly one record of each version from 1 to its own, in order.
\<close>

theorem no_lost_update:
  assumes "pds_history memory_store NewMemoryStore (s # h)"
  shows "(\<forall>s'\<in>set h. all_follow (ms_snapshots s') (ms_snapshots s)) \<and>
    all_complete (ms_snapshots s) (map event_key (ms_outbox s))"
  using memory.history_sound [OF assms initial_sound] by (simp add: memory.sound_def)

definition sample_env :: environment where
  "sample_env = \<lparr>clock = (\<lambda>k. Time 1000 0), random = (\<lambda>k. 5), marshal = (\<lambda>_. Ok ''{}'')\<rparr>"

definition sample_id :: uuid where
  "sample_id = New 5"

text \<open>An evaluation is created and started; a timeout that read the state before the start comes last.\<close>

definition sample_created :: MemoryStore where
  "sample_created = call_write memory_store sample_env (CallCreate 7 []) NewMemoryStore NewMemoryStore"

definition sample_begun :: MemoryStore where
  "sample_begun = call_write memory_store sample_env (CallStart sample_id) sample_created sample_created"

definition sample_stale :: MemoryStore where
  "sample_stale = call_write memory_store sample_env (CallExpire sample_id \<lparr>CreatedTimeout = 1, RunningTimeout = 1\<rparr>)
     sample_created sample_begun"

lemma sample_ids: "sample_id \<noteq> Nil_uuid" "Nil_uuid \<noteq> 7"
  by code_simp+

lemma sample_created_keys: "map event_key (ms_outbox sample_created) = [(sample_id, 1)]"
  using sample_ids
  by (simp add: sample_created_def svc_Create_def NewEvaluation_def Let_def svc_write_def svc_save_def sample_env_def
      memory_store_def UTC_def IsZero_def BuildOutboxRecords_def addDomainEvent_def NewOutboxRecord_def fst_results
      mem_SaveEvaluation_def NewMemoryStore_def RehydrateEvaluation_def validateEvaluationSnapshot_def Snapshot_def
      snapshot_state_ok_def Checkpoints_def event_key_def normalizeOutboxRecord_def graphic_def flip: sample_id_def)

lemma sample_history: "pds_history memory_store NewMemoryStore [sample_stale, sample_begun, sample_created, NewMemoryStore]"
  unfolding sample_stale_def sample_begun_def sample_created_def by (intro pds_history.intros) simp_all

theorem no_lost_update_witness:
  "pds_history memory_store NewMemoryStore [sample_stale, sample_begun, sample_created, NewMemoryStore] \<and>
   map event_key (ms_outbox sample_created) = [(sample_id, 1)] \<and>
   all_follow (ms_snapshots sample_created) (ms_snapshots sample_stale) \<and>
   all_follow (ms_snapshots sample_begun) (ms_snapshots sample_stale) \<and>
   all_complete (ms_snapshots sample_stale) (map event_key (ms_outbox sample_stale))"
  using no_lost_update [OF sample_history] sample_history sample_created_keys by simp




end
