(* ===== verification/Spec2Isabelle.thy ===== *)
theory Spec2Isabelle
  imports Evaluation_Properties Outbox_Properties Handover_Properties Evidence_Properties Policy_Properties Rule_Properties Pds_Properties
begin

text \<open>
  Verification of the Cargo OS presence and delivery service (PDS).

  \<^bold>\<open>Layout.\<close> Go_Prelude holds the Go notions shared by all components, Uuid the UUID package,
  Evaluation_Types the data of the evaluation aggregate.
\<close>

end
